theory Spec2Isabelle
  imports Main
begin

section \<open>JavaScript values used by the editors\<close>

text \<open>
  A JavaScript string is a list of code units. The characters the editors test for
  (newline, space, digits, the sign and radix characters, \<open>:\<close> and \<open>/\<close>) are all ASCII,
  and \<^typ>\<open>char\<close> covers the code units below 256. Numbers are integers of unbounded
  size: every number the editors compute is a row, a column or a line count.
\<close>

subsection \<open>Indexing, \<open>slice\<close> and \<open>splice\<close>\<close>

text \<open>\<open>xs[i]\<close>: \<open>None\<close> stands for \<open>undefined\<close>, the value of a read outside the array
  or string.\<close>

definition js_index :: "'a list \<Rightarrow> int \<Rightarrow> 'a option" where
  "js_index xs i = (if 0 \<le> i \<and> i < int (length xs) then Some (xs ! nat i) else None)"

text \<open>The position that \<open>slice\<close> and \<open>splice\<close> compute from an argument: a negative
  argument counts from the end, and the result is clamped into \<open>[0, length]\<close>.\<close>

definition rel_index :: "nat \<Rightarrow> int \<Rightarrow> nat" where
  "rel_index n i = (if i < 0 then nat (max (int n + i) 0) else min (nat i) n)"

text \<open>\<open>xs.slice(a, b)\<close> and \<open>xs.slice(a)\<close>.\<close>

definition slice :: "'a list \<Rightarrow> int \<Rightarrow> int \<Rightarrow> 'a list" where
  "slice xs a b = take (rel_index (length xs) b - rel_index (length xs) a)
                       (drop (rel_index (length xs) a) xs)"

definition slice_from :: "'a list \<Rightarrow> int \<Rightarrow> 'a list" where
  "slice_from xs a = drop (rel_index (length xs) a) xs"

text \<open>\<open>xs.splice(start, 0, x)\<close> inserts \<open>x\<close>; \<open>xs.splice(start, 1)\<close> removes one element,
  or none when \<open>start\<close> is at or past the end.\<close>

definition splice_insert :: "'a list \<Rightarrow> int \<Rightarrow> 'a \<Rightarrow> 'a list" where
  "splice_insert xs start x =
     take (rel_index (length xs) start) xs @ x # drop (rel_index (length xs) start) xs"

definition splice_remove :: "'a list \<Rightarrow> int \<Rightarrow> 'a list" where
  "splice_remove xs start =
     take (rel_index (length xs) start) xs @ drop (Suc (rel_index (length xs) start)) xs"

subsection \<open>\<open>indexOf\<close>, \<open>includes\<close>, \<open>split\<close>, \<open>join\<close>, \<open>trim\<close>\<close>

text \<open>\<open>find_at t l k\<close> is the first position of \<open>t\<close> in \<open>l\<close>, counted from \<open>k\<close>.\<close>

primrec find_at :: "string \<Rightarrow> string \<Rightarrow> nat \<Rightarrow> nat option" where
  "find_at t [] k = (if t = [] then Some k else None)"
| "find_at t (c # cs) k =
     (if take (length t) (c # cs) = t then Some k else find_at t cs (Suc k))"

text \<open>\<open>l.indexOf(t, pos)\<close>: the search starts at \<open>pos\<close> clamped into \<open>[0, length]\<close>; the
  result is \<open>-1\<close> when there is no occurrence.\<close>

definition indexOf :: "string \<Rightarrow> string \<Rightarrow> int \<Rightarrow> int" where
  "indexOf l t pos =
     (let k = nat (min (max pos 0) (int (length l)))
      in case find_at t (drop k l) k of None \<Rightarrow> - 1 | Some i \<Rightarrow> int i)"

definition includes_str :: "string \<Rightarrow> string \<Rightarrow> bool" where
  "includes_str l t = (find_at t l 0 \<noteq> None)"

text \<open>\<open>s.split(sep)\<close> for a separator of one character: the result is never empty.\<close>

primrec split :: "char \<Rightarrow> string \<Rightarrow> string list" where
  "split sep [] = [[]]"
| "split sep (c # cs) =
     (if c = sep then [] # split sep cs
      else (case split sep cs of [] \<Rightarrow> [[c]] | l # ls \<Rightarrow> (c # l) # ls))"

text \<open>\<open>ls.join(sep)\<close> for a separator of one character.\<close>

fun join :: "char \<Rightarrow> string list \<Rightarrow> string" where
  "join sep [] = []"
| "join sep [l] = l"
| "join sep (l # ls) = l @ sep # join sep ls"

text \<open>The white space and line terminators that \<open>trim\<close> and \<open>parseInt\<close> skip, among the
  code units below 256: tab, line feed, vertical tab, form feed, carriage return, space
  and the no-break space.\<close>

definition is_space :: "char \<Rightarrow> bool" where
  "is_space c = (c \<in> {CHR 0x09, CHR 0x0A, CHR 0x0B, CHR 0x0C, CHR 0x0D, CHR 0x20, CHR 0xA0})"

definition trim :: "string \<Rightarrow> string" where
  "trim s = rev (dropWhile is_space (rev (dropWhile is_space s)))"

subsection \<open>\<open>parseInt\<close>\<close>

text \<open>The value of a digit in radix 10 or 16, \<open>None\<close> for any other character.\<close>

definition digit_val :: "nat \<Rightarrow> char \<Rightarrow> nat option" where
  "digit_val radix c =
     (let n = of_char c :: nat in
      if 48 \<le> n \<and> n \<le> 57 then Some (n - 48)
      else if radix = 16 \<and> 97 \<le> n \<and> n \<le> 102 then Some (n - 87)
      else if radix = 16 \<and> 65 \<le> n \<and> n \<le> 70 then Some (n - 55)
      else None)"

text \<open>Reads digits while there are some: the value so far and whether a digit was read.\<close>

fun digits :: "nat \<Rightarrow> string \<Rightarrow> nat \<Rightarrow> bool \<Rightarrow> nat option" where
  "digits radix [] acc seen = (if seen then Some acc else None)"
| "digits radix (c # cs) acc seen =
     (case digit_val radix c of
        None \<Rightarrow> (if seen then Some acc else None)
      | Some d \<Rightarrow> digits radix cs (acc * radix + d) True)"

text \<open>\<open>parseInt(s)\<close> with no radix argument: leading white space, an optional sign, an
  optional \<open>0x\<close> or \<open>0X\<close> that selects radix 16, then the longest run of digits. \<open>None\<close> is
  \<open>NaN\<close>.\<close>

definition unsigned_int :: "string \<Rightarrow> nat option" where
  "unsigned_int s =
     (case s of
        c # x # rest \<Rightarrow>
          (if c = CHR ''0'' \<and> (x = CHR ''x'' \<or> x = CHR ''X'') then digits 16 rest 0 False
           else digits 10 s 0 False)
      | _ \<Rightarrow> digits 10 s 0 False)"

definition parseInt :: "string \<Rightarrow> int option" where
  "parseInt s =
     (case dropWhile is_space s of
        [] \<Rightarrow> None
      | c # cs \<Rightarrow>
          (if c = CHR ''-'' then map_option (\<lambda>n. - int n) (unsigned_int cs)
           else if c = CHR ''+'' then map_option int (unsigned_int cs)
           else map_option int (unsigned_int (c # cs))))"

section \<open>The world outside the editor\<close>

text \<open>
  The file system as the editors use it through \<open>fs.existsSync\<close>, \<open>fs.readFileSync\<close> and
  \<open>fs.writeFileSync\<close>. A path names a file with its text, a directory, or nothing.
  \<open>writable\<close> says for each path whether a write to it succeeds (the parent directory is
  there, the permissions allow it, the disk has room). \<open>valid_regexp\<close> says whether
  \<open>new RegExp(t, 'g')\<close> accepts the pattern \<open>t\<close> or throws a \<open>SyntaxError\<close>: the regular
  expression syntax of the language is a parameter of the model. \<open>cwd_listable\<close> says
  whether \<open>fs.readdirSync(process.cwd())\<close> succeeds.
\<close>

datatype node = File string | Directory

record world =
  files :: "string \<Rightarrow> node option"
  writable :: "string \<Rightarrow> bool"
  valid_regexp :: "string \<Rightarrow> bool"
  cwd_listable :: bool

definition existsSync :: "world \<Rightarrow> string \<Rightarrow> bool" where
  "existsSync w p = (files w p \<noteq> None)"

text \<open>\<open>None\<close>: the call throws.\<close>

definition readFileSync :: "world \<Rightarrow> string \<Rightarrow> string option" where
  "readFileSync w p = (case files w p of Some (File text) \<Rightarrow> Some text | _ \<Rightarrow> None)"

definition writeFileSync :: "world \<Rightarrow> string \<Rightarrow> string \<Rightarrow> world option" where
  "writeFileSync w p text =
     (if writable w p \<and> files w p \<noteq> Some Directory
      then Some (w\<lparr>files := (files w)(p \<mapsto> File text)\<rparr>)
      else None)"

section \<open>The standalone editor (\<open>editorCommand\<close>)\<close>

subsection \<open>State\<close>

datatype mode = Normal | Insert | Command

record EditorState =
  content :: "string list"
  cursorRow :: int
  cursorCol :: int
  scrollTop :: int
  mode :: mode
  filename :: string
  modified :: bool
  searchTerm :: string
  commandBuffer :: string

text \<open>
  A session is the editor state together with what the closure of \<open>editorCommand\<close> reaches
  besides it: the text of the command line box \<open>cmdLine\<close>, the file system, and \<open>shown\<close>,
  which records the text of the command line box at every \<open>screen.render()\<close>, oldest
  first. The editor box and the status bar are written and never read, so they are left out.
\<close>

record session = EditorState +
  cmdLine :: string
  shown :: "string list"
  disk :: world

text \<open>
  The end of a keypress handler: it returns and the editor goes on, or \<open>process.exit(0)\<close>
  ends the process (the file system is what remains), or an exception leaves the handler.
\<close>

datatype error = TypeError | SyntaxError | IOError

datatype 'a outcome = Running 'a | Exited world | Crashed error

definition and_then :: "'a outcome \<Rightarrow> ('a \<Rightarrow> 'b outcome) \<Rightarrow> 'b outcome" where
  "and_then r f = (case r of Running s \<Rightarrow> f s | Exited w \<Rightarrow> Exited w | Crashed e \<Rightarrow> Crashed e)"

text \<open>A key event of blessed: \<open>ch\<close> is the character typed, if any, and \<open>key\<close> carries the
  name of the key and the modifiers.\<close>

record key =
  name :: "string option"
  ctrl :: bool
  shift :: bool
  meta :: bool

subsection \<open>\<open>render\<close>\<close>

definition screen_render :: "'a session_scheme \<Rightarrow> 'a session_scheme" where
  "screen_render s = s\<lparr>shown := shown s @ [cmdLine s]\<rparr>"

text \<open>The scroll adjustment at the head of \<open>render\<close>: the new \<open>scrollTop\<close>.\<close>

definition scroll_into_view :: "int \<Rightarrow> int \<Rightarrow> int \<Rightarrow> int" where
  "scroll_into_view height row first =
     (if row < first then row
      else if row \<ge> first + height then row - height + 1
      else first)"

text \<open>
  The text of buffer line \<open>lineNum\<close> as the display loop has it when it tests for the search
  term: the cursor line already carries the cursor markup. \<open>None\<close> for a row past the end
  of the buffer, which shows as \<open>~\<close>.
\<close>

definition display_line :: "session \<Rightarrow> int \<Rightarrow> string option" where
  "display_line s lineNum =
     (if lineNum \<ge> int (length (content s)) then None
      else
        let line = (case js_index (content s) lineNum of None \<Rightarrow> [] | Some l \<Rightarrow> l)
        in if lineNum = cursorRow s
           then
             let beforeText = slice line 0 (cursorCol s);
                 cursor = (case js_index line (cursorCol s) of None \<Rightarrow> '' '' | Some c \<Rightarrow> [c]);
                 after = slice_from line (cursorCol s + 1)
             in Some (beforeText @ ''{black-bg}{white-fg}'' @ cursor @ ''{/white-fg}{/black-bg}'' @ after)
           else Some line)"

text \<open>The search highlight of row \<open>lineNum\<close> builds a regular expression from the search
  term, and that throws when the term is not a valid pattern.\<close>

definition highlight_throws :: "session \<Rightarrow> int \<Rightarrow> bool" where
  "highlight_throws s lineNum =
     (case display_line s lineNum of
        None \<Rightarrow> False
      | Some line \<Rightarrow>
          searchTerm s \<noteq> [] \<and> includes_str line (searchTerm s)
          \<and> \<not> valid_regexp (disk s) (searchTerm s))"

text \<open>\<open>height\<close> is the value of \<open>visibleLines()\<close> at the call.\<close>

definition render :: "int \<Rightarrow> session \<Rightarrow> session outcome" where
  "render height s0 =
     (let s = s0\<lparr>scrollTop := scroll_into_view height (cursorRow s0) (scrollTop s0)\<rparr>
      in if list_ex (\<lambda>i. highlight_throws s (scrollTop s + i)) [0..height - 1]
         then Crashed SyntaxError
         else Running (screen_render (s\<lparr>cmdLine :=
                (if mode s = Command then CHR '':'' # commandBuffer s
                 else if searchTerm s \<noteq> [] then CHR ''/'' # searchTerm s
                 else [])\<rparr>)))"

subsection \<open>\<open>saveFile\<close> and \<open>executeCommand\<close>\<close>

definition saveFile :: "session \<Rightarrow> bool \<times> session" where
  "saveFile s =
     (if filename s = []
      then (False, screen_render (s\<lparr>cmdLine := ''{red-fg}No filename! Use :w filename{/red-fg}''\<rparr>))
      else
        (case writeFileSync (disk s) (filename s) (join (CHR 0x0A) (content s)) of
           Some d \<Rightarrow>
             (True, screen_render (s\<lparr>disk := d, modified := False,
                cmdLine := ''{green-fg}Saved: '' @ filename s @ ''{/green-fg}''\<rparr>))
         | None \<Rightarrow>
             (False, screen_render (s\<lparr>cmdLine := ''{red-fg}Error saving file{/red-fg}''\<rparr>))))"

text \<open>The three statements that follow the \<open>switch\<close> of \<open>executeCommand\<close>.\<close>

definition after_switch :: "int \<Rightarrow> session \<Rightarrow> session outcome" where
  "after_switch height s = render height (s\<lparr>mode := Normal, commandBuffer := []\<rparr>)"

definition executeCommand :: "int \<Rightarrow> string \<Rightarrow> session \<Rightarrow> session outcome" where
  "executeCommand height cmd s =
     (case split (CHR '' '') (trim cmd) of
        [] \<Rightarrow> after_switch height s
      | command # rest \<Rightarrow>
          let arg = join (CHR '' '') rest in
          if command = ''w'' then
            after_switch height (snd (saveFile (if arg \<noteq> [] then s\<lparr>filename := arg\<rparr> else s)))
          else if command = ''q'' then
            (if modified s
             then after_switch height (screen_render
                    (s\<lparr>cmdLine := ''{red-fg}Unsaved changes! Use :q! to force quit{/red-fg}''\<rparr>))
             else Exited (disk s))
          else if command = ''q!'' then Exited (disk s)
          else if command = ''wq'' then
            (case saveFile s of
               (True, s') \<Rightarrow> Exited (disk s')
             | (False, s') \<Rightarrow> after_switch height s')
          else if command = ''e'' then
            (if arg \<noteq> [] \<and> existsSync (disk s) arg
             then (case readFileSync (disk s) arg of
                     None \<Rightarrow> Crashed IOError
                   | Some text \<Rightarrow>
                       after_switch height (s\<lparr>filename := arg,
                         content := split (CHR 0x0A) text,
                         cursorRow := 0, cursorCol := 0, modified := False\<rparr>))
             else after_switch height s)
          else if command = ''new'' then
            after_switch height (s\<lparr>filename := arg, content := [[]],
              cursorRow := 0, cursorCol := 0, modified := False\<rparr>)
          else
            (case parseInt command of
               None \<Rightarrow> after_switch height s
             | Some lineNum \<Rightarrow>
                 after_switch height (s\<lparr>cursorRow :=
                     min (max 0 (lineNum - 1)) (int (length (content s)) - 1),
                   cursorCol := 0\<rparr>)))"

subsection \<open>\<open>findNext\<close>\<close>

text \<open>
  The first loop of \<open>findNext\<close> over the rows \<open>is\<close>, from the cursor row to the last one:
  the cursor row is searched from the column after the cursor, the others from their
  start. The result is the row and column of the first hit. Reading a row that does not
  exist gives \<open>undefined\<close>, and the call of \<open>indexOf\<close> on it throws.
\<close>

fun find_forward :: "string list \<Rightarrow> string \<Rightarrow> int \<Rightarrow> int \<Rightarrow> int list \<Rightarrow> error + (int \<times> int) option" where
  "find_forward lines t row col [] = Inr None"
| "find_forward lines t row col (i # is) =
     (case js_index lines i of
        None \<Rightarrow> Inl TypeError
      | Some line \<Rightarrow>
          let startCol = (if i = row then col + 1 else 0);
              idx = indexOf line t startCol
          in if idx \<noteq> - 1 then Inr (Some (i, idx)) else find_forward lines t row col is)"

text \<open>The second loop, from row 0 to the cursor row, each searched from its start.\<close>

fun find_wrapped :: "string list \<Rightarrow> string \<Rightarrow> int list \<Rightarrow> error + (int \<times> int) option" where
  "find_wrapped lines t [] = Inr None"
| "find_wrapped lines t (i # is) =
     (case js_index lines i of
        None \<Rightarrow> Inl TypeError
      | Some line \<Rightarrow>
          let idx = indexOf line t 0
          in if idx \<noteq> - 1 then Inr (Some (i, idx)) else find_wrapped lines t is)"

definition findNext :: "int \<Rightarrow> session \<Rightarrow> session outcome" where
  "findNext height s =
     (if searchTerm s = [] then Running s
      else
        (case find_forward (content s) (searchTerm s) (cursorRow s) (cursorCol s)
                [cursorRow s..int (length (content s)) - 1] of
           Inl e \<Rightarrow> Crashed e
         | Inr (Some (i, idx)) \<Rightarrow> render height (s\<lparr>cursorRow := i, cursorCol := idx\<rparr>)
         | Inr None \<Rightarrow>
             (case find_wrapped (content s) (searchTerm s) [0..cursorRow s] of
                Inl e \<Rightarrow> Crashed e
              | Inr (Some (i, idx)) \<Rightarrow> render height (s\<lparr>cursorRow := i, cursorCol := idx\<rparr>)
              | Inr None \<Rightarrow> Running s)))"

subsection \<open>The keypress handler\<close>

text \<open>The branch of the handler for the command mode.\<close>

definition command_mode_key :: "int \<Rightarrow> string option \<Rightarrow> key \<Rightarrow> session \<Rightarrow> session outcome" where
  "command_mode_key height ch k s =
     (if name k = Some ''enter'' then executeCommand height (commandBuffer s) s
      else if name k = Some ''escape'' then
        render height (s\<lparr>mode := Normal, commandBuffer := []\<rparr>)
      else if name k = Some ''backspace'' then
        render height (s\<lparr>commandBuffer := slice (commandBuffer s) 0 (- 1)\<rparr>)
      else (case ch of
              Some [c] \<Rightarrow> render height (s\<lparr>commandBuffer := commandBuffer s @ [c]\<rparr>)
            | _ \<Rightarrow> Running s))"

text \<open>
  The branch for the insert mode. A read of \<open>content[cursorRow]\<close> outside the buffer gives
  \<open>undefined\<close>: \<open>slice\<close> and \<open>length\<close> on it throw, and a string concatenation spells it out.
\<close>

definition insert_mode_key :: "int \<Rightarrow> string option \<Rightarrow> key \<Rightarrow> session \<Rightarrow> session outcome" where
  "insert_mode_key height ch k s =
     (if name k = Some ''escape'' then render height (s\<lparr>mode := Normal\<rparr>)
      else if name k = Some ''enter'' then
        (case js_index (content s) (cursorRow s) of
           None \<Rightarrow> Crashed TypeError
         | Some line \<Rightarrow>
             let beforeText = slice line 0 (cursorCol s);
                 after = slice_from line (cursorCol s)
             in render height (s\<lparr>content :=
                    splice_insert ((content s)[nat (cursorRow s) := beforeText]) (cursorRow s + 1) after,
                  cursorRow := cursorRow s + 1, cursorCol := 0, modified := True\<rparr>))
      else if name k = Some ''backspace'' then
        (if cursorCol s > 0 then
           (case js_index (content s) (cursorRow s) of
              None \<Rightarrow> Crashed TypeError
            | Some line \<Rightarrow>
                render height (s\<lparr>content := (content s)[nat (cursorRow s) :=
                      slice line 0 (cursorCol s - 1) @ slice_from line (cursorCol s)],
                    cursorCol := cursorCol s - 1, modified := True\<rparr>))
         else if cursorRow s > 0 then
           (case js_index (content s) (cursorRow s - 1) of
              None \<Rightarrow> Crashed TypeError
            | Some prevLine \<Rightarrow>
                let currLine = (case js_index (content s) (cursorRow s) of
                                  None \<Rightarrow> ''undefined'' | Some l \<Rightarrow> l)
                in render height (s\<lparr>cursorCol := int (length prevLine),
                     content := splice_remove
                       ((content s)[nat (cursorRow s - 1) := prevLine @ currLine]) (cursorRow s),
                     cursorRow := cursorRow s - 1, modified := True\<rparr>))
         else render height s)
      else (case ch of
              Some [c] \<Rightarrow>
                (case js_index (content s) (cursorRow s) of
                   None \<Rightarrow> Crashed TypeError
                 | Some line \<Rightarrow>
                     render height (s\<lparr>content := (content s)[nat (cursorRow s) :=
                           slice line 0 (cursorCol s) @ c # slice_from line (cursorCol s)],
                         cursorCol := cursorCol s + 1, modified := True\<rparr>))
            | _ \<Rightarrow> Running s))"

text \<open>The \<open>switch (key.name)\<close> of the normal mode.\<close>

definition normal_switch :: "int \<Rightarrow> key \<Rightarrow> session \<Rightarrow> session outcome" where
  "normal_switch height k s =
     (if name k = Some ''i'' then render height (s\<lparr>mode := Insert\<rparr>)
      else if name k = Some ''a'' then
        (case js_index (content s) (cursorRow s) of
           None \<Rightarrow> Crashed TypeError
         | Some line \<Rightarrow>
             render height (s\<lparr>mode := Insert,
               cursorCol := min (cursorCol s + 1) (int (length line))\<rparr>))
      else if name k = Some ''o'' then
        render height (s\<lparr>content := splice_insert (content s) (cursorRow s + 1) [],
          cursorRow := cursorRow s + 1, cursorCol := 0, mode := Insert, modified := True\<rparr>)
      else if name k = Some ''h'' \<or> name k = Some ''left'' then
        render height (s\<lparr>cursorCol := max 0 (cursorCol s - 1)\<rparr>)
      else if name k = Some ''l'' \<or> name k = Some ''right'' then
        (case js_index (content s) (cursorRow s) of
           None \<Rightarrow> Crashed TypeError
         | Some line \<Rightarrow>
             render height (s\<lparr>cursorCol := min (int (length line) - 1) (cursorCol s + 1)\<rparr>))
      else if name k = Some ''j'' \<or> name k = Some ''down'' then
        (let row = min (int (length (content s)) - 1) (cursorRow s + 1)
         in case js_index (content s) row of
              None \<Rightarrow> Crashed TypeError
            | Some line \<Rightarrow>
                render height (s\<lparr>cursorRow := row,
                  cursorCol := min (cursorCol s) (int (length line))\<rparr>))
      else if name k = Some ''k'' \<or> name k = Some ''up'' then
        (let row = max 0 (cursorRow s - 1)
         in case js_index (content s) row of
              None \<Rightarrow> Crashed TypeError
            | Some line \<Rightarrow>
                render height (s\<lparr>cursorRow := row,
                  cursorCol := min (cursorCol s) (int (length line))\<rparr>))
      else if name k = Some ''g'' then render height (s\<lparr>cursorRow := 0, cursorCol := 0\<rparr>)
      else if name k = Some ''escape'' then render height (s\<lparr>searchTerm := []\<rparr>)
      else if name k = Some ''n'' then findNext height s
      else if name k = Some ''d'' then
        (if length (content s) > 1 then
           (let lines = splice_remove (content s) (cursorRow s)
            in render height (s\<lparr>content := lines,
                 cursorRow := min (cursorRow s) (int (length lines) - 1), modified := True\<rparr>))
         else render height (s\<lparr>content := [[]], cursorCol := 0, modified := True\<rparr>))
      else Running s)"

text \<open>The three \<open>if\<close> statements after the \<open>switch\<close>: \<open>G\<close>, the colon and the slash. The
  slash opens a text box for the search term; the two events of the box follow below.\<close>

definition go_to_end :: "int \<Rightarrow> key \<Rightarrow> session \<Rightarrow> session outcome" where
  "go_to_end height k s =
     (if shift k \<and> name k = Some ''g''
      then render height (s\<lparr>cursorRow := int (length (content s)) - 1, cursorCol := 0\<rparr>)
      else Running s)"

definition colon :: "int \<Rightarrow> string option \<Rightarrow> session \<Rightarrow> session outcome" where
  "colon height ch s =
     (if ch = Some '':'' then render height (s\<lparr>mode := Command, commandBuffer := []\<rparr>)
      else Running s)"

definition slash :: "string option \<Rightarrow> session \<Rightarrow> session outcome" where
  "slash ch s =
     (if ch = Some ''/''
      then Running (screen_render (s\<lparr>mode := Command, commandBuffer := [], cmdLine := ''/''\<rparr>))
      else Running s)"

definition normal_mode_key :: "int \<Rightarrow> string option \<Rightarrow> key \<Rightarrow> session \<Rightarrow> session outcome" where
  "normal_mode_key height ch k s =
     (if ctrl k \<and> name k = Some ''c'' then Exited (disk s)
      else if ctrl k \<and> name k = Some ''s'' then Running (snd (saveFile s))
      else and_then (and_then (and_then (normal_switch height k s)
             (go_to_end height k)) (colon height ch)) (slash ch))"

definition keypress :: "int \<Rightarrow> string option \<Rightarrow> key option \<Rightarrow> session \<Rightarrow> session outcome" where
  "keypress height ch key s =
     (case key of
        None \<Rightarrow> Running s
      | Some k \<Rightarrow>
          if mode s = Command then command_mode_key height ch k s
          else if mode s = Insert then insert_mode_key height ch k s
          else normal_mode_key height ch k s)"

subsection \<open>The search box, the events and the start of the editor\<close>

definition search_submit :: "int \<Rightarrow> string \<Rightarrow> session \<Rightarrow> session outcome" where
  "search_submit height v s = findNext height (s\<lparr>searchTerm := v, mode := Normal\<rparr>)"

definition search_cancel :: "int \<Rightarrow> session \<Rightarrow> session outcome" where
  "search_cancel height s = render height (s\<lparr>mode := Normal\<rparr>)"

datatype event = KeyPress "string option" "key option" | SearchSubmit string | SearchCancel

fun handle :: "int \<Rightarrow> event \<Rightarrow> session \<Rightarrow> session outcome" where
  "handle height (KeyPress ch key) s = keypress height ch key s"
| "handle height (SearchSubmit v) s = search_submit height v s"
| "handle height SearchCancel s = search_cancel height s"

text \<open>A run of the editor: each event comes with the value of \<open>visibleLines()\<close> at its
  time, since the terminal may be resized between two events.\<close>

fun run :: "(int \<times> event) list \<Rightarrow> session \<Rightarrow> session outcome" where
  "run [] s = Running s"
| "run ((height, ev) # evs) s = and_then (handle height ev s) (run evs)"

text \<open>\<open>editorCommand(options)\<close> up to its first \<open>render()\<close>; \<open>file\<close> is \<open>options.file\<close>.\<close>

definition editorCommand :: "string option \<Rightarrow> world \<Rightarrow> int \<Rightarrow> session outcome" where
  "editorCommand file w height =
     (let path = (case file of None \<Rightarrow> [] | Some f \<Rightarrow> f);
          loaded =
            (if path \<noteq> [] \<and> existsSync w path
             then (case readFileSync w path of
                     Some text \<Rightarrow>
                       (let ls = split (CHR 0x0A) text in if length ls = 0 then [[]] else ls)
                   | None \<Rightarrow> [''// Error loading file''])
             else [[]])
      in render height \<lparr>content = loaded, cursorRow = 0, cursorCol = 0, scrollTop = 0,
           mode = Normal, filename = path, modified = False, searchTerm = [],
           commandBuffer = [], cmdLine = [], shown = [], disk = w\<rparr>)"

section \<open>The overlay editor of \<open>vim-chat.ts\<close>\<close>

text \<open>
  The editor that \<open>Ctrl+E\<close> opens over the chat keeps the same state in local variables:
  \<open>editorContent\<close>, \<open>editorFilename\<close> and \<open>editorMode\<close> are the fields \<open>content\<close>,
  \<open>filename\<close> and \<open>mode\<close> here, its command line box \<open>editorCmd\<close> is \<open>cmdLine\<close>, and it has no
  search, so \<open>searchTerm\<close> is never read. Besides them it has the flags below;
  \<open>activeFileList\<close> and \<open>activeWorkspaceBox\<close> say whether the variable of that name holds a
  box, and \<open>popups\<close> lists the boxes that the editor has appended to the screen.
  The listeners that those boxes register for their own keys are not part of the
  editor's key handler and are not modelled.
\<close>

datatype popup = SaveDialog | ConfirmBox | FileList

record overlay = session +
  editorOpen :: bool
  dialogOpen :: bool
  fileBrowserOpen :: bool
  activeFileList :: bool
  workspaceOpen :: bool
  wsFocused :: bool
  activeWorkspaceBox :: bool
  popups :: "popup list"

text \<open>\<open>height\<close> is the value of this editor's \<open>visibleLines()\<close>. Nothing in the display loop
  of \<open>renderEditor\<close> can throw.\<close>

definition renderEditor :: "int \<Rightarrow> overlay \<Rightarrow> overlay" where
  "renderEditor height s =
     screen_render (s\<lparr>scrollTop := scroll_into_view height (cursorRow s) (scrollTop s),
       cmdLine := (if mode s = Command then CHR '':'' # commandBuffer s else [])\<rparr>)"

definition promptForFilename :: "overlay \<Rightarrow> overlay" where
  "promptForFilename s = screen_render (s\<lparr>dialogOpen := True, popups := popups s @ [SaveDialog]\<rparr>)"

definition saveEditorFile :: "string option \<Rightarrow> int \<Rightarrow> overlay \<Rightarrow> bool \<times> overlay" where
  "saveEditorFile newFilename height s0 =
     (let s = (case newFilename of
                 None \<Rightarrow> s0
               | Some n \<Rightarrow> if n \<noteq> [] then s0\<lparr>filename := n\<rparr> else s0)
      in if filename s = [] then (False, promptForFilename s)
         else
           (case writeFileSync (disk s) (filename s) (join (CHR 0x0A) (content s)) of
              Some d \<Rightarrow>
                (True, renderEditor height (s\<lparr>disk := d, modified := False,
                   cmdLine := ''{green-fg}Saved: '' @ filename s @ ''{/green-fg}''\<rparr>))
            | None \<Rightarrow>
                (False, screen_render (s\<lparr>cmdLine := ''{red-fg}Error saving{/red-fg}''\<rparr>))))"

text \<open>\<open>closeEditor\<close> draws the screen twice at its end: \<open>updateStatus()\<close> of the chat
  calls \<open>screen.render()\<close>, and \<open>closeEditor\<close> calls it again.\<close>

definition closeEditor :: "overlay \<Rightarrow> overlay" where
  "closeEditor s =
     (if \<not> editorOpen s then s
      else
        let s1 = (if workspaceOpen s \<and> activeWorkspaceBox s
                  then s\<lparr>workspaceOpen := False, activeWorkspaceBox := False\<rparr> else s);
            s2 = (if fileBrowserOpen s1 \<and> activeFileList s1
                  then s1\<lparr>popups := remove1 FileList (popups s1),
                         fileBrowserOpen := False, activeFileList := False\<rparr>
                  else s1)
        in screen_render (screen_render (s2\<lparr>editorOpen := False\<rparr>)))"

text \<open>The constant \<open>hasContent\<close> of \<open>tryCloseEditor\<close>: more than one line, or one line
  that is not blank.\<close>

definition hasContent :: "'a EditorState_scheme \<Rightarrow> bool" where
  "hasContent s =
     (length (content s) > 1 \<or> (case content s of [l] \<Rightarrow> trim l \<noteq> [] | _ \<Rightarrow> False))"

definition tryCloseEditor :: "overlay \<Rightarrow> overlay" where
  "tryCloseEditor s =
     (if \<not> editorOpen s \<or> dialogOpen s then s
      else if modified s \<and> hasContent s
      then screen_render (s\<lparr>dialogOpen := True, popups := popups s @ [ConfirmBox]\<rparr>)
      else closeEditor s)"

definition executeEditorCommand :: "int \<Rightarrow> string \<Rightarrow> overlay \<Rightarrow> overlay outcome" where
  "executeEditorCommand height cmd s =
     (let finish = (\<lambda>t. Running (renderEditor height (t\<lparr>mode := Normal, commandBuffer := []\<rparr>)))
      in case split (CHR '' '') (trim cmd) of
           [] \<Rightarrow> finish s
         | command # rest \<Rightarrow>
             let arg = join (CHR '' '') rest in
             if command = ''w'' then
               finish (snd (saveEditorFile None height (if arg \<noteq> [] then s\<lparr>filename := arg\<rparr> else s)))
             else if command = ''q'' then finish (tryCloseEditor s)
             else if command = ''q!'' then finish (closeEditor s)
             else if command = ''wq'' then
               (case saveEditorFile None height s of
                  (True, s') \<Rightarrow> finish (closeEditor s')
                | (False, s') \<Rightarrow> finish s')
             else if command = ''e'' then
               (if arg \<noteq> [] \<and> existsSync (disk s) arg
                then (case readFileSync (disk s) arg of
                        None \<Rightarrow> Crashed IOError
                      | Some text \<Rightarrow>
                          finish (s\<lparr>filename := arg, content := split (CHR 0x0A) text,
                            cursorRow := 0, cursorCol := 0, modified := False\<rparr>))
                else finish s)
             else if command = ''new'' then
               finish (s\<lparr>filename := arg, content := [[]],
                 cursorRow := 0, cursorCol := 0, modified := False\<rparr>)
             else
               (case parseInt command of
                  None \<Rightarrow> finish s
                | Some lineNum \<Rightarrow>
                    finish (s\<lparr>cursorRow :=
                        min (max 0 (lineNum - 1)) (int (length (content s)) - 1),
                      cursorCol := 0\<rparr>)))"

text \<open>The key handler of the overlay editor, branch by branch.\<close>

definition overlay_command_key :: "int \<Rightarrow> string option \<Rightarrow> key \<Rightarrow> overlay \<Rightarrow> overlay outcome" where
  "overlay_command_key height ch k s =
     (if name k = Some ''enter'' then executeEditorCommand height (commandBuffer s) s
      else if name k = Some ''escape'' then
        Running (renderEditor height (s\<lparr>mode := Normal, commandBuffer := []\<rparr>))
      else if name k = Some ''backspace'' then
        Running (renderEditor height (s\<lparr>commandBuffer := slice (commandBuffer s) 0 (- 1)\<rparr>))
      else (case ch of
              Some [c] \<Rightarrow> Running (renderEditor height (s\<lparr>commandBuffer := commandBuffer s @ [c]\<rparr>))
            | _ \<Rightarrow> Running s))"

definition overlay_insert_key :: "int \<Rightarrow> string option \<Rightarrow> key \<Rightarrow> overlay \<Rightarrow> overlay outcome" where
  "overlay_insert_key height ch k s =
     (if name k = Some ''escape'' then Running (renderEditor height (s\<lparr>mode := Normal\<rparr>))
      else if name k = Some ''enter'' then
        (case js_index (content s) (cursorRow s) of
           None \<Rightarrow> Crashed TypeError
         | Some line \<Rightarrow>
             Running (renderEditor height (s\<lparr>content :=
                 splice_insert ((content s)[nat (cursorRow s) := slice line 0 (cursorCol s)])
                   (cursorRow s + 1) (slice_from line (cursorCol s)),
               cursorRow := cursorRow s + 1, cursorCol := 0, modified := True\<rparr>)))
      else if name k = Some ''up'' \<and> (\<not> workspaceOpen s \<or> \<not> wsFocused s) then
        (if cursorRow s > 0 then
           (case js_index (content s) (cursorRow s - 1) of
              None \<Rightarrow> Crashed TypeError
            | Some line \<Rightarrow>
                Running (renderEditor height (s\<lparr>cursorRow := cursorRow s - 1,
                  cursorCol := min (cursorCol s) (int (length line))\<rparr>)))
         else Running (renderEditor height s))
      else if name k = Some ''down'' \<and> (\<not> workspaceOpen s \<or> \<not> wsFocused s) then
        (if cursorRow s < int (length (content s)) - 1 then
           (case js_index (content s) (cursorRow s + 1) of
              None \<Rightarrow> Crashed TypeError
            | Some line \<Rightarrow>
                Running (renderEditor height (s\<lparr>cursorRow := cursorRow s + 1,
                  cursorCol := min (cursorCol s) (int (length line))\<rparr>)))
         else Running (renderEditor height s))
      else if name k = Some ''left'' then
        (if cursorCol s > 0 then Running (renderEditor height (s\<lparr>cursorCol := cursorCol s - 1\<rparr>))
         else if cursorRow s > 0 then
           (case js_index (content s) (cursorRow s - 1) of
              None \<Rightarrow> Crashed TypeError
            | Some line \<Rightarrow>
                Running (renderEditor height (s\<lparr>cursorRow := cursorRow s - 1,
                  cursorCol := int (length line)\<rparr>)))
         else Running (renderEditor height s))
      else if name k = Some ''right'' then
        Running (renderEditor height (s\<lparr>cursorCol := cursorCol s + 1\<rparr>))
      else if name k = Some ''end'' then
        (case js_index (content s) (cursorRow s) of
           None \<Rightarrow> Crashed TypeError
         | Some line \<Rightarrow> Running (renderEditor height (s\<lparr>cursorCol := int (length line)\<rparr>)))
      else if name k = Some ''home'' then Running (renderEditor height (s\<lparr>cursorCol := 0\<rparr>))
      else if name k = Some ''backspace'' then
        (if cursorCol s > 0 then
           (case js_index (content s) (cursorRow s) of
              None \<Rightarrow> Crashed TypeError
            | Some line \<Rightarrow>
                Running (renderEditor height (s\<lparr>content := (content s)[nat (cursorRow s) :=
                      slice line 0 (cursorCol s - 1) @ slice_from line (cursorCol s)],
                    cursorCol := cursorCol s - 1, modified := True\<rparr>)))
         else if cursorRow s > 0 then
           (case js_index (content s) (cursorRow s - 1) of
              None \<Rightarrow> Crashed TypeError
            | Some prevLine \<Rightarrow>
                let currLine = (case js_index (content s) (cursorRow s) of
                                  None \<Rightarrow> ''undefined'' | Some l \<Rightarrow> l)
                in Running (renderEditor height (s\<lparr>cursorCol := int (length prevLine),
                     content := splice_remove
                       ((content s)[nat (cursorRow s - 1) := prevLine @ currLine]) (cursorRow s),
                     cursorRow := cursorRow s - 1, modified := True\<rparr>)))
         else Running (renderEditor height s))
      else (case ch of
              Some [c] \<Rightarrow>
                (if c \<noteq> CHR 0x0D \<and> c \<noteq> CHR 0x0A then
                   (case js_index (content s) (cursorRow s) of
                      None \<Rightarrow> Crashed TypeError
                    | Some line \<Rightarrow>
                        Running (renderEditor height (s\<lparr>content := (content s)[nat (cursorRow s) :=
                              slice line 0 (cursorCol s) @ c # slice_from line (cursorCol s)],
                            cursorCol := cursorCol s + 1, modified := True\<rparr>)))
                 else Running s)
            | _ \<Rightarrow> Running s))"

text \<open>\<open>showFileBrowser()\<close> as far as the editor's own state goes: the list of the working
  directory is read, and the file list opens when that succeeds.\<close>

definition showFileBrowser :: "overlay \<Rightarrow> overlay" where
  "showFileBrowser s =
     (if cwd_listable (disk s)
      then screen_render (s\<lparr>popups := popups s @ [FileList],
             fileBrowserOpen := True, activeFileList := True\<rparr>)
      else screen_render (s\<lparr>cmdLine := ''{red-fg}Error reading directory{/red-fg}''\<rparr>))"

definition overlay_normal_switch :: "int \<Rightarrow> key \<Rightarrow> overlay \<Rightarrow> overlay outcome" where
  "overlay_normal_switch height k s =
     (if name k = Some ''escape'' \<or> name k = Some ''q'' then Running (tryCloseEditor s)
      else if name k = Some ''i'' then Running (renderEditor height (s\<lparr>mode := Insert\<rparr>))
      else if name k = Some ''a'' then
        (case js_index (content s) (cursorRow s) of
           None \<Rightarrow> Crashed TypeError
         | Some line \<Rightarrow>
             Running (renderEditor height (s\<lparr>mode := Insert,
               cursorCol := min (cursorCol s + 1) (int (length line))\<rparr>)))
      else if name k = Some ''o'' then
        (if \<not> ctrl k then
           Running (renderEditor height (s\<lparr>content := splice_insert (content s) (cursorRow s + 1) [],
             cursorRow := cursorRow s + 1, cursorCol := 0, mode := Insert, modified := True\<rparr>))
         else Running s)
      else if name k = Some ''h'' \<or> name k = Some ''left'' then
        Running (renderEditor height (s\<lparr>cursorCol := max 0 (cursorCol s - 1)\<rparr>))
      else if name k = Some ''l'' \<or> name k = Some ''right'' then
        (case js_index (content s) (cursorRow s) of
           None \<Rightarrow> Crashed TypeError
         | Some line \<Rightarrow>
             Running (renderEditor height
               (s\<lparr>cursorCol := min (int (length line) - 1) (cursorCol s + 1)\<rparr>)))
      else if name k = Some ''j'' \<or> name k = Some ''down'' then
        (if \<not> workspaceOpen s then
           (let row = min (int (length (content s)) - 1) (cursorRow s + 1)
            in case js_index (content s) row of
                 None \<Rightarrow> Crashed TypeError
               | Some line \<Rightarrow>
                   Running (renderEditor height (s\<lparr>cursorRow := row,
                     cursorCol := min (cursorCol s) (int (length line))\<rparr>)))
         else Running s)
      else if name k = Some ''k'' \<or> name k = Some ''up'' then
        (if \<not> workspaceOpen s then
           (let row = max 0 (cursorRow s - 1)
            in case js_index (content s) row of
                 None \<Rightarrow> Crashed TypeError
               | Some line \<Rightarrow>
                   Running (renderEditor height (s\<lparr>cursorRow := row,
                     cursorCol := min (cursorCol s) (int (length line))\<rparr>)))
         else Running s)
      else if name k = Some ''g'' then
        Running (renderEditor height (s\<lparr>cursorRow := 0, cursorCol := 0\<rparr>))
      else if name k = Some ''d'' then
        (if length (content s) > 1 then
           (let lines = splice_remove (content s) (cursorRow s)
            in Running (renderEditor height (s\<lparr>content := lines,
                 cursorRow := min (cursorRow s) (int (length lines) - 1), modified := True\<rparr>)))
         else Running (renderEditor height (s\<lparr>content := [[]], cursorCol := 0, modified := True\<rparr>)))
      else Running s)"

definition overlay_go_to_end :: "int \<Rightarrow> key \<Rightarrow> overlay \<Rightarrow> overlay outcome" where
  "overlay_go_to_end height k s =
     (if shift k \<and> name k = Some ''g''
      then Running (renderEditor height
             (s\<lparr>cursorRow := int (length (content s)) - 1, cursorCol := 0\<rparr>))
      else Running s)"

definition overlay_colon :: "int \<Rightarrow> string option \<Rightarrow> overlay \<Rightarrow> overlay outcome" where
  "overlay_colon height ch s =
     (if ch = Some '':''
      then Running (renderEditor height (s\<lparr>mode := Command, commandBuffer := []\<rparr>))
      else Running s)"

definition editorKeyHandler :: "int \<Rightarrow> string option \<Rightarrow> key option \<Rightarrow> overlay \<Rightarrow> overlay outcome" where
  "editorKeyHandler height ch key s =
     (case key of
        None \<Rightarrow> Running s
      | Some k \<Rightarrow>
          if \<not> editorOpen s \<or> dialogOpen s then Running s
          else if fileBrowserOpen s then Running s
          else if workspaceOpen s \<and> wsFocused s \<and> \<not> (ctrl k \<and> name k = Some ''o'') then Running s
          else if mode s = Command then overlay_command_key height ch k s
          else if mode s = Insert then overlay_insert_key height ch k s
          else if ctrl k \<and> name k = Some ''s'' then Running (snd (saveEditorFile None height s))
          else if ctrl k \<and> name k = Some ''f'' then Running (showFileBrowser s)
          else and_then (and_then (overlay_normal_switch height k s)
                 (overlay_go_to_end height k)) (overlay_colon height ch))"

section \<open>The editor panel of the split chat (\<open>splitChatCommand\<close>)\<close>

text \<open>
  The split chat keeps the editor state in local variables of the same names as the
  overlay editor, and \<open>activePanel\<close> says which panel has the keys. Modelled here are its
  \<open>renderEditor\<close> and what its second keypress handler does when \<open>editorMode\<close> is
  \<open>'normal'\<close>: the block for the insert mode is then skipped.
\<close>

datatype panel = Chat | Editor

record split_editor = EditorState +
  activePanel :: panel

text \<open>\<open>boxHeight\<close> is \<open>editorBox.height - 2\<close>. The two tests are two separate \<open>if\<close>
  statements here.\<close>

definition split_renderEditor :: "int \<Rightarrow> split_editor \<Rightarrow> split_editor" where
  "split_renderEditor boxHeight s =
     (let s1 = (if cursorRow s < scrollTop s then s\<lparr>scrollTop := cursorRow s\<rparr> else s)
      in if cursorRow s1 \<ge> scrollTop s1 + boxHeight
         then s1\<lparr>scrollTop := cursorRow s1 - boxHeight + 1\<rparr>
         else s1)"

text \<open>\<open>/\w/.test(line[pos])\<close>: a letter, a digit or the underscore. Outside the line
  \<open>line[pos]\<close> is \<open>undefined\<close>, which the test reads as the word \<open>undefined\<close>.\<close>

definition word_char :: "char \<Rightarrow> bool" where
  "word_char c =
     (let n = of_char c :: nat
      in (48 \<le> n \<and> n \<le> 57) \<or> (65 \<le> n \<and> n \<le> 90) \<or> (97 \<le> n \<and> n \<le> 122) \<or> n = 95)"

definition word_test :: "string \<Rightarrow> int \<Rightarrow> bool" where
  "word_test line pos = (case js_index line pos of None \<Rightarrow> True | Some c \<Rightarrow> word_char c)"

text \<open>The two loops of \<open>w\<close>: \<open>while (pos < line.length && test) pos++\<close>, where the test
  is \<open>/\w/.test(line[pos])\<close> in the first loop and its negation in the second.\<close>

function forward_while :: "bool \<Rightarrow> string \<Rightarrow> int \<Rightarrow> int" where
  "forward_while want line pos =
     (if pos < int (length line) \<and> word_test line pos = want
      then forward_while want line (pos + 1) else pos)"
  by pat_completeness auto
termination
  by (relation "measure (\<lambda>(want, line, pos). nat (int (length line) - pos))") auto

text \<open>The two loops of \<open>b\<close>: \<open>while (pos > 0 && !/\w/.test(line[pos])) pos--\<close> and
  \<open>while (pos > 0 && /\w/.test(line[pos - 1])) pos--\<close>. They read the line only when
  \<open>pos > 0\<close>, so on a row outside the buffer \<open>b\<close> throws only then.\<close>

function back_over_gap :: "string \<Rightarrow> int \<Rightarrow> int" where
  "back_over_gap line pos =
     (if pos > 0 \<and> \<not> word_test line pos then back_over_gap line (pos - 1) else pos)"
  by pat_completeness auto
termination
  by (relation "measure (\<lambda>(line, pos). nat pos)") auto

function back_over_word :: "string \<Rightarrow> int \<Rightarrow> int" where
  "back_over_word line pos =
     (if pos > 0 \<and> word_test line (pos - 1) then back_over_word line (pos - 1) else pos)"
  by pat_completeness auto
termination
  by (relation "measure (\<lambda>(line, pos). nat pos)") auto

definition split_normal_key :: "int \<Rightarrow> string option \<Rightarrow> key option \<Rightarrow> split_editor \<Rightarrow> split_editor outcome" where
  "split_normal_key boxHeight ch key s =
     (case key of
        None \<Rightarrow> Running s
      | Some k \<Rightarrow>
          if activePanel s \<noteq> Editor then Running s
          else if name k = Some ''a'' then
            (case js_index (content s) (cursorRow s) of
               None \<Rightarrow> Crashed TypeError
             | Some line \<Rightarrow>
                 Running (split_renderEditor boxHeight (s\<lparr>mode := Insert,
                   cursorCol := (if length line > 0 then cursorCol s + 1 else cursorCol s)\<rparr>)))
          else if ch = Some ''o'' then
            Running (split_renderEditor boxHeight
              (s\<lparr>content := splice_insert (content s) (cursorRow s + 1) [],
                 cursorRow := cursorRow s + 1, cursorCol := 0, mode := Insert, modified := True\<rparr>))
          else if ch = Some ''O'' then
            Running (split_renderEditor boxHeight
              (s\<lparr>content := splice_insert (content s) (cursorRow s) [],
                 cursorCol := 0, mode := Insert, modified := True\<rparr>))
          else if ch = Some ''x'' then
            (case js_index (content s) (cursorRow s) of
               None \<Rightarrow> Crashed TypeError
             | Some line \<Rightarrow>
                 if length line > 0 \<and> cursorCol s < int (length line) then
                   (let shorter = slice line 0 (cursorCol s) @ slice_from line (cursorCol s + 1)
                    in Running (split_renderEditor boxHeight
                         (s\<lparr>content := (content s)[nat (cursorRow s) := shorter],
                            cursorCol := (if cursorCol s \<ge> int (length shorter) \<and> cursorCol s > 0
                                          then cursorCol s - 1 else cursorCol s),
                            modified := True\<rparr>)))
                 else Running s)
          else if ch = Some ''d'' \<and> name k = Some ''d'' then Running s
          else if ch = Some ''G'' then
            Running (split_renderEditor boxHeight
              (s\<lparr>cursorRow := int (length (content s)) - 1, cursorCol := 0\<rparr>))
          else if ch = Some ''g'' then
            Running (split_renderEditor boxHeight (s\<lparr>cursorRow := 0, cursorCol := 0\<rparr>))
          else if ch = Some ''0'' then
            Running (split_renderEditor boxHeight (s\<lparr>cursorCol := 0\<rparr>))
          else if ch = Some ''$'' then
            (case js_index (content s) (cursorRow s) of
               None \<Rightarrow> Crashed TypeError
             | Some line \<Rightarrow>
                 Running (split_renderEditor boxHeight (s\<lparr>cursorCol := int (length line)\<rparr>)))
          else if ch = Some ''w'' then
            (case js_index (content s) (cursorRow s) of
               None \<Rightarrow> Crashed TypeError
             | Some line \<Rightarrow>
                 Running (split_renderEditor boxHeight (s\<lparr>cursorCol :=
                   forward_while False line (forward_while True line (cursorCol s))\<rparr>)))
          else if ch = Some ''b'' then
            (let pos = (if cursorCol s > 0 then cursorCol s - 1 else cursorCol s)
             in case js_index (content s) (cursorRow s) of
                  None \<Rightarrow>
                    if pos > 0 then Crashed TypeError
                    else Running (split_renderEditor boxHeight (s\<lparr>cursorCol := pos\<rparr>))
                | Some line \<Rightarrow>
                    Running (split_renderEditor boxHeight (s\<lparr>cursorCol :=
                      back_over_word line (back_over_gap line pos)\<rparr>)))
          else Running s)"

text \<open>The overlay editor as \<open>Ctrl+E\<close> opens it when no workspace panel has been opened,
  after its first \<open>renderEditor()\<close>, and a run of key events through its handler.\<close>

definition ctrl_e :: "world \<Rightarrow> int \<Rightarrow> overlay" where
  "ctrl_e w height =
     renderEditor height \<lparr>content = [[]], cursorRow = 0, cursorCol = 0, scrollTop = 0,
       mode = Normal, filename = [], modified = False, searchTerm = [], commandBuffer = [],
       cmdLine = [], shown = [], disk = w,
       editorOpen = True, dialogOpen = False, fileBrowserOpen = False, activeFileList = False,
       workspaceOpen = False, wsFocused = True, activeWorkspaceBox = False, popups = []\<rparr>"

fun overlay_run :: "(int \<times> string option \<times> key option) list \<Rightarrow> overlay \<Rightarrow> overlay outcome" where
  "overlay_run [] s = Running s"
| "overlay_run ((height, ch, key) # evs) s =
     and_then (editorKeyHandler height ch key s) (overlay_run evs)"

section \<open>Properties\<close>

subsection \<open>Predicates of the statements\<close>

text \<open>The search term, if there is one, is a pattern that \<open>new RegExp\<close> accepts: then
  \<open>render\<close> does not throw.\<close>

definition regexp_safe :: "session \<Rightarrow> bool" where
  "regexp_safe s = (searchTerm s = [] \<or> valid_regexp (disk s) (searchTerm s))"



text \<open>The cursor row is one of the \<open>height\<close> visible rows.\<close>

definition viewport_ok :: "int \<Rightarrow> 'a EditorState_scheme \<Rightarrow> bool" where
  "viewport_ok height s = (scrollTop s \<le> cursorRow s \<and> cursorRow s \<le> scrollTop s + height - 1)"

text \<open>\<open>holds_after P r\<close>: the handler returned and \<open>P\<close> holds of the state it left.\<close>

definition holds_after :: "('a \<Rightarrow> bool) \<Rightarrow> 'a outcome \<Rightarrow> bool" where
  "holds_after P r = (case r of Running s \<Rightarrow> P s | _ \<Rightarrow> False)"

text \<open>A file system for the examples: no files, every write succeeds, every pattern is
  valid. And a key event with a name and no modifier, whose character is the name when
  the name is a single character.\<close>

definition empty_disk :: world where
  "empty_disk = \<lparr>files = (\<lambda>p. None), writable = (\<lambda>p. True), valid_regexp = (\<lambda>t. True),
     cwd_listable = True\<rparr>"

definition plain :: "string \<Rightarrow> key" where
  "plain n = \<lparr>name = Some n, ctrl = False, shift = False, meta = False\<rparr>"

definition press :: "string \<Rightarrow> event" where
  "press n = KeyPress (if length n = 1 then Some n else None) (Some (plain n))"

text \<open>A session with two lines, not yet saved, for the examples.\<close>

definition two_lines :: session where
  "two_lines = \<lparr>content = [''ab'', ''cd''], cursorRow = 0, cursorCol = 0, scrollTop = 0,
     mode = Command, filename = [], modified = True, searchTerm = [], commandBuffer = ''w f'',
     cmdLine = '':w f'', shown = [], disk = empty_disk\<rparr>"

text \<open>
  One press of Enter reaches a keypress handler as two events. The terminal sends a
  carriage return, which blessed names \<open>return\<close>; before it passes that event on, blessed
  emits a copy of it under the name \<open>enter\<close>. So the handler runs first for \<open>enter\<close> and
  then for \<open>return\<close>, both times with the carriage return as \<open>ch\<close>. \<open>enter_key\<close> is the
  first of the two events and \<open>return_key\<close> the second. The Escape key and the colon are
  one event each; the colon comes with a key that has no name.
\<close>

definition enter_key :: event where
  "enter_key = KeyPress (Some [CHR 0x0D]) (Some (plain ''enter''))"

definition return_key :: event where
  "return_key = KeyPress (Some [CHR 0x0D]) (Some (plain ''return''))"

definition escape_key :: event where
  "escape_key = KeyPress (Some [CHR 0x1B]) (Some (plain ''escape''))"

definition colon_key :: event where
  "colon_key = KeyPress (Some '':'') (Some \<lparr>name = None, ctrl = False, shift = False, meta = False\<rparr>)"

text \<open>\<open>fails_after P r\<close>: the handler returned and \<open>P\<close> does not hold of the state it left.\<close>

definition fails_after :: "('a \<Rightarrow> bool) \<Rightarrow> 'a outcome \<Rightarrow> bool" where
  "fails_after P r = (case r of Running s \<Rightarrow> \<not> P s | _ \<Rightarrow> False)"


text \<open>The guards at the head of the overlay editor's key handler: the key is ignored.\<close>

definition overlay_blocked :: "key \<Rightarrow> overlay \<Rightarrow> bool" where
  "overlay_blocked k t = (\<not> editorOpen t \<or> dialogOpen t \<or> fileBrowserOpen t
     \<or> (workspaceOpen t \<and> wsFocused t \<and> \<not> (ctrl k \<and> name k = Some ''o'')))"

text \<open>States of the examples: the standalone editor as it starts with no file, the same
  after \<open>d\<close>, and after \<open>o\<close>, Enter, Escape, \<open>d\<close> in a window of two rows (the second event
  of Enter has put a carriage return on the line that \<open>d\<close> deletes, and the column is
  still 1); the overlay editor as it opens in a window of five rows.\<close>

definition fresh :: session where
  "fresh = \<lparr>content = [[]], cursorRow = 0, cursorCol = 0, scrollTop = 0,
     mode = Normal, filename = [], modified = False, searchTerm = [], commandBuffer = [],
     cmdLine = [], shown = [[]], disk = empty_disk\<rparr>"

definition one_line_deleted :: session where
  "one_line_deleted = \<lparr>content = [[]], cursorRow = 0, cursorCol = 0, scrollTop = 0,
     mode = Normal, filename = [], modified = True, searchTerm = [], commandBuffer = [],
     cmdLine = [], shown = [[], []], disk = empty_disk\<rparr>"

definition three_down :: session where
  "three_down = \<lparr>content = [[], []], cursorRow = 1, cursorCol = 1, scrollTop = 1,
     mode = Normal, filename = [], modified = True, searchTerm = [], commandBuffer = [],
     cmdLine = [], shown = [[], [], [], [], [], []], disk = empty_disk\<rparr>"

definition overlay_fresh :: overlay where
  "overlay_fresh = ctrl_e empty_disk 5"

text \<open>
  The search of \<open>n\<close> as the specification words it. \<open>occurs_at t l k\<close>: the term \<open>t\<close> stands in
  the line \<open>l\<close> at column \<open>k\<close>. \<open>first_occurrence t l start\<close>: the first such column from
  \<open>start\<close> on. \<open>first_row_with t ls rows\<close>: the first row among \<open>rows\<close>, in their order,
  whose line contains \<open>t\<close>, with the first column where it stands. \<open>spec_next_match\<close>: the
  current line from the column after the cursor, then the lines after it in order, then
  the lines from 0 up to and including the cursor line.
\<close>

definition occurs_at :: "string \<Rightarrow> string \<Rightarrow> nat \<Rightarrow> bool" where
  "occurs_at t l k = (k + length t \<le> length l \<and> take (length t) (drop k l) = t)"

definition first_occurrence :: "string \<Rightarrow> string \<Rightarrow> nat \<Rightarrow> nat option" where
  "first_occurrence t l start = List.find (occurs_at t l) [start..<Suc (length l)]"

fun first_row_with :: "string \<Rightarrow> string list \<Rightarrow> nat list \<Rightarrow> (nat \<times> nat) option" where
  "first_row_with t ls [] = None"
| "first_row_with t ls (i # is) =
     (case first_occurrence t (ls ! i) 0 of
        Some k \<Rightarrow> Some (i, k)
      | None \<Rightarrow> first_row_with t ls is)"

definition spec_next_match :: "string list \<Rightarrow> string \<Rightarrow> nat \<Rightarrow> int \<Rightarrow> (nat \<times> nat) option" where
  "spec_next_match ls t row col =
     (case first_occurrence t (ls ! row) (nat (col + 1)) of
        Some k \<Rightarrow> Some (row, k)
      | None \<Rightarrow>
          (case first_row_with t ls [Suc row..<length ls] of
             Some m \<Rightarrow> Some m
           | None \<Rightarrow> first_row_with t ls [0..<Suc row]))"

text \<open>The example of the specification: the cursor on the last of three lines.\<close>

definition foo_bar_foo :: session where
  "foo_bar_foo = \<lparr>content = [''foo'', ''bar'', ''foo''], cursorRow = 2, cursorCol = 0,
     scrollTop = 0, mode = Normal, filename = [], modified = False, searchTerm = ''foo'',
     commandBuffer = [], cmdLine = ''/foo'', shown = [], disk = empty_disk\<rparr>"

text \<open>The cursor row is a row of the buffer and the column is within the bound of the
  insert mode, \<open>0 \<le> col \<le> lines[row].length\<close>.\<close>

definition col_in_line :: "'a EditorState_scheme \<Rightarrow> bool" where
  "col_in_line s =
     (case js_index (content s) (cursorRow s) of
        None \<Rightarrow> False
      | Some line \<Rightarrow> 0 \<le> cursorCol s \<and> cursorCol s \<le> int (length line))"

text \<open>The line \<open>row\<close> split at \<open>col\<close> into two consecutive lines, the part before \<open>col\<close> and
  the part from \<open>col\<close> on.\<close>

definition split_line :: "string list \<Rightarrow> nat \<Rightarrow> nat \<Rightarrow> string list" where
  "split_line ls row col =
     take row ls @ [take col (ls ! row), drop col (ls ! row)] @ drop (Suc row) ls"

text \<open>The example of the specification for Enter, in the standalone and in the overlay
  editor.\<close>

definition hello_world :: session where
  "hello_world = \<lparr>content = [''hello world''], cursorRow = 0, cursorCol = 5, scrollTop = 0,
     mode = Insert, filename = [], modified = False, searchTerm = [], commandBuffer = [],
     cmdLine = [], shown = [], disk = empty_disk\<rparr>"

definition overlay_hello_world :: overlay where
  "overlay_hello_world = overlay_fresh\<lparr>content := [''hello world''], cursorCol := 5, mode := Insert\<rparr>"

text \<open>The overlay editor is closed and its buffer is still marked as modified.\<close>

definition closed_while_modified :: "overlay \<Rightarrow> bool" where
  "closed_while_modified t = (modified t \<and> \<not> editorOpen t)"

text \<open>A key with no name, as the colon comes.\<close>

definition no_name :: key where
  "no_name = \<lparr>name = None, ctrl = False, shift = False, meta = False\<rparr>"

text \<open>States of the examples in the command mode with \<open>q\<close> typed: the standalone editor
  with unsaved lines and with nothing to save, and the overlay editor with unsaved
  lines.\<close>

definition unsaved_q :: session where
  "unsaved_q = two_lines\<lparr>commandBuffer := ''q'', cmdLine := '':q''\<rparr>"

definition saved_q :: session where
  "saved_q = fresh\<lparr>mode := Command, commandBuffer := ''q'', cmdLine := '':q''\<rparr>"

definition overlay_unsaved_q :: overlay where
  "overlay_unsaved_q = overlay_fresh\<lparr>content := [''ab'', ''cd''], modified := True,
     mode := Command, commandBuffer := ''q''\<rparr>"

text \<open>The path that \<open>w\<close> or \<open>wq\<close> writes to: the argument of \<open>w\<close> when there is one, the
  bound file name otherwise.\<close>

definition save_target :: "string \<Rightarrow> string list \<Rightarrow> 'a session_scheme \<Rightarrow> string" where
  "save_target command rest s =
     (if command = ''w'' \<and> join (CHR '' '') rest \<noteq> [] then join (CHR '' '') rest
      else filename s)"

text \<open>A file system on which every write fails, and the two editors on it with unsaved
  lines and \<open>w f\<close> typed.\<close>

definition locked_disk :: world where
  "locked_disk = empty_disk\<lparr>writable := (\<lambda>p. False)\<rparr>"

definition locked_w :: session where
  "locked_w = two_lines\<lparr>disk := locked_disk\<rparr>"

definition overlay_locked_w :: overlay where
  "overlay_locked_w = overlay_fresh\<lparr>content := [''ab'', ''cd''], modified := True,
     mode := Command, commandBuffer := ''w f'', disk := locked_disk\<rparr>"

text \<open>The bound that the specification gives for the column in the normal mode.\<close>

definition normal_col_bound :: "'a EditorState_scheme \<Rightarrow> bool" where
  "normal_col_bound s =
     (mode s = Normal \<longrightarrow>
        (case js_index (content s) (cursorRow s) of
           None \<Rightarrow> False
         | Some line \<Rightarrow> 0 \<le> cursorCol s \<and> cursorCol s < max 1 (int (length line))))"

text \<open>States of the examples for the column: the editor panel of the split chat on a line
  of two words, and the standalone editor in the insert mode after \<open>i\<close> and \<open>a\<close>.\<close>

definition split_word :: split_editor where
  "split_word = \<lparr>content = [''ab cd''], cursorRow = 0, cursorCol = 3, scrollTop = 0,
     mode = Normal, filename = [], modified = False, searchTerm = [], commandBuffer = [],
     activePanel = Editor\<rparr>"

definition typed_a :: session where
  "typed_a = \<lparr>content = [''a''], cursorRow = 0, cursorCol = 1, scrollTop = 0,
     mode = Insert, filename = [], modified = True, searchTerm = [], commandBuffer = [],
     cmdLine = [], shown = [[], [], []], disk = empty_disk\<rparr>"

text \<open>
  The example of Enter from the start of the standalone editor: a file system with one
  file that holds the line \<open>hello world\<close>, and the keys that bring the cursor to column 5
  in the insert mode. Then the state before Enter, the state that the specification
  names for after it, and the state with a carriage return at the head of the second line.
\<close>

definition hello_disk :: world where
  "hello_disk = empty_disk\<lparr>files :=
     (\<lambda>p. if p = ''hello.txt'' then Some (File ''hello world'') else None)\<rparr>"

definition to_column_5 :: "(int \<times> event) list" where
  "to_column_5 = [(5, press ''l''), (5, press ''l''), (5, press ''l''), (5, press ''l''),
     (5, press ''l''), (5, press ''i'')]"

definition before_enter :: "'a EditorState_scheme \<Rightarrow> bool" where
  "before_enter s = (mode s = Insert \<and> content s = [''hello world'']
     \<and> cursorRow s = 0 \<and> cursorCol s = 5)"

definition split_at_5 :: "'a EditorState_scheme \<Rightarrow> bool" where
  "split_at_5 s = (content s = [''hello'', '' world''] \<and> cursorRow s = 1 \<and> cursorCol s = 0)"

definition carriage_return_inserted :: "'a EditorState_scheme \<Rightarrow> bool" where
  "carriage_return_inserted s = (content s = [''hello'', CHR 0x0D # '' world'']
     \<and> cursorRow s = 1 \<and> cursorCol s = 1)"

text \<open>
  The example of a search term that is not a regular expression. On \<open>paren_disk\<close> the file
  \<open>f\<close> holds the two lines \<open>a\<close> and \<open>(\<close>, and the pattern \<open>(\<close> is the one that \<open>new RegExp\<close>
  rejects (an unterminated group). The slash comes with a key that has no name and the
  space bar with the name \<open>space\<close>. \<open>search_then_load\<close>, in a window of one row: the term
  \<open>(\<close> is searched in the empty buffer, where nothing is found and nothing is drawn, and
  then \<open>:e f\<close> loads the file, of which only the first line shows. \<open>throws e r\<close>: the
  handler ended with the exception \<open>e\<close>.
\<close>

definition paren_disk :: world where
  "paren_disk = \<lparr>files = (\<lambda>p. if p = ''f'' then Some (File (''a'' @ [CHR 0x0A] @ ''('')) else None),
     writable = (\<lambda>p. True), valid_regexp = (\<lambda>t. t \<noteq> ''(''), cwd_listable = True\<rparr>"

definition slash_key :: event where
  "slash_key = KeyPress (Some ''/'') (Some no_name)"

definition space_key :: event where
  "space_key = KeyPress (Some '' '') (Some (plain ''space''))"

definition search_then_load :: "(int \<times> event) list" where
  "search_then_load = [(1, slash_key), (1, SearchSubmit ''(''), (1, colon_key), (1, press ''e''),
     (1, space_key), (1, press ''f''), (1, enter_key), (1, return_key)]"

definition before_n :: "session \<Rightarrow> bool" where
  "before_n s = (mode s = Normal \<and> content s = [''a'', ''(''] \<and> cursorRow s = 0
     \<and> cursorCol s = 0 \<and> searchTerm s = ''('')"

definition throws :: "error \<Rightarrow> 'a outcome \<Rightarrow> bool" where
  "throws e r = (case r of Crashed e' \<Rightarrow> e' = e | _ \<Rightarrow> False)"

text \<open>The bound that the specification gives for the column in the normal mode, as a
  predicate of the state alone: the cursor row is a row of the buffer and
  \<open>0 \<le> col < max(1, lines[row].length)\<close>.\<close>

definition col_below_end :: "'a EditorState_scheme \<Rightarrow> bool" where
  "col_below_end s =
     (case js_index (content s) (cursorRow s) of
        None \<Rightarrow> False
      | Some line \<Rightarrow> 0 \<le> cursorCol s \<and> cursorCol s < max 1 (int (length line)))"

text \<open>
  The keys at which the standalone and the overlay editor let the column leave the line,
  read off the state before the key. In the normal mode: \<open>l\<close> or the right arrow on an
  empty line, where \<open>Math.min(length - 1, col + 1)\<close> is \<open>-1\<close>; and \<open>d\<close> on a buffer of more
  than one line when the line that comes under the cursor is shorter than the column,
  which \<open>d\<close> does not touch. In the overlay editor also the right arrow in the insert mode
  with the cursor at the end of the line, which adds one to the column without a test.
\<close>

definition column_slip :: "key \<Rightarrow> 'a EditorState_scheme \<Rightarrow> bool" where
  "column_slip k s =
     (mode s = Normal \<and>
      (((name k = Some ''l'' \<or> name k = Some ''right'')
          \<and> js_index (content s) (cursorRow s) = Some [])
       \<or> (name k = Some ''d'' \<and> length (content s) > 1 \<and>
            (let lines = splice_remove (content s) (cursorRow s)
             in case js_index lines (min (cursorRow s) (int (length lines) - 1)) of
                  None \<Rightarrow> False
                | Some line \<Rightarrow> int (length line) < cursorCol s))))"

definition overlay_column_slip :: "key \<Rightarrow> overlay \<Rightarrow> bool" where
  "overlay_column_slip k t =
     (column_slip k t
      \<or> (mode t = Insert \<and> name k = Some ''right''
          \<and> (case js_index (content t) (cursorRow t) of
                None \<Rightarrow> False
              | Some line \<Rightarrow> int (length line) \<le> cursorCol t)))"

text \<open>A run of the standalone editor, and of the overlay editor, in which no event is such
  a key in the state that it meets.\<close>

fun event_slip :: "event \<Rightarrow> session \<Rightarrow> bool" where
  "event_slip (KeyPress ch (Some k)) s = column_slip k s"
| "event_slip _ s = False"

fun slip_free :: "(int \<times> event) list \<Rightarrow> session \<Rightarrow> bool" where
  "slip_free [] s = True"
| "slip_free ((height, ev) # evs) s =
     (\<not> event_slip ev s
      \<and> (case handle height ev s of Running s' \<Rightarrow> slip_free evs s' | _ \<Rightarrow> True))"

fun overlay_slip_free :: "(int \<times> string option \<times> key option) list \<Rightarrow> overlay \<Rightarrow> bool" where
  "overlay_slip_free [] t = True"
| "overlay_slip_free ((height, ch, key) # evs) t =
     ((case key of None \<Rightarrow> True | Some k \<Rightarrow> \<not> overlay_column_slip k t)
      \<and> (case editorKeyHandler height ch key t of
            Running t' \<Rightarrow> overlay_slip_free evs t'
          | _ \<Rightarrow> True))"

text \<open>Examples for the column: the overlay editor in the insert mode after \<open>i\<close> and \<open>a\<close>, and
  the keys \<open>i\<close>, \<open>a\<close>, Escape, \<open>h\<close> for either editor.\<close>

definition overlay_typed_a :: overlay where
  "overlay_typed_a = overlay_fresh\<lparr>content := [''a''], cursorCol := 1, mode := Insert,
     modified := True\<rparr>"

definition escape_then_left :: "(int \<times> event) list" where
  "escape_then_left = [(2, press ''i''), (2, press ''a''), (2, escape_key), (2, press ''h'')]"

definition overlay_escape_then_left :: "(int \<times> string option \<times> key option) list" where
  "overlay_escape_then_left =
     [(5, Some ''i'', Some (plain ''i'')), (5, Some ''a'', Some (plain ''a'')),
      (5, Some [CHR 0x1B], Some (plain ''escape'')), (5, Some ''h'', Some (plain ''h''))]"

subsection \<open>Facts about the JavaScript functions\<close>

lemma split_nonempty [simp]: "split sep s \<noteq> []"
  by (induction s) (auto split: list.splits)

lemma split_no_sep: "sep \<notin> set l \<Longrightarrow> split sep l = [l]"
  by (induction l) auto

lemma split_append_sep:
  "sep \<notin> set l \<Longrightarrow> split sep (l @ sep # rest) = l # split sep rest"
  by (induction l) auto

lemma split_join:
  assumes "ls \<noteq> []" and "\<forall>l \<in> set ls. sep \<notin> set l"
  shows "split sep (join sep ls) = ls"
  using assms
proof (induction sep ls rule: join.induct)
  case (3 sep l l' ls)
  then show ?case by (simp add: split_append_sep)
qed (simp_all add: split_no_sep)

lemma join_Cons_Cons: "join sep ((c # l) # ls) = c # join sep (l # ls)"
  by (cases ls) simp_all

lemma join_split: "join sep (split sep s) = s"
proof (induction s)
  case Nil
  then show ?case by simp
next
  case (Cons c cs)
  obtain l ls where sp: "split sep cs = l # ls"
    by (cases "split sep cs") simp_all
  show ?case using Cons sp by (simp add: join_Cons_Cons)
qed

lemma trim_id:
  assumes "s \<noteq> []" and "\<not> is_space (hd s)" and "\<not> is_space (last s)"
  shows "trim s = s"
proof -
  have "dropWhile is_space s = s" using assms(1,2) by (cases s) simp_all
  moreover have "dropWhile is_space (rev s) = rev s"
    using assms(1,3) by (cases "rev s") (simp_all add: last_rev [symmetric] del: last_rev)
  ultimately show ?thesis by (simp add: trim_def)
qed

lemma js_index_Some:
  "js_index xs i = Some x \<Longrightarrow> 0 \<le> i \<and> i < int (length xs) \<and> x = xs ! nat i"
  by (auto simp: js_index_def split: if_splits)

lemma length_splice_insert [simp]: "length (splice_insert xs i x) = Suc (length xs)"
  by (simp add: splice_insert_def)

lemma length_splice_remove:
  "length (splice_remove xs i) =
     (if rel_index (length xs) i < length xs then length xs - 1 else length xs)"
  by (auto simp: splice_remove_def)

lemma command_word:
  assumes "p \<noteq> []" and "\<not> is_space (last p)"
    and "c \<noteq> []" and "\<not> is_space (hd c)" and "CHR '' '' \<notin> set c"
  shows "split (CHR '' '') (trim (c @ CHR '' '' # p)) = c # split (CHR '' '') p"
proof -
  have "trim (c @ CHR '' '' # p) = c @ CHR '' '' # p"
    using assms by (intro trim_id) (auto simp: hd_append)
  then show ?thesis using assms(5) by (simp add: split_append_sep)
qed

subsection \<open>Facts about \<open>render\<close> and \<open>saveFile\<close>\<close>

lemma render_Running:
  assumes "render h s = Running s'"
  shows "content s' = content s \<and> cursorRow s' = cursorRow s \<and> cursorCol s' = cursorCol s
       \<and> mode s' = mode s \<and> filename s' = filename s \<and> modified s' = modified s
       \<and> searchTerm s' = searchTerm s \<and> commandBuffer s' = commandBuffer s \<and> disk s' = disk s
       \<and> scrollTop s' = scroll_into_view h (cursorRow s) (scrollTop s)
       \<and> shown s' = shown s @ [cmdLine s']"
  using assms by (auto simp: render_def Let_def screen_render_def split: if_splits)

lemma highlight_safe: "regexp_safe s \<Longrightarrow> \<not> highlight_throws s n"
  by (auto simp: regexp_safe_def highlight_throws_def split: option.splits)

lemma render_safe:
  assumes "regexp_safe s"
  shows "\<exists>s'. render h s = Running s'"
proof -
  have "regexp_safe (s\<lparr>scrollTop := t\<rparr>)" for t
    using assms by (simp add: regexp_safe_def)
  then show ?thesis
    by (simp add: render_def Let_def list_ex_iff highlight_safe)
qed

lemma screen_render_simps [simp]:
  "content (screen_render s) = content s"
  "cursorRow (screen_render s) = cursorRow s"
  "cursorCol (screen_render s) = cursorCol s"
  "scrollTop (screen_render s) = scrollTop s"
  "mode (screen_render s) = mode s"
  "searchTerm (screen_render s) = searchTerm s"
  "commandBuffer (screen_render s) = commandBuffer s"
  "filename (screen_render s) = filename s"
  "modified (screen_render s) = modified s"
  "disk (screen_render s) = disk s"
  "cmdLine (screen_render s) = cmdLine s"
  "shown (screen_render s) = shown s @ [cmdLine s]"
  by (simp_all add: screen_render_def)

lemma saveFile_snd [simp]:
  "content (snd (saveFile s)) = content s"
  "cursorRow (snd (saveFile s)) = cursorRow s"
  "cursorCol (snd (saveFile s)) = cursorCol s"
  "scrollTop (snd (saveFile s)) = scrollTop s"
  "mode (snd (saveFile s)) = mode s"
  "searchTerm (snd (saveFile s)) = searchTerm s"
  "commandBuffer (snd (saveFile s)) = commandBuffer s"
  "filename (snd (saveFile s)) = filename s"
  by (simp_all add: saveFile_def split: option.splits)

lemma saveFile_eq:
  assumes "saveFile s = (b, s2)"
  shows "content s2 = content s \<and> cursorRow s2 = cursorRow s \<and> cursorCol s2 = cursorCol s
    \<and> scrollTop s2 = scrollTop s \<and> mode s2 = mode s \<and> searchTerm s2 = searchTerm s
    \<and> commandBuffer s2 = commandBuffer s \<and> filename s2 = filename s"
proof -
  have "s2 = snd (saveFile s)" using assms by simp
  then show ?thesis by simp
qed

text \<open>\<open>executeCommand\<close> once the command word is known.\<close>

lemma executeCommand_w:
  "split (CHR '' '') (trim cmd) = ''w'' # rest \<Longrightarrow>
   executeCommand h cmd s =
     after_switch h (snd (saveFile
       (if join (CHR '' '') rest \<noteq> [] then s\<lparr>filename := join (CHR '' '') rest\<rparr> else s)))"
  by (simp add: executeCommand_def)

lemma executeCommand_e:
  "split (CHR '' '') (trim cmd) = ''e'' # rest \<Longrightarrow>
   executeCommand h cmd s =
     (let arg = join (CHR '' '') rest in
      if arg \<noteq> [] \<and> existsSync (disk s) arg
      then (case readFileSync (disk s) arg of
              None \<Rightarrow> Crashed IOError
            | Some text \<Rightarrow>
                after_switch h (s\<lparr>filename := arg, content := split (CHR 0x0A) text,
                  cursorRow := 0, cursorCol := 0, modified := False\<rparr>))
      else after_switch h s)"
  by (simp add: executeCommand_def)

text \<open>\<open>editorCommand\<close> on a file that is there.\<close>

lemma editorCommand_loads:
  assumes "p \<noteq> []" and "files w p = Some (File text)"
  shows "\<exists>s. editorCommand (Some p) w h = Running s \<and> content s = split (CHR 0x0A) text"
proof -
  let ?s = "\<lparr>content = split (CHR 0x0A) text, cursorRow = 0, cursorCol = 0, scrollTop = 0,
     mode = Normal, filename = p, modified = False, searchTerm = [],
     commandBuffer = [], cmdLine = [], shown = [], disk = w\<rparr>"
  have "regexp_safe ?s" by (simp add: regexp_safe_def)
  then obtain s where s: "render h ?s = Running s" using render_safe by blast
  have "editorCommand (Some p) w h = Running s"
    using assms s by (simp add: editorCommand_def existsSync_def readFileSync_def)
  then show ?thesis using render_Running[OF s] by simp
qed

section \<open>The claims\<close>

text \<open>
  Claim C4. Saving a buffer and loading the written file gives the buffer back. For a
  buffer with at least one line and no newline inside a line, and a path \<open>p\<close> that is not
  empty, does not end in white space and can be written: the command \<open>w p\<close> writes the
  lines joined by single newlines to \<open>p\<close>. After it the command \<open>e p\<close>, in any session on
  the file system that the save has left and whatever buffer that session holds, leaves
  exactly the lines that were saved, with the cursor at (0,0) and the buffer unmodified;
  and an editor started on \<open>p\<close> has exactly those lines too. (The search term of a
  session, if any, is a valid pattern, so that the screen can be drawn.)
\<close>

theorem save_load_roundtrip:
  assumes "content s \<noteq> []" and "\<forall>l \<in> set (content s). CHR 0x0A \<notin> set l"
    and "p \<noteq> []" and "\<not> is_space (last p)"
    and "writable (disk s) p" and "files (disk s) p \<noteq> Some Directory"
    and "regexp_safe s"
  shows "\<exists>s1. executeCommand h (''w '' @ p) s = Running s1
           \<and> files (disk s1) p = Some (File (join (CHR 0x0A) (content s)))
           \<and> (\<forall>u. disk u = disk s1 \<and> regexp_safe u \<longrightarrow>
                 (\<exists>s2. executeCommand h' (''e '' @ p) u = Running s2
                    \<and> content s2 = content s \<and> filename s2 = p
                    \<and> cursorRow s2 = 0 \<and> cursorCol s2 = 0 \<and> \<not> modified s2))
           \<and> (\<exists>s3. editorCommand (Some p) (disk s1) h' = Running s3 \<and> content s3 = content s)"
proof -
  let ?text = "join (CHR 0x0A) (content s)"
  let ?d = "(disk s)\<lparr>files := (files (disk s))(p \<mapsto> File ?text)\<rparr>"
  have wparse: "split (CHR '' '') (trim (''w '' @ p)) = ''w'' # split (CHR '' '') p"
    using command_word[OF assms(3,4), of "''w''"] by (simp add: is_space_def)
  have eparse: "split (CHR '' '') (trim (''e '' @ p)) = ''e'' # split (CHR '' '') p"
    using command_word[OF assms(3,4), of "''e''"] by (simp add: is_space_def)
  have arg: "join (CHR '' '') (split (CHR '' '') p) = p" by (rule join_split)
  have rt: "split (CHR 0x0A) ?text = content s" using split_join[OF assms(1,2)] .
  have wr: "writeFileSync (disk s) p ?text = Some ?d"
    using assms(5,6) by (simp add: writeFileSync_def)
  let ?saved = "snd (saveFile (s\<lparr>filename := p\<rparr>))"
  have saved: "content ?saved = content s" "disk ?saved = ?d" "searchTerm ?saved = searchTerm s"
    using assms(3) wr by (simp_all add: saveFile_def)
  have "regexp_safe (?saved\<lparr>mode := Normal, commandBuffer := []\<rparr>)"
    using assms(7) saved by (simp add: regexp_safe_def)
  then obtain s1 where s1: "render h (?saved\<lparr>mode := Normal, commandBuffer := []\<rparr>) = Running s1"
    using render_safe by blast
  have e1: "executeCommand h (''w '' @ p) s = Running s1"
    unfolding executeCommand_w[OF wparse] using s1 assms(3) by (simp add: arg after_switch_def)
  have s1f: "disk s1 = ?d" using render_Running[OF s1] saved by simp
  have onfile: "files (disk s1) p = Some (File ?text)" using s1f by simp
  have load: "\<exists>s2. executeCommand h' (''e '' @ p) u = Running s2
       \<and> content s2 = content s \<and> filename s2 = p
       \<and> cursorRow s2 = 0 \<and> cursorCol s2 = 0 \<and> \<not> modified s2"
    if u: "disk u = disk s1 \<and> regexp_safe u" for u :: session
  proof -
    let ?loaded = "u\<lparr>filename := p, content := split (CHR 0x0A) ?text, cursorRow := 0,
       cursorCol := 0, modified := False\<rparr>"
    have "regexp_safe (?loaded\<lparr>mode := Normal, commandBuffer := []\<rparr>)"
      using u by (auto simp: regexp_safe_def)
    then obtain s2 where s2: "render h' (?loaded\<lparr>mode := Normal, commandBuffer := []\<rparr>) = Running s2"
      using render_safe by blast
    have "executeCommand h' (''e '' @ p) u = Running s2"
      unfolding executeCommand_e[OF eparse] using s2 assms(3) u onfile
      by (simp add: arg after_switch_def existsSync_def readFileSync_def)
    then show ?thesis using render_Running[OF s2] rt by simp
  qed
  have start: "\<exists>s3. editorCommand (Some p) (disk s1) h' = Running s3 \<and> content s3 = content s"
    using editorCommand_loads[OF assms(3) onfile, of h'] rt by simp
  show ?thesis using e1 onfile load start by blast
qed

theorem save_load_roundtrip_witness:
  "content two_lines = [''ab'', ''cd''] \<and> CHR 0x0A \<notin> set ''ab'' \<and> CHR 0x0A \<notin> set ''cd''
   \<and> ''f'' \<noteq> [] \<and> \<not> is_space (last ''f'')
   \<and> writable (disk two_lines) ''f'' \<and> files (disk two_lines) ''f'' \<noteq> Some Directory
   \<and> regexp_safe two_lines
   \<and> (\<exists>s1. executeCommand 5 ''w f'' two_lines = Running s1
         \<and> files (disk s1) ''f'' = Some (File (''ab'' @ [CHR 0x0A] @ ''cd''))
         \<and> content (fresh\<lparr>disk := disk s1\<rparr>) = [[]]
         \<and> (\<exists>s2. executeCommand 5 ''e f'' (fresh\<lparr>disk := disk s1\<rparr>) = Running s2
               \<and> content s2 = [''ab'', ''cd''] \<and> filename s2 = ''f'' \<and> \<not> modified s2)
         \<and> (\<exists>s3. editorCommand (Some ''f'') (disk s1) 5 = Running s3
               \<and> content s3 = [''ab'', ''cd'']))"
proof -
  have h: "content two_lines \<noteq> []" "\<forall>l \<in> set (content two_lines). CHR 0x0A \<notin> set l"
    "''f'' \<noteq> []" "\<not> is_space (last ''f'')"
    "writable (disk two_lines) ''f''" "files (disk two_lines) ''f'' \<noteq> Some Directory"
    "regexp_safe two_lines"
    by (simp_all add: two_lines_def empty_disk_def is_space_def regexp_safe_def)
  from save_load_roundtrip[OF h, of 5 5] obtain s1 where
    1: "executeCommand 5 (''w '' @ ''f'') two_lines = Running s1"
    and 2: "files (disk s1) ''f'' = Some (File (join (CHR 0x0A) (content two_lines)))"
    and 3: "\<forall>u. disk u = disk s1 \<and> regexp_safe u \<longrightarrow>
          (\<exists>s2. executeCommand 5 (''e '' @ ''f'') u = Running s2
             \<and> content s2 = content two_lines \<and> filename s2 = ''f''
             \<and> cursorRow s2 = 0 \<and> cursorCol s2 = 0 \<and> \<not> modified s2)"
    and 4: "\<exists>s3. editorCommand (Some ''f'') (disk s1) 5 = Running s3 \<and> content s3 = content two_lines"
    by blast
  have u: "disk (fresh\<lparr>disk := disk s1\<rparr>) = disk s1 \<and> regexp_safe (fresh\<lparr>disk := disk s1\<rparr>)"
    by (simp add: fresh_def regexp_safe_def)
  from 3 u obtain s2 where
    5: "executeCommand 5 (''e '' @ ''f'') (fresh\<lparr>disk := disk s1\<rparr>) = Running s2"
      "content s2 = content two_lines" "filename s2 = ''f''" "\<not> modified s2"
    by blast
  have c: "content two_lines = [''ab'', ''cd'']" "content (fresh\<lparr>disk := disk s1\<rparr>) = [[]]"
    by (simp_all add: two_lines_def fresh_def)
  have "\<exists>s1. executeCommand 5 ''w f'' two_lines = Running s1
         \<and> files (disk s1) ''f'' = Some (File (''ab'' @ [CHR 0x0A] @ ''cd''))
         \<and> content (fresh\<lparr>disk := disk s1\<rparr>) = [[]]
         \<and> (\<exists>s2. executeCommand 5 ''e f'' (fresh\<lparr>disk := disk s1\<rparr>) = Running s2
               \<and> content s2 = [''ab'', ''cd''] \<and> filename s2 = ''f'' \<and> \<not> modified s2)
         \<and> (\<exists>s3. editorCommand (Some ''f'') (disk s1) 5 = Running s3
               \<and> content s3 = [''ab'', ''cd''])"
    using 1 2 4 5 c by (intro exI[of _ s1]) auto
  then show ?thesis using h(3-7) c(1) by simp
qed

subsection \<open>The cursor row stays inside the buffer\<close>











lemma and_then_Running:
  "and_then r f = Running s' \<Longrightarrow> \<exists>s1. r = Running s1 \<and> f s1 = Running s'"
  by (cases r) (auto simp: and_then_def)




lemma normal_mode_key_stages:
  assumes "normal_mode_key h ch k s = Running s'"
    and "\<not> (ctrl k \<and> (name k = Some ''c'' \<or> name k = Some ''s''))"
  shows "\<exists>s1 s2 s3. normal_switch h k s = Running s1 \<and> go_to_end h k s1 = Running s2
     \<and> colon h ch s2 = Running s3 \<and> slash ch s3 = Running s'"
proof -
  have "and_then (and_then (and_then (normal_switch h k s) (go_to_end h k)) (colon h ch)) (slash ch)
      = Running s'"
    using assms by (auto simp: normal_mode_key_def split: if_splits)
  then show ?thesis by (blast dest: and_then_Running)
qed





lemma editorCommand_Running: "\<exists>s0. editorCommand file w h = Running s0"
  unfolding editorCommand_def Let_def
  by (rule render_safe) (simp add: regexp_safe_def)


subsection \<open>The buffer keeps at least one line\<close>

lemma empty_results [simp]:
  "splice_insert xs i x \<noteq> []" "[] \<noteq> splice_insert xs i x" "[] \<noteq> split sep t"
  "([] = xs[n := y]) = (xs = [])"
proof -
  show "splice_insert xs i x \<noteq> []" "[] \<noteq> splice_insert xs i x"
    by (simp_all add: splice_insert_def)
  show "[] \<noteq> split sep t" using split_nonempty[of sep t] by metis
  show "([] = xs[n := y]) = (xs = [])" using list_update_nonempty[of xs n y] by metis
qed

lemma splice_remove_Nil:
  "splice_remove xs i = [] \<longleftrightarrow> xs = [] \<or> (length xs = 1 \<and> i \<le> 0)"
proof (cases xs)
  case Nil
  then show ?thesis by (simp add: splice_remove_def)
next
  case (Cons a as)
  show ?thesis
  proof (cases as)
    case Nil
    then show ?thesis using Cons by (auto simp: splice_remove_def rel_index_def)
  next
    case (Cons b bs)
    then have "length (splice_remove xs i) > 0"
      using \<open>xs = a # as\<close> by (simp add: length_splice_remove)
    then show ?thesis using Cons \<open>xs = a # as\<close> by auto
  qed
qed

lemma splice_remove_Nil2 [simp]:
  "([] = splice_remove xs i) = (xs = [] \<or> (length xs = 1 \<and> i \<le> 0))"
  "(splice_remove xs i = []) = (xs = [] \<or> (length xs = 1 \<and> i \<le> 0))"
  using splice_remove_Nil[of xs i] by auto

lemma render_content: "render h s = Running s' \<Longrightarrow> content s' = content s"
  by (drule render_Running) simp

lemma after_switch_content: "after_switch h s = Running s' \<Longrightarrow> content s' = content s"
  unfolding after_switch_def by (drule render_content) simp

lemma executeCommand_nonempty:
  assumes "executeCommand h cmd s = Running s'" "0 < length (content s)"
  shows "0 < length (content s')"
  using assms
  by (auto simp: executeCommand_def Let_def
      split: list.splits if_splits option.splits prod.splits bool.splits
      dest!: after_switch_content saveFile_eq)

lemma findNext_content: "findNext h s = Running s' \<Longrightarrow> content s' = content s"
  by (auto simp: findNext_def split: if_splits sum.splits option.splits dest!: render_content)

lemma command_mode_key_nonempty:
  assumes "command_mode_key h ch k s = Running s'" "0 < length (content s)"
  shows "0 < length (content s')"
  using assms
  by (auto simp: command_mode_key_def split: if_splits option.splits list.splits
      dest!: render_content executeCommand_nonempty)

lemma insert_mode_key_nonempty:
  assumes "insert_mode_key h ch k s = Running s'" "0 < length (content s)"
  shows "0 < length (content s')"
  using assms
  by (auto simp: insert_mode_key_def Let_def length_splice_remove
      split: if_splits option.splits list.splits dest!: render_content js_index_Some)

lemma normal_switch_nonempty:
  assumes "normal_switch h k s = Running s'" "0 < length (content s)"
  shows "0 < length (content s')"
  using assms
  by (auto simp: normal_switch_def Let_def length_splice_remove
      split: if_splits option.splits list.splits dest!: render_content findNext_content)

lemma normal_mode_key_nonempty:
  assumes "normal_mode_key h ch k s = Running s'" "0 < length (content s)"
  shows "0 < length (content s')"
proof (cases "ctrl k \<and> (name k = Some ''c'' \<or> name k = Some ''s'')")
  case True
  then show ?thesis using assms by (auto simp: normal_mode_key_def split: if_splits)
next
  case False
  from normal_mode_key_stages[OF assms(1) False] obtain s1 s2 s3 where
    st: "normal_switch h k s = Running s1" "go_to_end h k s1 = Running s2"
      "colon h ch s2 = Running s3" "slash ch s3 = Running s'" by blast
  have "0 < length (content s1)" using normal_switch_nonempty[OF st(1) assms(2)] .
  moreover have "content s2 = content s1"
    using st(2) by (auto simp: go_to_end_def split: if_splits dest!: render_content)
  moreover have "content s3 = content s2"
    using st(3) by (auto simp: colon_def split: if_splits dest!: render_content)
  moreover have "content s' = content s3"
    using st(4) by (auto simp: slash_def split: if_splits)
  ultimately show ?thesis by simp
qed

lemma handle_nonempty:
  assumes "handle h ev s = Running s'" "0 < length (content s)"
  shows "0 < length (content s')"
proof (cases ev)
  case (KeyPress ch key)
  then show ?thesis using assms
    by (auto simp: keypress_def split: option.splits if_splits
        dest: command_mode_key_nonempty insert_mode_key_nonempty normal_mode_key_nonempty)
next
  case (SearchSubmit v)
  then show ?thesis using assms by (auto simp: search_submit_def dest!: findNext_content)
next
  case SearchCancel
  then show ?thesis using assms by (auto simp: search_cancel_def dest!: render_content)
qed

lemma run_nonempty:
  assumes "run evs s = Running s'" "0 < length (content s)"
  shows "0 < length (content s')"
  using assms
proof (induction evs arbitrary: s)
  case Nil
  then show ?case by simp
next
  case (Cons a evs)
  obtain h ev where a: "a = (h, ev)" by (cases a)
  from Cons.prems(1) obtain s1 where s1: "handle h ev s = Running s1" "run evs s1 = Running s'"
    unfolding a by (auto dest: and_then_Running)
  show ?case using Cons.IH[OF s1(2)] handle_nonempty[OF s1(1) Cons.prems(2)] by simp
qed

lemma editorCommand_nonempty:
  assumes "editorCommand file w h = Running s0"
  shows "0 < length (content s0)"
  using assms
  by (auto simp: editorCommand_def Let_def split: if_splits option.splits dest!: render_content)

text \<open>The same for one key of the overlay editor.\<close>

lemma renderEditor_simps [simp]:
  "content (renderEditor h s) = content s"
  "cursorRow (renderEditor h s) = cursorRow s"
  "cursorCol (renderEditor h s) = cursorCol s"
  "mode (renderEditor h s) = mode s"
  "filename (renderEditor h s) = filename s"
  "modified (renderEditor h s) = modified s"
  "commandBuffer (renderEditor h s) = commandBuffer s"
  "disk (renderEditor h s) = disk s"
  "scrollTop (renderEditor h s) = scroll_into_view h (cursorRow s) (scrollTop s)"
  "editorOpen (renderEditor h s) = editorOpen s"
  "dialogOpen (renderEditor h s) = dialogOpen s"
  "popups (renderEditor h s) = popups s"
  by (simp_all add: renderEditor_def screen_render_def)

lemma saveEditorFile_snd [simp]:
  "content (snd (saveEditorFile None h s)) = content s"
  "cursorRow (snd (saveEditorFile None h s)) = cursorRow s"
  "cursorCol (snd (saveEditorFile None h s)) = cursorCol s"
  "mode (snd (saveEditorFile None h s)) = mode s"
  "filename (snd (saveEditorFile None h s)) = filename s"
  "commandBuffer (snd (saveEditorFile None h s)) = commandBuffer s"
  "editorOpen (snd (saveEditorFile None h s)) = editorOpen s"
  by (simp_all add: saveEditorFile_def promptForFilename_def screen_render_def split: option.splits)

lemma saveEditorFile_eq:
  assumes "saveEditorFile None h s = (b, s2)"
  shows "content s2 = content s \<and> cursorRow s2 = cursorRow s \<and> cursorCol s2 = cursorCol s
    \<and> mode s2 = mode s \<and> filename s2 = filename s \<and> commandBuffer s2 = commandBuffer s
    \<and> editorOpen s2 = editorOpen s"
proof -
  have "s2 = snd (saveEditorFile None h s)" using assms by simp
  then show ?thesis by simp
qed

lemma closeEditor_simps [simp]:
  "content (closeEditor s) = content s"
  "cursorRow (closeEditor s) = cursorRow s"
  "cursorCol (closeEditor s) = cursorCol s"
  "scrollTop (closeEditor s) = scrollTop s"
  "mode (closeEditor s) = mode s"
  "filename (closeEditor s) = filename s"
  "modified (closeEditor s) = modified s"
  "commandBuffer (closeEditor s) = commandBuffer s"
  "disk (closeEditor s) = disk s"
  "editorOpen (closeEditor s) = False"
  by (simp_all add: closeEditor_def Let_def screen_render_def)

lemma tryCloseEditor_simps [simp]:
  "content (tryCloseEditor s) = content s"
  "cursorRow (tryCloseEditor s) = cursorRow s"
  "cursorCol (tryCloseEditor s) = cursorCol s"
  "scrollTop (tryCloseEditor s) = scrollTop s"
  "mode (tryCloseEditor s) = mode s"
  "filename (tryCloseEditor s) = filename s"
  "modified (tryCloseEditor s) = modified s"
  "commandBuffer (tryCloseEditor s) = commandBuffer s"
  "disk (tryCloseEditor s) = disk s"
  by (simp_all add: tryCloseEditor_def Let_def screen_render_def)

lemma executeEditorCommand_nonempty:
  assumes "executeEditorCommand h cmd s = Running s'" "0 < length (content s)"
  shows "0 < length (content s')"
  using assms
  by (auto simp: executeEditorCommand_def Let_def
      split: list.splits if_splits option.splits prod.splits bool.splits
      dest!: saveEditorFile_eq)

lemma overlay_insert_key_nonempty:
  assumes "overlay_insert_key h ch k s = Running s'" "0 < length (content s)"
  shows "0 < length (content s')"
  using assms
  by (auto simp: overlay_insert_key_def Let_def length_splice_remove
      split: if_splits option.splits list.splits dest!: js_index_Some)

lemma overlay_normal_switch_nonempty:
  assumes "overlay_normal_switch h k s = Running s'" "0 < length (content s)"
  shows "0 < length (content s')"
  using assms
  by (auto simp: overlay_normal_switch_def Let_def length_splice_remove
      split: if_splits option.splits list.splits)

lemma editorKeyHandler_cases:
  assumes "editorKeyHandler h ch key s = Running s'"
  obtains (skip) "s' = s"
    | (cmd) k where "key = Some k" "overlay_command_key h ch k s = Running s'"
    | (ins) k where "key = Some k" "overlay_insert_key h ch k s = Running s'"
    | (save) "s' = snd (saveEditorFile None h s)"
    | (browse) "s' = showFileBrowser s"
    | (normal) k s1 s2 where "key = Some k" "overlay_normal_switch h k s = Running s1"
        "overlay_go_to_end h k s1 = Running s2" "overlay_colon h ch s2 = Running s'"
proof (cases key)
  case None
  then have "s' = s" using assms by (simp add: editorKeyHandler_def)
  then show ?thesis by (rule skip)
next
  case (Some k)
  show ?thesis
  proof (cases "\<not> editorOpen s \<or> dialogOpen s \<or> fileBrowserOpen s
      \<or> (workspaceOpen s \<and> wsFocused s \<and> \<not> (ctrl k \<and> name k = Some ''o''))")
    case True
    then have "editorKeyHandler h ch key s = Running s"
      unfolding Some editorKeyHandler_def by auto
    then have "s' = s" using assms by simp
    then show ?thesis by (rule skip)
  next
    case active: False
    show ?thesis
    proof (cases "mode s")
      case Command
      then have "overlay_command_key h ch k s = Running s'"
        using assms active unfolding Some editorKeyHandler_def by auto
      then show ?thesis using Some by (rule cmd[rotated])
    next
      case Insert
      then have "overlay_insert_key h ch k s = Running s'"
        using assms active unfolding Some editorKeyHandler_def by auto
      then show ?thesis using Some by (rule ins[rotated])
    next
      case Normal
      show ?thesis
      proof (cases "ctrl k \<and> name k = Some ''s''")
        case True
        then have "Running (snd (saveEditorFile None h s)) = Running s'"
          using assms active Normal unfolding Some editorKeyHandler_def by auto
        then show ?thesis using save by simp
      next
        case nosave: False
        show ?thesis
        proof (cases "ctrl k \<and> name k = Some ''f''")
          case True
          then have "Running (showFileBrowser s) = Running s'"
            using assms active Normal nosave unfolding Some editorKeyHandler_def by auto
          then show ?thesis using browse by simp
        next
          case False
          then have "and_then (and_then (overlay_normal_switch h k s) (overlay_go_to_end h k))
              (overlay_colon h ch) = Running s'"
            using assms active Normal nosave unfolding Some editorKeyHandler_def by auto
          then obtain s1 s2 where "overlay_normal_switch h k s = Running s1"
            "overlay_go_to_end h k s1 = Running s2" "overlay_colon h ch s2 = Running s'"
            by (blast dest: and_then_Running)
          then show ?thesis using Some normal by blast
        qed
      qed
    qed
  qed
qed

lemma editorKeyHandler_nonempty:
  assumes "editorKeyHandler h ch key s = Running s'" "0 < length (content s)"
  shows "0 < length (content s')"
  using assms(1)
proof (cases rule: editorKeyHandler_cases)
  case skip
  then show ?thesis using assms(2) by simp
next
  case (cmd k)
  then show ?thesis using assms(2)
    by (auto simp: overlay_command_key_def split: if_splits option.splits list.splits
        dest: executeEditorCommand_nonempty)
next
  case (ins k)
  then show ?thesis using assms(2) overlay_insert_key_nonempty by blast
next
  case save
  then show ?thesis using assms(2) by simp
next
  case browse
  then show ?thesis using assms(2) by (simp add: showFileBrowser_def screen_render_def)
next
  case (normal k s1 s2)
  have "0 < length (content s1)" using overlay_normal_switch_nonempty[OF normal(2) assms(2)] .
  moreover have "content s2 = content s1"
    using normal(3) by (auto simp: overlay_go_to_end_def split: if_splits)
  moreover have "content s' = content s2"
    using normal(4) by (auto simp: overlay_colon_def split: if_splits)
  ultimately show ?thesis by simp
qed



subsection \<open>The cursor row stays visible\<close>

lemma scroll_into_view_ok:
  "1 \<le> h \<Longrightarrow> scroll_into_view h row t \<le> row \<and> row \<le> scroll_into_view h row t + h - 1"
  by (auto simp: scroll_into_view_def)

lemma render_viewport:
  assumes "render h s = Running s'" "1 \<le> h"
  shows "viewport_ok h s'"
  using render_Running[OF assms(1)] scroll_into_view_ok[OF assms(2)]
  by (simp add: viewport_ok_def)

lemma viewport_same:
  "cursorRow s' = cursorRow s \<Longrightarrow> scrollTop s' = scrollTop s \<Longrightarrow> viewport_ok h s \<Longrightarrow> viewport_ok h s'"
  by (simp add: viewport_ok_def)

lemma after_switch_viewport: "after_switch h s = Running s' \<Longrightarrow> 1 \<le> h \<Longrightarrow> viewport_ok h s'"
  unfolding after_switch_def by (rule render_viewport)

lemma executeCommand_viewport:
  assumes "executeCommand h cmd s = Running s'" "1 \<le> h"
  shows "viewport_ok h s'"
  using assms
  by (auto simp: executeCommand_def Let_def
      split: list.splits if_splits option.splits prod.splits bool.splits
      elim!: after_switch_viewport)

lemma findNext_viewport:
  assumes "findNext h s = Running s'" "1 \<le> h" "viewport_ok h s"
  shows "viewport_ok h s'"
  using assms
  by (auto simp: findNext_def split: if_splits sum.splits option.splits elim!: render_viewport)

lemma command_mode_key_viewport:
  assumes "command_mode_key h ch k s = Running s'" "1 \<le> h" "viewport_ok h s"
  shows "viewport_ok h s'"
  using assms
  by (auto simp: command_mode_key_def split: if_splits option.splits list.splits
      elim!: render_viewport executeCommand_viewport)

lemma insert_mode_key_viewport:
  assumes "insert_mode_key h ch k s = Running s'" "1 \<le> h" "viewport_ok h s"
  shows "viewport_ok h s'"
  using assms
  by (auto simp: insert_mode_key_def Let_def split: if_splits option.splits list.splits
      elim!: render_viewport)

lemma normal_switch_viewport:
  assumes "normal_switch h k s = Running s'" "1 \<le> h" "viewport_ok h s"
  shows "viewport_ok h s'"
  using assms
  by (auto simp: normal_switch_def Let_def split: if_splits option.splits list.splits
      elim!: render_viewport findNext_viewport)

lemma normal_mode_key_viewport:
  assumes "normal_mode_key h ch k s = Running s'" "1 \<le> h" "viewport_ok h s"
  shows "viewport_ok h s'"
proof (cases "ctrl k \<and> (name k = Some ''c'' \<or> name k = Some ''s'')")
  case True
  then show ?thesis using assms
    by (auto simp: normal_mode_key_def viewport_ok_def split: if_splits)
next
  case False
  from normal_mode_key_stages[OF assms(1) False] obtain s1 s2 s3 where
    st: "normal_switch h k s = Running s1" "go_to_end h k s1 = Running s2"
      "colon h ch s2 = Running s3" "slash ch s3 = Running s'" by blast
  have 1: "viewport_ok h s1" using normal_switch_viewport[OF st(1) assms(2,3)] .
  have 2: "viewport_ok h s2"
    using st(2) 1 assms(2) by (auto simp: go_to_end_def split: if_splits elim!: render_viewport)
  have 3: "viewport_ok h s3"
    using st(3) 2 assms(2) by (auto simp: colon_def split: if_splits elim!: render_viewport)
  show ?thesis
    using st(4) 3 by (auto simp: slash_def viewport_ok_def split: if_splits)
qed

lemma handle_viewport:
  assumes "handle h ev s = Running s'" "1 \<le> h" "viewport_ok h s"
  shows "viewport_ok h s'"
proof (cases ev)
  case (KeyPress ch key)
  then show ?thesis using assms
    by (auto simp: keypress_def split: option.splits if_splits
        elim: command_mode_key_viewport insert_mode_key_viewport normal_mode_key_viewport)
next
  case (SearchSubmit v)
  have "viewport_ok h (s\<lparr>searchTerm := v, mode := Normal\<rparr>)"
    using assms(3) by (simp add: viewport_ok_def)
  then show ?thesis using SearchSubmit assms(1,2)
    by (auto simp: search_submit_def elim: findNext_viewport)
next
  case SearchCancel
  then show ?thesis using assms by (auto simp: search_cancel_def elim!: render_viewport)
qed

lemma renderEditor_viewport: "1 \<le> h \<Longrightarrow> viewport_ok h (renderEditor h t)"
  using scroll_into_view_ok[of h] by (simp add: viewport_ok_def)

lemma saveEditorFile_viewport:
  assumes "1 \<le> h" "viewport_ok h t"
  shows "viewport_ok h (snd (saveEditorFile None h t))"
  using assms scroll_into_view_ok[OF assms(1), of "cursorRow t" "scrollTop t"]
  by (auto simp: saveEditorFile_def promptForFilename_def viewport_ok_def renderEditor_def
      screen_render_def split: option.splits)

lemma editorKeyHandler_viewport:
  assumes "editorKeyHandler h ch key t = Running t'" "1 \<le> h" "viewport_ok h t"
  shows "viewport_ok h t'"
  using assms(1)
proof (cases rule: editorKeyHandler_cases)
  case skip
  then show ?thesis using assms(3) by simp
next
  case (cmd k)
  then show ?thesis using assms(2,3) renderEditor_viewport[OF assms(2)]
    by (auto simp: overlay_command_key_def executeEditorCommand_def Let_def
        split: if_splits option.splits list.splits prod.splits bool.splits)
next
  case (ins k)
  then show ?thesis using assms(2,3) renderEditor_viewport[OF assms(2)]
    by (auto simp: overlay_insert_key_def Let_def split: if_splits option.splits list.splits)
next
  case save
  then show ?thesis using saveEditorFile_viewport[OF assms(2,3)] by simp
next
  case browse
  then show ?thesis using assms(3)
    by (simp add: showFileBrowser_def screen_render_def viewport_ok_def)
next
  case (normal k s1 s2)
  have 1: "viewport_ok h s1"
    using normal(2) assms(3) renderEditor_viewport[OF assms(2)]
    by (auto simp: overlay_normal_switch_def Let_def viewport_ok_def[of h "tryCloseEditor _"]
        split: if_splits option.splits list.splits intro: viewport_same[OF _ _ assms(3)])
  have 2: "viewport_ok h s2"
    using normal(3) 1 renderEditor_viewport[OF assms(2)]
    by (auto simp: overlay_go_to_end_def split: if_splits)
  show ?thesis
    using normal(4) 2 renderEditor_viewport[OF assms(2)]
    by (auto simp: overlay_colon_def split: if_splits)
qed


subsection \<open>Evaluating runs\<close>

lemma render_eq:
  "regexp_safe s \<Longrightarrow> render h s = Running (screen_render
     (s\<lparr>scrollTop := scroll_into_view h (cursorRow s) (scrollTop s),
        cmdLine := (if mode s = Command then CHR '':'' # commandBuffer s
                    else if searchTerm s \<noteq> [] then CHR ''/'' # searchTerm s else [])\<rparr>))"
proof -
  assume a: "regexp_safe s"
  have "regexp_safe (s\<lparr>scrollTop := t\<rparr>)" for t
    using a by (simp add: regexp_safe_def)
  then show ?thesis
    by (simp add: render_def Let_def list_ex_iff highlight_safe)
qed

lemmas run_eval =
  press_def plain_def enter_key_def return_key_def escape_key_def colon_key_def
  keypress_def normal_mode_key_def normal_switch_def insert_mode_key_def command_mode_key_def
  go_to_end_def colon_def slash_def and_then_def render_eq regexp_safe_def screen_render_def
  scroll_into_view_def splice_insert_def splice_remove_def rel_index_def js_index_def
  slice_def slice_from_def Let_def

lemma fresh_start: "editorCommand None empty_disk 2 = Running fresh"
  by (simp add: editorCommand_def render_eq regexp_safe_def fresh_def screen_render_def scroll_into_view_def)


lemma keypress_d_single:
  assumes "mode s = Normal" "length (content s) = 1" "name k = Some ''d''"
    "keypress h ch (Some k) s = Running s'"
  shows "content s' = [[]]"
proof -
  have "normal_mode_key h ch k s = Running s'"
    using assms(1,4) by (simp add: keypress_def)
  from normal_mode_key_stages[OF this] assms(3) obtain s1 s2 s3 where
    st: "normal_switch h k s = Running s1" "go_to_end h k s1 = Running s2"
      "colon h ch s2 = Running s3" "slash ch s3 = Running s'" by auto
  have "content s1 = [[]]"
    using st(1) assms(2,3) by (auto simp: normal_switch_def dest!: render_content)
  moreover have "content s2 = content s1"
    using st(2) by (auto simp: go_to_end_def split: if_splits dest!: render_content)
  moreover have "content s3 = content s2"
    using st(3) by (auto simp: colon_def split: if_splits dest!: render_content)
  moreover have "content s' = content s3"
    using st(4) by (auto simp: slash_def split: if_splits)
  ultimately show ?thesis by simp
qed

lemma editorKeyHandler_d_single:
  assumes "mode t = Normal" "length (content t) = 1" "name k = Some ''d''"
    "\<not> overlay_blocked k t"
    "editorKeyHandler h ch (Some k) t = Running t'"
  shows "content t' = [[]]"
proof -
  have "and_then (and_then (overlay_normal_switch h k t) (overlay_go_to_end h k))
      (overlay_colon h ch) = Running t'"
    using assms(1,3,4,5) by (auto simp: editorKeyHandler_def overlay_blocked_def split: if_splits)
  then obtain s1 s2 where st: "overlay_normal_switch h k t = Running s1"
    "overlay_go_to_end h k s1 = Running s2" "overlay_colon h ch s2 = Running t'"
    by (blast dest: and_then_Running)
  have "content s1 = [[]]"
    using st(1) assms(2,3) by (auto simp: overlay_normal_switch_def)
  moreover have "content s2 = content s1"
    using st(2) by (auto simp: overlay_go_to_end_def split: if_splits)
  moreover have "content t' = content s2"
    using st(3) by (auto simp: overlay_colon_def split: if_splits)
  ultimately show ?thesis by simp
qed

text \<open>
  Claim C1. The buffer always has at least one line. In the standalone editor, from its
  start and after any sequence of events (keys, and the submit and cancel of the search
  box), the line array has at least one element, and \<open>d\<close> in the normal mode on a buffer
  of one line leaves the single empty line. In the overlay editor every key leaves a
  buffer with at least one line if it had one, and \<open>d\<close> on a buffer of one line leaves the
  single empty line there too.
\<close>

theorem buffer_never_empty:
  assumes "editorCommand file w h0 = Running s0" and "run evs s0 = Running s"
  shows "1 \<le> length (content s)
     \<and> (\<forall>h ch k s'. mode s = Normal \<and> length (content s) = 1 \<and> name k = Some ''d''
            \<and> keypress h ch (Some k) s = Running s' \<longrightarrow> content s' = [[]])
     \<and> (\<forall>h ch key t t'. 1 \<le> length (content t) \<and> editorKeyHandler h ch key t = Running t'
            \<longrightarrow> 1 \<le> length (content t'))
     \<and> (\<forall>h ch k t t'. mode t = Normal \<and> length (content t) = 1 \<and> name k = Some ''d''
            \<and> \<not> overlay_blocked k t \<and> editorKeyHandler h ch (Some k) t = Running t'
            \<longrightarrow> content t' = [[]])"
proof -
  have "0 < length (content s)"
    using run_nonempty[OF assms(2) editorCommand_nonempty[OF assms(1)]] .
  moreover have "1 \<le> length (content t')"
    if "1 \<le> length (content t)" "editorKeyHandler h ch key t = Running t'" for h ch key t t'
    using editorKeyHandler_nonempty[OF that(2)] that(1) by (simp add: Suc_le_eq)
  moreover note keypress_d_single [of s] editorKeyHandler_d_single
  ultimately show ?thesis by (simp add: Suc_le_eq) blast
qed


theorem buffer_never_empty_witness:
  "editorCommand None empty_disk 2 = Running fresh
   \<and> run [(2, press ''d'')] fresh = Running one_line_deleted
   \<and> 1 \<le> length (content one_line_deleted)
   \<and> holds_after (\<lambda>s. content s = [[]]) (keypress 2 (Some ''d'') (Some (plain ''d'')) one_line_deleted)
   \<and> holds_after (\<lambda>t. content t = [[]])
        (editorKeyHandler 5 (Some ''d'') (Some (plain ''d'')) overlay_fresh)"
proof -
  have h: "editorCommand None empty_disk 2 = Running fresh"
    "run [(2, press ''d'')] fresh = Running one_line_deleted"
    using fresh_start by (simp_all add: fresh_def one_line_deleted_def run_eval)
  obtain s' where s': "keypress 2 (Some ''d'') (Some (plain ''d'')) one_line_deleted = Running s'"
    by (simp add: one_line_deleted_def run_eval)
  obtain t' where t': "editorKeyHandler 5 (Some ''d'') (Some (plain ''d'')) overlay_fresh = Running t'"
    by (simp add: overlay_fresh_def ctrl_e_def editorKeyHandler_def overlay_normal_switch_def
        overlay_go_to_end_def overlay_colon_def renderEditor_def run_eval)
  have o: "mode overlay_fresh = Normal" "length (content overlay_fresh) = 1"
    "\<not> overlay_blocked (plain ''d'') overlay_fresh"
    by (simp_all add: overlay_fresh_def ctrl_e_def overlay_blocked_def plain_def renderEditor_def
        screen_render_def)
  have n: "mode one_line_deleted = Normal" "length (content one_line_deleted) = 1"
    "name (plain ''d'') = Some ''d''"
    by (simp_all add: one_line_deleted_def plain_def)
  from buffer_never_empty[OF h] have
    a: "1 \<le> length (content one_line_deleted)" and
    b: "content s' = [[]]" and c: "content t' = [[]]"
    using s' t' o n by blast+
  show ?thesis using h a b c s' t' by (simp add: holds_after_def)
qed


text \<open>
  Claim C2. After the viewport recomputation of the render function the cursor row is
  visible: \<open>scrollTop \<le> cursorRow \<le> scrollTop + height - 1\<close>, for a height of at least
  one. It holds after \<open>render\<close> of the standalone editor from any state, and an event of
  the standalone editor that does not render leaves it as it was; the same for
  \<open>renderEditor\<close> and the key handler of the overlay editor.
\<close>

theorem viewport_contains_cursor:
  assumes "1 \<le> h"
  shows "(\<forall>s s'. render h s = Running s' \<longrightarrow> viewport_ok h s')
       \<and> (\<forall>ev s s'. viewport_ok h s \<and> handle h ev s = Running s' \<longrightarrow> viewport_ok h s')
       \<and> (\<forall>t. viewport_ok h (renderEditor h t))
       \<and> (\<forall>ch key t t'. viewport_ok h t \<and> editorKeyHandler h ch key t = Running t'
             \<longrightarrow> viewport_ok h t')"
  using assms render_viewport handle_viewport renderEditor_viewport editorKeyHandler_viewport
  by blast


theorem viewport_contains_cursor_witness:
  "(1::int) \<le> 2
   \<and> holds_after (viewport_ok 2) (render 2 (three_down\<lparr>cursorRow := 0\<rparr>))
   \<and> viewport_ok 2 fresh \<and> holds_after (viewport_ok 2) (handle 2 (press ''o'') fresh)
   \<and> viewport_ok 2 (renderEditor 2 (overlay_fresh\<lparr>cursorRow := 3\<rparr>))
   \<and> viewport_ok 2 overlay_fresh
   \<and> holds_after (viewport_ok 2) (editorKeyHandler 2 (Some ''o'') (Some (plain ''o'')) overlay_fresh)"
proof -
  have h: "(1::int) \<le> 2" by simp
  obtain s1 where s1: "render 2 (three_down\<lparr>cursorRow := 0\<rparr>) = Running s1"
    by (simp add: three_down_def run_eval)
  obtain s2 where s2: "handle 2 (press ''o'') fresh = Running s2"
    by (simp add: fresh_def run_eval)
  obtain t2 where t2: "editorKeyHandler 2 (Some ''o'') (Some (plain ''o'')) overlay_fresh = Running t2"
    by (simp add: overlay_fresh_def ctrl_e_def editorKeyHandler_def overlay_normal_switch_def
        overlay_go_to_end_def overlay_colon_def renderEditor_def run_eval)
  have v: "viewport_ok 2 fresh" "viewport_ok 2 overlay_fresh"
    by (simp_all add: viewport_ok_def fresh_def overlay_fresh_def ctrl_e_def renderEditor_def
        screen_render_def scroll_into_view_def)
  from viewport_contains_cursor[OF h] have
    "viewport_ok 2 s1" "viewport_ok 2 s2" "viewport_ok 2 t2"
    "viewport_ok 2 (renderEditor 2 (overlay_fresh\<lparr>cursorRow := 3\<rparr>))"
    using s1 s2 t2 v by blast+
  then show ?thesis using s1 s2 t2 v by (simp add: holds_after_def)
qed





subsection \<open>\<open>findNext\<close> and the search as specified\<close>

lemma find_map: "List.find P (map f xs) = map_option f (List.find (P \<circ> f) xs)"
  by (induction xs) auto

lemma occurs_at_Cons: "occurs_at t (c # cs) (Suc j) = occurs_at t cs j"
  by (simp add: occurs_at_def)

lemma occurs_at_0: "occurs_at t l 0 = (take (length t) l = t)"
proof -
  have "length t \<le> length l" if "take (length t) l = t"
  proof -
    have "length (take (length t) l) = length t" using that by simp
    then show ?thesis by simp
  qed
  then show ?thesis by (auto simp: occurs_at_def)
qed

lemma upt_Suc_shift: "[0..<Suc (Suc n)] = 0 # map Suc [0..<Suc n]"
  by (subst upt_conv_Cons) (simp_all add: map_Suc_upt del: upt_Suc)

lemma find_at_spec:
  "find_at t l k = map_option (\<lambda>j. j + k) (List.find (occurs_at t l) [0..<Suc (length l)])"
proof (induction l arbitrary: k)
  case Nil
  then show ?case by (simp add: occurs_at_def)
next
  case (Cons c cs)
  show ?case
    unfolding length_Cons upt_Suc_shift
    by (simp add: occurs_at_0 find_map comp_def occurs_at_Cons Cons.IH option.map_comp
        del: upt_Suc)
qed

lemma find_from:
  assumes "k \<le> length l"
  shows "List.find (occurs_at t l) [k..<Suc (length l)]
       = map_option (\<lambda>j. j + k) (List.find (occurs_at t (drop k l)) [0..<Suc (length l - k)])"
proof -
  have 1: "[k..<Suc (length l)] = map (\<lambda>j. j + k) [0..<Suc (length l - k)]"
    using assms by (simp add: map_add_upt del: upt_Suc)
  have 2: "occurs_at t l \<circ> (\<lambda>j. j + k) = occurs_at t (drop k l)"
    using assms by (intro ext) (auto simp: occurs_at_def add.commute)
  show ?thesis unfolding 1 by (simp add: find_map 2 del: upt_Suc)
qed

lemma indexOf_spec:
  assumes "t \<noteq> []"
  shows "indexOf l t pos = (case first_occurrence t l (nat pos) of None \<Rightarrow> - 1 | Some j \<Rightarrow> int j)"
proof (cases "nat pos \<le> length l")
  case True
  then have k: "nat (min (max pos 0) (int (length l))) = nat pos" by auto
  show ?thesis
    unfolding indexOf_def Let_def k first_occurrence_def find_from[OF True] find_at_spec
    by (simp add: option.case_eq_if option.map_sel del: upt_Suc)
next
  case False
  then have k: "nat (min (max pos 0) (int (length l))) = length l" by auto
  have "first_occurrence t l (nat pos) = None"
    using False by (simp add: first_occurrence_def)
  then show ?thesis
    unfolding indexOf_def Let_def k using assms by simp
qed

lemma indexOf_found:
  "t \<noteq> [] \<Longrightarrow> first_occurrence t l (nat pos) = Some j \<Longrightarrow> indexOf l t pos = int j"
  "t \<noteq> [] \<Longrightarrow> first_occurrence t l (nat pos) = None \<Longrightarrow> indexOf l t pos = - 1"
  by (simp_all add: indexOf_spec)

lemma find_wrapped_spec:
  assumes "t \<noteq> []" "\<forall>n \<in> set ns. n < length ls"
  shows "find_wrapped ls t (map int ns)
       = Inr (map_option (\<lambda>(i, k). (int i, int k)) (first_row_with t ls ns))"
  using assms(2)
proof (induction ns)
  case Nil
  then show ?case by simp
next
  case (Cons n ns)
  then have n: "js_index ls (int n) = Some (ls ! n)" by (simp add: js_index_def)
  show ?case
  proof (cases "first_occurrence t (ls ! n) 0")
    case None
    then have "indexOf (ls ! n) t 0 = - 1" using indexOf_found(2)[OF assms(1), of "ls ! n" 0] by simp
    then show ?thesis using Cons None n by simp
  next
    case (Some j)
    then have "indexOf (ls ! n) t 0 = int j" using indexOf_found(1)[OF assms(1), of "ls ! n" 0 j] by simp
    then show ?thesis using Some n by simp
  qed
qed

lemma find_forward_rest:
  assumes "t \<noteq> []" "\<forall>n \<in> set ns. n < length ls \<and> int n \<noteq> row"
  shows "find_forward ls t row col (map int ns)
       = Inr (map_option (\<lambda>(i, k). (int i, int k)) (first_row_with t ls ns))"
  using assms(2)
proof (induction ns)
  case Nil
  then show ?case by simp
next
  case (Cons n ns)
  then have n: "js_index ls (int n) = Some (ls ! n)" "int n \<noteq> row" by (simp_all add: js_index_def)
  show ?case
  proof (cases "first_occurrence t (ls ! n) 0")
    case None
    then have "indexOf (ls ! n) t 0 = - 1" using indexOf_found(2)[OF assms(1), of "ls ! n" 0] by simp
    then show ?thesis using Cons None n by simp
  next
    case (Some j)
    then have "indexOf (ls ! n) t 0 = int j" using indexOf_found(1)[OF assms(1), of "ls ! n" 0 j] by simp
    then show ?thesis using Some n by simp
  qed
qed

lemma upto_nat: "[int a..int b - 1] = map int [a..<b]"
proof (induction b)
  case 0
  then show ?case by simp
next
  case (Suc b)
  show ?case
  proof (cases "a \<le> b")
    case True
    then have "[int a..int (Suc b) - 1] = [int a..int b - 1] @ [int b]"
      using upto_rec2[of "int a" "int b"] by simp
    then show ?thesis using Suc True by simp
  next
    case False
    then show ?thesis by simp
  qed
qed


lemma findNext_spec:
  assumes "searchTerm s \<noteq> []" "0 \<le> cursorRow s" "cursorRow s < int (length (content s))"
  shows "findNext h s =
     (case spec_next_match (content s) (searchTerm s) (nat (cursorRow s)) (cursorCol s) of
        None \<Rightarrow> Running s
      | Some (i, k) \<Rightarrow> render h (s\<lparr>cursorRow := int i, cursorCol := int k\<rparr>))"
proof -
  let ?ls = "content s" and ?t = "searchTerm s" and ?r = "nat (cursorRow s)"
  have r: "int ?r = cursorRow s" "?r < length ?ls" using assms(2,3) by auto
  have rows: "[cursorRow s..int (length ?ls) - 1] = int ?r # map int [Suc ?r..<length ?ls]"
    using upto_nat[of ?r "length ?ls"] r by (simp add: upt_conv_Cons)
  have wrap: "[0..cursorRow s] = map int [0..<Suc ?r]"
    using upto_nat[of 0 "Suc ?r"] r by (simp del: upt_Suc)
  have cur: "js_index ?ls (cursorRow s) = Some (?ls ! ?r)"
    using assms(2,3) by (simp add: js_index_def)
  have rest: "find_forward ?ls ?t (cursorRow s) (cursorCol s) (map int [Suc ?r..<length ?ls])
     = Inr (map_option (\<lambda>(i, k). (int i, int k)) (first_row_with ?t ?ls [Suc ?r..<length ?ls]))"
    using r by (intro find_forward_rest[OF assms(1)]) auto
  have wrapped: "find_wrapped ?ls ?t [0..cursorRow s]
     = Inr (map_option (\<lambda>(i, k). (int i, int k)) (first_row_with ?t ?ls [0..<Suc ?r]))"
    unfolding wrap using r by (intro find_wrapped_spec[OF assms(1)]) auto
  show ?thesis
  proof (cases "first_occurrence ?t (?ls ! ?r) (nat (cursorCol s + 1))")
    case (Some j)
    then have "indexOf (?ls ! ?r) ?t (cursorCol s + 1) = int j"
      using indexOf_found(1)[OF assms(1)] by simp
    then show ?thesis
      using Some assms(1) cur r by (simp add: findNext_def rows spec_next_match_def)
  next
    case None
    then have "indexOf (?ls ! ?r) ?t (cursorCol s + 1) = - 1"
      using indexOf_found(2)[OF assms(1)] by simp
    then have fwd: "find_forward ?ls ?t (cursorRow s) (cursorCol s) [cursorRow s..int (length ?ls) - 1]
       = Inr (map_option (\<lambda>(i, k). (int i, int k)) (first_row_with ?t ?ls [Suc ?r..<length ?ls]))"
      unfolding rows using cur r rest by simp
    show ?thesis
      using None assms(1)
      by (auto simp: findNext_def fwd wrapped spec_next_match_def split: option.splits)
  qed
qed

text \<open>
  With a search term that \<open>new RegExp\<close> accepts, \<open>n\<close> in the normal mode does what the
  specification says: it searches the current line from the column after the cursor, then
  the following lines in order, then wraps to line 0 and goes up to and including the
  cursor line, for the term as a substring. On a hit the cursor is at the start of the
  match; with no hit anywhere the state is unchanged. The example of the specification
  follows: lines foo, bar, foo, cursor (2,0), term foo, and the cursor ends at (0,0).
\<close>

lemma n_on_valid_pattern:
  assumes "mode s = Normal" and "name k = Some ''n''" and "ch = Some ''n''"
    and "searchTerm s \<noteq> []"
    and "0 \<le> cursorRow s" and "cursorRow s < int (length (content s))"
    and "regexp_safe s"
  shows "case spec_next_match (content s) (searchTerm s) (nat (cursorRow s)) (cursorCol s) of
           None \<Rightarrow> keypress h ch (Some k) s = Running s
         | Some (i, j) \<Rightarrow>
             (\<exists>s'. keypress h ch (Some k) s = Running s' \<and> cursorRow s' = int i
                \<and> cursorCol s' = int j \<and> content s' = content s \<and> searchTerm s' = searchTerm s)"
proof -
  have key: "keypress h ch (Some k) s = findNext h s"
  proof -
    have "and_then (and_then (and_then r (go_to_end h k)) (colon h ch)) (slash ch) = r"
      for r :: "session outcome"
      using assms(2,3) by (cases r) (simp_all add: and_then_def go_to_end_def colon_def slash_def)
    then show ?thesis
      using assms(1,2) by (simp add: keypress_def normal_mode_key_def normal_switch_def)
  qed
  show ?thesis
  proof (cases "spec_next_match (content s) (searchTerm s) (nat (cursorRow s)) (cursorCol s)")
    case None
    then show ?thesis using findNext_spec[OF assms(4,5,6), of h] key by simp
  next
    case (Some m)
    obtain i j where m: "m = (i, j)" by (cases m)
    have "regexp_safe (s\<lparr>cursorRow := int i, cursorCol := int j\<rparr>)"
      using assms(7) by (simp add: regexp_safe_def)
    then obtain s' where s': "render h (s\<lparr>cursorRow := int i, cursorCol := int j\<rparr>) = Running s'"
      using render_safe by blast
    have "keypress h ch (Some k) s = Running s'"
      using findNext_spec[OF assms(4,5,6), of h] key Some m s' by simp
    then show ?thesis using Some m render_Running[OF s'] by simp
  qed
qed

lemma n_on_foo_bar_foo:
  "mode foo_bar_foo = Normal \<and> name (plain ''n'') = Some ''n''
   \<and> content foo_bar_foo = [''foo'', ''bar'', ''foo'']
   \<and> cursorRow foo_bar_foo = 2 \<and> cursorCol foo_bar_foo = 0 \<and> searchTerm foo_bar_foo = ''foo''
   \<and> regexp_safe foo_bar_foo
   \<and> spec_next_match (content foo_bar_foo) ''foo'' 2 0 = Some (0, 0)
   \<and> (\<exists>s'. keypress 5 (Some ''n'') (Some (plain ''n'')) foo_bar_foo = Running s'
         \<and> cursorRow s' = 0 \<and> cursorCol s' = 0)"
proof -
  have h: "mode foo_bar_foo = Normal" "name (plain ''n'') = Some ''n''" "Some ''n'' = Some ''n''"
    "searchTerm foo_bar_foo \<noteq> []" "0 \<le> cursorRow foo_bar_foo"
    "cursorRow foo_bar_foo < int (length (content foo_bar_foo))" "regexp_safe foo_bar_foo"
    by (simp_all add: foo_bar_foo_def plain_def regexp_safe_def empty_disk_def)
  have sp: "spec_next_match (content foo_bar_foo) (searchTerm foo_bar_foo)
      (nat (cursorRow foo_bar_foo)) (cursorCol foo_bar_foo) = Some (0, 0)"
    by code_simp
  from n_on_valid_pattern[OF h, of 5] sp obtain s' where
    "keypress 5 (Some ''n'') (Some (plain ''n'')) foo_bar_foo = Running s'"
    "cursorRow s' = 0" "cursorCol s' = 0"
    by auto
  moreover have "spec_next_match (content foo_bar_foo) ''foo'' 2 0 = Some (0, 0)"
    using sp by (simp add: foo_bar_foo_def)
  ultimately show ?thesis
    using h(1,2,7) by (auto simp: foo_bar_foo_def)
qed

text \<open>
  Claim C8. \<open>n\<close> in the normal mode moves the cursor to the next occurrence of the search
  term, wrapping at the end of the buffer. The standalone editor does not do so for a
  search term that is not a regular expression: \<open>findNext\<close> finds the occurrence with
  \<open>indexOf\<close> and moves the cursor, then \<open>render\<close> highlights the term with
  \<open>new RegExp(searchTerm)\<close>, and that throws. In the run below the state before \<open>n\<close> has
  the lines \<open>a\<close> and \<open>(\<close>, the cursor at (0,0) and the term \<open>(\<close>; the search as specified
  gives (1,0); and \<open>n\<close> ends in a \<open>SyntaxError\<close> that nothing catches.
\<close>

theorem n_throws_on_parenthesis:
  "holds_after before_n (and_then (editorCommand None paren_disk 1) (run search_then_load))
   \<and> spec_next_match [''a'', ''(''] ''('' 0 0 = Some (1, 0)
   \<and> throws SyntaxError
        (and_then (editorCommand None paren_disk 1) (run (search_then_load @ [(1, press ''n'')])))"
  by code_simp

subsection \<open>Enter in the insert mode\<close>

lemma slice_take: "0 \<le> c \<Longrightarrow> c \<le> int (length l) \<Longrightarrow> slice l 0 c = take (nat c) l"
  by (simp add: slice_def rel_index_def)

lemma slice_from_drop: "0 \<le> c \<Longrightarrow> slice_from l c = drop (nat c) l"
  by (cases "nat c \<le> length l") (auto simp: slice_from_def rel_index_def min_def)

lemma enter_content:
  assumes "r < length ls"
  shows "splice_insert (ls[r := a]) (int r + 1) b = take r ls @ [a, b] @ drop (Suc r) ls"
proof -
  have "rel_index (length (ls[r := a])) (int r + 1) = Suc r"
    using assms by (simp add: rel_index_def)
  then show ?thesis
    using assms by (simp add: splice_insert_def take_Suc_conv_app_nth)
qed

lemma col_in_lineD:
  assumes "col_in_line s"
  shows "0 \<le> cursorRow s" "cursorRow s < int (length (content s))"
    "js_index (content s) (cursorRow s) = Some (content s ! nat (cursorRow s))"
    "0 \<le> cursorCol s" "cursorCol s \<le> int (length (content s ! nat (cursorRow s)))"
  using assms by (auto simp: col_in_line_def js_index_def split: if_splits)

lemma enter_state:
  assumes "col_in_line s"
  shows "splice_insert ((content s)[nat (cursorRow s) :=
            slice (content s ! nat (cursorRow s)) 0 (cursorCol s)])
          (cursorRow s + 1) (slice_from (content s ! nat (cursorRow s)) (cursorCol s))
       = split_line (content s) (nat (cursorRow s)) (nat (cursorCol s))"
proof -
  note d = col_in_lineD[OF assms]
  have "cursorRow s + 1 = int (nat (cursorRow s)) + 1" using d(1) by simp
  then show ?thesis
    using d enter_content[of "nat (cursorRow s)" "content s"]
    by (simp add: slice_take slice_from_drop split_line_def)
qed

text \<open>
  The event \<open>enter\<close> in the insert mode, with the cursor on a row of the buffer and
  \<open>0 \<le> col \<le> lines[row].length\<close>: the line is replaced by its part before \<open>col\<close>
  followed by its part from \<open>col\<close> on, the cursor goes to \<open>(row + 1, 0)\<close> and \<open>modified\<close>
  is set; so in the standalone editor and in the overlay editor.
\<close>

lemma enter_event_splits_line:
  assumes "name k = Some ''enter''"
  shows "(\<forall>s. mode s = Insert \<and> col_in_line s \<and> regexp_safe s \<longrightarrow>
            (\<exists>s'. keypress h ch (Some k) s = Running s'
               \<and> content s' = split_line (content s) (nat (cursorRow s)) (nat (cursorCol s))
               \<and> cursorRow s' = cursorRow s + 1 \<and> cursorCol s' = 0 \<and> modified s'))
       \<and> (\<forall>t. mode t = Insert \<and> col_in_line t \<and> \<not> overlay_blocked k t \<longrightarrow>
            (\<exists>t'. editorKeyHandler h ch (Some k) t = Running t'
               \<and> content t' = split_line (content t) (nat (cursorRow t)) (nat (cursorCol t))
               \<and> cursorRow t' = cursorRow t + 1 \<and> cursorCol t' = 0 \<and> modified t'))"
proof (intro conjI allI impI)
  fix s :: session
  assume a: "mode s = Insert \<and> col_in_line s \<and> regexp_safe s"
  let ?next = "s\<lparr>content := split_line (content s) (nat (cursorRow s)) (nat (cursorCol s)),
    cursorRow := cursorRow s + 1, cursorCol := 0, modified := True\<rparr>"
  have "regexp_safe ?next" using a by (simp add: regexp_safe_def)
  then obtain s' where s': "render h ?next = Running s'" using render_safe by blast
  have "keypress h ch (Some k) s = Running s'"
    using a assms s' col_in_lineD(3)[of s] enter_state[of s]
    by (simp add: keypress_def insert_mode_key_def)
  then show "\<exists>s'. keypress h ch (Some k) s = Running s'
      \<and> content s' = split_line (content s) (nat (cursorRow s)) (nat (cursorCol s))
      \<and> cursorRow s' = cursorRow s + 1 \<and> cursorCol s' = 0 \<and> modified s'"
    using render_Running[OF s'] by simp
next
  fix t :: overlay
  assume a: "mode t = Insert \<and> col_in_line t \<and> \<not> overlay_blocked k t"
  then show "\<exists>t'. editorKeyHandler h ch (Some k) t = Running t'
      \<and> content t' = split_line (content t) (nat (cursorRow t)) (nat (cursorCol t))
      \<and> cursorRow t' = cursorRow t + 1 \<and> cursorCol t' = 0 \<and> modified t'"
    using assms col_in_lineD(3)[of t] enter_state[of t]
    by (simp add: editorKeyHandler_def overlay_blocked_def overlay_insert_key_def)
qed

lemma enter_event_on_hello_world:
  "name (plain ''enter'') = Some ''enter''
   \<and> mode hello_world = Insert \<and> content hello_world = [''hello world'']
   \<and> cursorRow hello_world = 0 \<and> cursorCol hello_world = 5 \<and> regexp_safe hello_world
   \<and> (\<exists>s'. keypress 5 (Some [CHR 0x0D]) (Some (plain ''enter'')) hello_world = Running s'
         \<and> content s' = [''hello'', '' world''] \<and> cursorRow s' = 1 \<and> cursorCol s' = 0
         \<and> modified s')
   \<and> mode overlay_hello_world = Insert \<and> content overlay_hello_world = [''hello world'']
   \<and> cursorRow overlay_hello_world = 0 \<and> cursorCol overlay_hello_world = 5
   \<and> (\<exists>t'. editorKeyHandler 5 (Some [CHR 0x0D]) (Some (plain ''enter'')) overlay_hello_world
           = Running t'
         \<and> content t' = [''hello'', '' world''] \<and> cursorRow t' = 1 \<and> cursorCol t' = 0
         \<and> modified t')"
proof -
  have k: "name (plain ''enter'') = Some ''enter''" by (simp add: plain_def)
  have s: "mode hello_world = Insert" "col_in_line hello_world" "regexp_safe hello_world"
    "content hello_world = [''hello world'']" "cursorRow hello_world = 0"
    "cursorCol hello_world = 5"
    by (simp_all add: hello_world_def col_in_line_def js_index_def regexp_safe_def)
  have t: "mode overlay_hello_world = Insert" "col_in_line overlay_hello_world"
    "\<not> overlay_blocked (plain ''enter'') overlay_hello_world"
    "content overlay_hello_world = [''hello world'']" "cursorRow overlay_hello_world = 0"
    "cursorCol overlay_hello_world = 5"
    by (simp_all add: overlay_hello_world_def overlay_fresh_def ctrl_e_def renderEditor_def
        screen_render_def col_in_line_def js_index_def overlay_blocked_def plain_def
        scroll_into_view_def)
  have sp: "split_line [''hello world''] 0 5 = [''hello'', '' world'']"
    by (simp add: split_line_def)
  note inst = enter_event_splits_line[OF k, of 5 "Some [CHR 0x0D]"]
  from inst s(1-3) obtain s' where
    "keypress 5 (Some [CHR 0x0D]) (Some (plain ''enter'')) hello_world = Running s'"
    "content s' = split_line (content hello_world) (nat (cursorRow hello_world))
       (nat (cursorCol hello_world))"
    "cursorRow s' = cursorRow hello_world + 1" "cursorCol s' = 0" "modified s'"
    by blast
  moreover from inst t(1-3) obtain t' where
    "editorKeyHandler 5 (Some [CHR 0x0D]) (Some (plain ''enter'')) overlay_hello_world = Running t'"
    "content t' = split_line (content overlay_hello_world) (nat (cursorRow overlay_hello_world))
       (nat (cursorCol overlay_hello_world))"
    "cursorRow t' = cursorRow overlay_hello_world + 1" "cursorCol t' = 0" "modified t'"
    by blast
  ultimately show ?thesis
    using k s t sp by auto
qed

text \<open>
  Claim C9. Enter in the insert mode splits the line at the column and moves the cursor
  to the start of the new line. In the standalone editor a press of Enter does more. Its
  first event splits the line; its second event, \<open>return\<close> with a carriage return as its
  character, reaches the branch that inserts a typed character, and that branch has no
  test for a carriage return (the overlay editor has one). Started on a file with the
  line \<open>hello world\<close>, five times \<open>l\<close> and then \<open>i\<close> bring the cursor to (0,5) in the insert
  mode; the first event of Enter gives the lines \<open>hello\<close> and \<open> world\<close> with the cursor at
  (1,0); after the second event the second line starts with a carriage return and the
  cursor is at (1,1). The same press in the overlay editor leaves \<open>hello\<close> and \<open> world\<close>
  with the cursor at (1,0).
\<close>

theorem enter_inserts_carriage_return:
  "holds_after before_enter
     (and_then (editorCommand (Some ''hello.txt'') hello_disk 5) (run to_column_5))
   \<and> holds_after split_at_5
     (and_then (editorCommand (Some ''hello.txt'') hello_disk 5)
        (run (to_column_5 @ [(5, enter_key)])))
   \<and> holds_after carriage_return_inserted
     (and_then (editorCommand (Some ''hello.txt'') hello_disk 5)
        (run (to_column_5 @ [(5, enter_key), (5, return_key)])))
   \<and> holds_after split_at_5
     (overlay_run [(5, Some [CHR 0x0D], Some (plain ''enter'')),
                   (5, Some [CHR 0x0D], Some (plain ''return''))] overlay_hello_world)"
  by code_simp

subsection \<open>Committed commands\<close>

lemma commit_standalone:
  "mode s = Command \<Longrightarrow> name k = Some ''enter'' \<Longrightarrow>
   keypress h ch (Some k) s = executeCommand h (commandBuffer s) s"
  by (simp add: keypress_def command_mode_key_def)

lemma commit_overlay:
  "mode t = Command \<Longrightarrow> name k = Some ''enter'' \<Longrightarrow> \<not> overlay_blocked k t \<Longrightarrow>
   editorKeyHandler h ch (Some k) t = executeEditorCommand h (commandBuffer t) t"
  by (auto simp: editorKeyHandler_def overlay_blocked_def overlay_command_key_def)

lemma after_switch_message:
  assumes "regexp_safe s"
  shows "\<exists>s'. after_switch h (screen_render (s\<lparr>cmdLine := msg\<rparr>)) = Running s'
     \<and> shown s' = shown s @ [msg, cmdLine s'] \<and> content s' = content s
     \<and> modified s' = modified s \<and> disk s' = disk s \<and> filename s' = filename s
     \<and> cursorRow s' = cursorRow s \<and> cursorCol s' = cursorCol s \<and> mode s' = Normal"
proof -
  let ?m = "(screen_render (s\<lparr>cmdLine := msg\<rparr>))\<lparr>mode := Normal, commandBuffer := []\<rparr>"
  have "regexp_safe ?m" using assms by (simp add: regexp_safe_def)
  then obtain s' where s': "render h ?m = Running s'" using render_safe by blast
  show ?thesis
    using render_Running[OF s'] s' by (simp add: after_switch_def)
qed

lemma saveFile_fails:
  assumes "filename s \<noteq> []"
    and "writeFileSync (disk s) (filename s) (join (CHR 0x0A) (content s)) = None"
  shows "saveFile s = (False, screen_render (s\<lparr>cmdLine := ''{red-fg}Error saving file{/red-fg}''\<rparr>))"
  using assms by (simp add: saveFile_def)

lemma saveEditorFile_fails:
  assumes "filename t \<noteq> []"
    and "writeFileSync (disk t) (filename t) (join (CHR 0x0A) (content t)) = None"
  shows "saveEditorFile None h t
       = (False, screen_render (t\<lparr>cmdLine := ''{red-fg}Error saving{/red-fg}''\<rparr>))"
  using assms by (simp add: saveEditorFile_def)

lemma failed_save_standalone:
  assumes "command = ''w'' \<or> command = ''wq''"
    and "split (CHR '' '') (trim cmd) = command # rest"
    and "save_target command rest s \<noteq> []"
    and "writeFileSync (disk s) (save_target command rest s) (join (CHR 0x0A) (content s)) = None"
    and "regexp_safe s"
  shows "\<exists>s'. executeCommand h cmd s = Running s' \<and> content s' = content s
     \<and> modified s' = modified s \<and> disk s' = disk s
     \<and> filename s' = save_target command rest s
     \<and> shown s' = shown s @ [''{red-fg}Error saving file{/red-fg}'', cmdLine s']"
proof -
  let ?s = "s\<lparr>filename := save_target command rest s\<rparr>"
  have f: "saveFile ?s = (False, screen_render (?s\<lparr>cmdLine := ''{red-fg}Error saving file{/red-fg}''\<rparr>))"
    using assms(3,4) by (intro saveFile_fails) simp_all
  have same: "command = ''wq'' \<or> join (CHR '' '') rest = [] \<Longrightarrow> ?s = s"
    by (auto simp: save_target_def)
  have "executeCommand h cmd s
      = after_switch h (screen_render (?s\<lparr>cmdLine := ''{red-fg}Error saving file{/red-fg}''\<rparr>))"
  proof (cases "command = ''w''")
    case True
    show ?thesis
    proof (cases "join (CHR '' '') rest = []")
      case True
      then show ?thesis
        using \<open>command = ''w''\<close> assms(2) f same by (simp add: executeCommand_def)
    next
      case False
      then show ?thesis
        using \<open>command = ''w''\<close> assms(2) f by (simp add: executeCommand_def save_target_def)
    qed
  next
    case False
    then have "command = ''wq''" using assms(1) by simp
    then show ?thesis using assms(2) f same by (simp add: executeCommand_def)
  qed
  moreover have "regexp_safe ?s" using assms(5) by (simp add: regexp_safe_def)
  ultimately show ?thesis
    using after_switch_message[of ?s h "''{red-fg}Error saving file{/red-fg}''"] by auto
qed

lemma failed_save_overlay:
  assumes "command = ''w'' \<or> command = ''wq''"
    and "split (CHR '' '') (trim cmd) = command # rest"
    and "save_target command rest t \<noteq> []"
    and "writeFileSync (disk t) (save_target command rest t) (join (CHR 0x0A) (content t)) = None"
  shows "\<exists>t'. executeEditorCommand h cmd t = Running t' \<and> content t' = content t
     \<and> modified t' = modified t \<and> disk t' = disk t \<and> editorOpen t' = editorOpen t
     \<and> filename t' = save_target command rest t
     \<and> shown t' = shown t @ [''{red-fg}Error saving{/red-fg}'', cmdLine t']"
proof -
  let ?t = "t\<lparr>filename := save_target command rest t\<rparr>"
  have f: "saveEditorFile None h ?t
      = (False, screen_render (?t\<lparr>cmdLine := ''{red-fg}Error saving{/red-fg}''\<rparr>))"
    using assms(3,4) by (intro saveEditorFile_fails) simp_all
  have same: "command = ''wq'' \<or> join (CHR '' '') rest = [] \<Longrightarrow> ?t = t"
    by (auto simp: save_target_def)
  have "executeEditorCommand h cmd t = Running (renderEditor h
      ((screen_render (?t\<lparr>cmdLine := ''{red-fg}Error saving{/red-fg}''\<rparr>))
         \<lparr>mode := Normal, commandBuffer := []\<rparr>))"
  proof (cases "command = ''w''")
    case True
    show ?thesis
    proof (cases "join (CHR '' '') rest = []")
      case True
      then show ?thesis
        using \<open>command = ''w''\<close> assms(2) f same by (simp add: executeEditorCommand_def)
    next
      case False
      then show ?thesis
        using \<open>command = ''w''\<close> assms(2) f by (simp add: executeEditorCommand_def save_target_def)
    qed
  next
    case False
    then have "command = ''wq''" using assms(1) by simp
    then show ?thesis using assms(2) f same by (simp add: executeEditorCommand_def)
  qed
  then show ?thesis by (simp add: renderEditor_def screen_render_def)
qed

lemma parse_w: "split (CHR '' '') (trim ''w'') = ''w'' # []"
  by (simp add: trim_def is_space_def)

lemma saved_standalone:
  assumes "filename s \<noteq> []" and "writable (disk s) (filename s)"
    and "files (disk s) (filename s) \<noteq> Some Directory" and "regexp_safe s"
  shows "\<exists>s'. executeCommand h ''w'' s = Running s'
     \<and> files (disk s') (filename s) = Some (File (join (CHR 0x0A) (content s)))
     \<and> \<not> modified s' \<and> filename s' = filename s"
proof -
  let ?d = "(disk s)\<lparr>files := (files (disk s))(filename s \<mapsto> File (join (CHR 0x0A) (content s)))\<rparr>"
  let ?saved = "screen_render (s\<lparr>disk := ?d, modified := False,
      cmdLine := ''{green-fg}Saved: '' @ filename s @ ''{/green-fg}''\<rparr>)"
  have sv: "saveFile s = (True, ?saved)"
    using assms(1-3) by (simp add: saveFile_def writeFileSync_def)
  have "regexp_safe (?saved\<lparr>mode := Normal, commandBuffer := []\<rparr>)"
    using assms(4) by (simp add: regexp_safe_def)
  then obtain s' where s': "render h (?saved\<lparr>mode := Normal, commandBuffer := []\<rparr>) = Running s'"
    using render_safe by blast
  have "executeCommand h ''w'' s = Running s'"
    unfolding executeCommand_w[OF parse_w] using sv s' by (simp add: after_switch_def)
  then show ?thesis using render_Running[OF s'] by simp
qed

lemma saved_overlay:
  assumes "filename t \<noteq> []" and "writable (disk t) (filename t)"
    and "files (disk t) (filename t) \<noteq> Some Directory"
  shows "\<exists>t'. executeEditorCommand h ''w'' t = Running t'
     \<and> files (disk t') (filename t) = Some (File (join (CHR 0x0A) (content t)))
     \<and> \<not> modified t' \<and> filename t' = filename t"
proof -
  have "executeEditorCommand h ''w'' t
     = Running (renderEditor h ((snd (saveEditorFile None h t))\<lparr>mode := Normal, commandBuffer := []\<rparr>))"
    by (simp add: executeEditorCommand_def trim_def is_space_def)
  then show ?thesis
    using assms by (simp add: saveEditorFile_def writeFileSync_def renderEditor_def screen_render_def)
qed

text \<open>
  Claim C3, as stated: committing \<open>q\<close> closes the session if and only if \<open>modified\<close> is
  false. It fails in the overlay editor: after \<open>d\<close> on the empty buffer the buffer is
  modified and blank, and \<open>:q\<close> followed by Enter closes the editor.
\<close>

theorem overlay_q_closes_modified:
  "holds_after closed_while_modified
     (overlay_run [(5, Some ''d'', Some (plain ''d'')), (5, Some '':'', Some no_name),
                   (5, Some ''q'', Some (plain ''q'')), (5, Some [CHR 0x0D], Some (plain ''enter'')),
                   (5, Some [CHR 0x0D], Some (plain ''return''))]
        overlay_fresh)"
  by code_simp


text \<open>
  Claim C3, amended. In the standalone editor, committing \<open>q\<close> ends the process if
  \<open>modified\<close> is false; if it is true the editor goes on, the message about unsaved
  changes is drawn once on the command line, and buffer and flag are as before; \<open>q!\<close> ends
  the process whatever the flag. In the overlay editor, committing \<open>q\<close> closes the editor
  unless the buffer is modified and has content (more than one line, or one line that is
  not blank); in that case the editor stays open behind a confirmation box; \<open>q!\<close> closes
  it whatever the flag.
\<close>

theorem quit_commands:
  assumes "name k = Some ''enter''"
  shows "(\<forall>s rest. mode s = Command \<and> split (CHR '' '') (trim (commandBuffer s)) = ''q'' # rest
             \<and> \<not> modified s \<longrightarrow> keypress h ch (Some k) s = Exited (disk s))
       \<and> (\<forall>s rest. mode s = Command \<and> split (CHR '' '') (trim (commandBuffer s)) = ''q'' # rest
             \<and> modified s \<and> regexp_safe s \<longrightarrow>
             (\<exists>s'. keypress h ch (Some k) s = Running s'
                \<and> shown s' = shown s @
                     [''{red-fg}Unsaved changes! Use :q! to force quit{/red-fg}'', cmdLine s']
                \<and> modified s' \<and> content s' = content s))
       \<and> (\<forall>s rest. mode s = Command \<and> split (CHR '' '') (trim (commandBuffer s)) = ''q!'' # rest
             \<longrightarrow> keypress h ch (Some k) s = Exited (disk s))
       \<and> (\<forall>t rest. mode t = Command \<and> \<not> overlay_blocked k t
             \<and> split (CHR '' '') (trim (commandBuffer t)) = ''q'' # rest \<longrightarrow>
             (\<exists>t'. editorKeyHandler h ch (Some k) t = Running t'
                \<and> editorOpen t' = (modified t \<and> hasContent t)
                \<and> dialogOpen t' = (modified t \<and> hasContent t)
                \<and> (modified t \<and> hasContent t \<longrightarrow> popups t' = popups t @ [ConfirmBox])
                \<and> modified t' = modified t \<and> content t' = content t))
       \<and> (\<forall>t rest. mode t = Command \<and> \<not> overlay_blocked k t
             \<and> split (CHR '' '') (trim (commandBuffer t)) = ''q!'' # rest \<longrightarrow>
             (\<exists>t'. editorKeyHandler h ch (Some k) t = Running t' \<and> \<not> editorOpen t'))"
proof (intro conjI allI impI)
  fix s :: session and rest
  assume "mode s = Command \<and> split (CHR '' '') (trim (commandBuffer s)) = ''q'' # rest \<and> \<not> modified s"
  then show "keypress h ch (Some k) s = Exited (disk s)"
    using assms by (simp add: commit_standalone executeCommand_def)
next
  fix s :: session and rest
  assume a: "mode s = Command \<and> split (CHR '' '') (trim (commandBuffer s)) = ''q'' # rest
    \<and> modified s \<and> regexp_safe s"
  then have "keypress h ch (Some k) s = after_switch h (screen_render
      (s\<lparr>cmdLine := ''{red-fg}Unsaved changes! Use :q! to force quit{/red-fg}''\<rparr>))"
    using assms by (simp add: commit_standalone executeCommand_def)
  then show "\<exists>s'. keypress h ch (Some k) s = Running s'
      \<and> shown s' = shown s @
           [''{red-fg}Unsaved changes! Use :q! to force quit{/red-fg}'', cmdLine s']
      \<and> modified s' \<and> content s' = content s"
    using after_switch_message[of s h "''{red-fg}Unsaved changes! Use :q! to force quit{/red-fg}''"] a
    by auto
next
  fix s :: session and rest
  assume "mode s = Command \<and> split (CHR '' '') (trim (commandBuffer s)) = ''q!'' # rest"
  then show "keypress h ch (Some k) s = Exited (disk s)"
    using assms by (simp add: commit_standalone executeCommand_def)
next
  fix t :: overlay and rest
  assume a: "mode t = Command \<and> \<not> overlay_blocked k t
    \<and> split (CHR '' '') (trim (commandBuffer t)) = ''q'' # rest"
  then have o: "editorOpen t" "\<not> dialogOpen t" by (auto simp: overlay_blocked_def)
  have "editorKeyHandler h ch (Some k) t
      = Running (renderEditor h ((tryCloseEditor t)\<lparr>mode := Normal, commandBuffer := []\<rparr>))"
    using a assms by (simp add: commit_overlay executeEditorCommand_def)
  then show "\<exists>t'. editorKeyHandler h ch (Some k) t = Running t'
      \<and> editorOpen t' = (modified t \<and> hasContent t)
      \<and> dialogOpen t' = (modified t \<and> hasContent t)
      \<and> (modified t \<and> hasContent t \<longrightarrow> popups t' = popups t @ [ConfirmBox])
      \<and> modified t' = modified t \<and> content t' = content t"
    using o
    by (simp add: tryCloseEditor_def closeEditor_def renderEditor_def screen_render_def Let_def)
next
  fix t :: overlay and rest
  assume a: "mode t = Command \<and> \<not> overlay_blocked k t
    \<and> split (CHR '' '') (trim (commandBuffer t)) = ''q!'' # rest"
  then show "\<exists>t'. editorKeyHandler h ch (Some k) t = Running t' \<and> \<not> editorOpen t'"
    using assms by (simp add: commit_overlay executeEditorCommand_def)
qed


theorem quit_commands_witness:
  "name (plain ''enter'') = Some ''enter''
   \<and> \<not> modified saved_q
   \<and> keypress 5 (Some [CHR 0x0D]) (Some (plain ''enter'')) saved_q = Exited empty_disk
   \<and> modified unsaved_q
   \<and> (\<exists>s'. keypress 5 (Some [CHR 0x0D]) (Some (plain ''enter'')) unsaved_q = Running s'
         \<and> shown s' = [''{red-fg}Unsaved changes! Use :q! to force quit{/red-fg}'', []]
         \<and> modified s' \<and> content s' = [''ab'', ''cd''])
   \<and> keypress 5 (Some [CHR 0x0D]) (Some (plain ''enter'')) (unsaved_q\<lparr>commandBuffer := ''q!''\<rparr>)
       = Exited empty_disk
   \<and> modified overlay_unsaved_q \<and> hasContent overlay_unsaved_q
   \<and> (\<exists>t'. editorKeyHandler 5 (Some [CHR 0x0D]) (Some (plain ''enter'')) overlay_unsaved_q
           = Running t'
         \<and> editorOpen t' \<and> dialogOpen t' \<and> popups t' = [ConfirmBox] \<and> modified t')
   \<and> (\<exists>t'. editorKeyHandler 5 (Some [CHR 0x0D]) (Some (plain ''enter''))
           (overlay_unsaved_q\<lparr>commandBuffer := ''q!''\<rparr>) = Running t'
         \<and> \<not> editorOpen t')"
proof -
  have k: "name (plain ''enter'') = Some ''enter''" by (simp add: plain_def)
  note inst = quit_commands[OF k, of 5 "Some [CHR 0x0D]"]
  have q: "split (CHR '' '') (trim ''q'') = ''q'' # []" "split (CHR '' '') (trim ''q!'') = ''q!'' # []"
    by (simp_all add: trim_def is_space_def)
  have s1: "mode saved_q = Command" "split (CHR '' '') (trim (commandBuffer saved_q)) = ''q'' # []"
    "\<not> modified saved_q" "disk saved_q = empty_disk"
    using q by (simp_all add: saved_q_def fresh_def)
  have s2: "mode unsaved_q = Command"
    "split (CHR '' '') (trim (commandBuffer unsaved_q)) = ''q'' # []"
    "modified unsaved_q" "regexp_safe unsaved_q" "shown unsaved_q = []"
    "content unsaved_q = [''ab'', ''cd'']"
    using q by (simp_all add: unsaved_q_def two_lines_def regexp_safe_def)
  have s3: "mode (unsaved_q\<lparr>commandBuffer := ''q!''\<rparr>) = Command"
    "split (CHR '' '') (trim (commandBuffer (unsaved_q\<lparr>commandBuffer := ''q!''\<rparr>))) = ''q!'' # []"
    "disk (unsaved_q\<lparr>commandBuffer := ''q!''\<rparr>) = empty_disk"
    using q by (simp_all add: unsaved_q_def two_lines_def)
  have t1: "mode overlay_unsaved_q = Command" "\<not> overlay_blocked (plain ''enter'') overlay_unsaved_q"
    "split (CHR '' '') (trim (commandBuffer overlay_unsaved_q)) = ''q'' # []"
    "modified overlay_unsaved_q" "hasContent overlay_unsaved_q" "popups overlay_unsaved_q = []"
    using q by (simp_all add: overlay_unsaved_q_def overlay_fresh_def ctrl_e_def renderEditor_def
        screen_render_def overlay_blocked_def plain_def hasContent_def)
  have t2: "mode (overlay_unsaved_q\<lparr>commandBuffer := ''q!''\<rparr>) = Command"
    "\<not> overlay_blocked (plain ''enter'') (overlay_unsaved_q\<lparr>commandBuffer := ''q!''\<rparr>)"
    "split (CHR '' '') (trim (commandBuffer (overlay_unsaved_q\<lparr>commandBuffer := ''q!''\<rparr>)))
       = ''q!'' # []"
    using q by (simp_all add: overlay_unsaved_q_def overlay_fresh_def ctrl_e_def renderEditor_def
        screen_render_def overlay_blocked_def plain_def)
  from inst s1 have a: "keypress 5 (Some [CHR 0x0D]) (Some (plain ''enter'')) saved_q
      = Exited empty_disk"
    by metis
  from inst s2(1-4) obtain s' where b:
    "keypress 5 (Some [CHR 0x0D]) (Some (plain ''enter'')) unsaved_q = Running s'"
    "shown s' = shown unsaved_q @
       [''{red-fg}Unsaved changes! Use :q! to force quit{/red-fg}'', cmdLine s']"
    "modified s'" "content s' = content unsaved_q"
    by blast
  have b': "cmdLine s' = []"
    using b(1) s2(1,2,3,4) k
    by (auto simp: commit_standalone executeCommand_def after_switch_def render_eq regexp_safe_def
        unsaved_q_def two_lines_def)
  from inst s3 have c: "keypress 5 (Some [CHR 0x0D]) (Some (plain ''enter''))
      (unsaved_q\<lparr>commandBuffer := ''q!''\<rparr>) = Exited empty_disk"
    by metis
  from inst t1(1-3) obtain t' where d:
    "editorKeyHandler 5 (Some [CHR 0x0D]) (Some (plain ''enter'')) overlay_unsaved_q = Running t'"
    "editorOpen t' = (modified overlay_unsaved_q \<and> hasContent overlay_unsaved_q)"
    "dialogOpen t' = (modified overlay_unsaved_q \<and> hasContent overlay_unsaved_q)"
    "modified overlay_unsaved_q \<and> hasContent overlay_unsaved_q
       \<longrightarrow> popups t' = popups overlay_unsaved_q @ [ConfirmBox]"
    "modified t' = modified overlay_unsaved_q"
    by blast
  from inst t2 obtain t'' where e:
    "editorKeyHandler 5 (Some [CHR 0x0D]) (Some (plain ''enter''))
       (overlay_unsaved_q\<lparr>commandBuffer := ''q!''\<rparr>) = Running t''" "\<not> editorOpen t''"
    by blast
  show ?thesis
    using k a b b' c d e s1(3) s2(3,5,6) t1(4,5,6) by auto
qed


text \<open>
  Claim C5. When the write of \<open>w\<close> or \<open>wq\<close> fails, the buffer and the modified flag are
  as before, the file system is untouched, the error is drawn on the command line, and
  the editor goes on: the standalone editor keeps running and the overlay editor stays
  open.
\<close>

theorem failed_save_keeps_buffer:
  assumes "name k = Some ''enter''" and "command = ''w'' \<or> command = ''wq''"
  shows "(\<forall>s rest. mode s = Command
            \<and> split (CHR '' '') (trim (commandBuffer s)) = command # rest
            \<and> save_target command rest s \<noteq> []
            \<and> writeFileSync (disk s) (save_target command rest s) (join (CHR 0x0A) (content s)) = None
            \<and> regexp_safe s \<longrightarrow>
            (\<exists>s'. keypress h ch (Some k) s = Running s' \<and> content s' = content s
               \<and> modified s' = modified s \<and> disk s' = disk s
               \<and> shown s' = shown s @ [''{red-fg}Error saving file{/red-fg}'', cmdLine s']))
       \<and> (\<forall>t rest. mode t = Command \<and> \<not> overlay_blocked k t
            \<and> split (CHR '' '') (trim (commandBuffer t)) = command # rest
            \<and> save_target command rest t \<noteq> []
            \<and> writeFileSync (disk t) (save_target command rest t) (join (CHR 0x0A) (content t)) = None
            \<longrightarrow>
            (\<exists>t'. editorKeyHandler h ch (Some k) t = Running t' \<and> content t' = content t
               \<and> modified t' = modified t \<and> disk t' = disk t \<and> editorOpen t'
               \<and> shown t' = shown t @ [''{red-fg}Error saving{/red-fg}'', cmdLine t']))"
proof (intro conjI allI impI)
  fix s :: session and rest
  assume a: "mode s = Command
    \<and> split (CHR '' '') (trim (commandBuffer s)) = command # rest
    \<and> save_target command rest s \<noteq> []
    \<and> writeFileSync (disk s) (save_target command rest s) (join (CHR 0x0A) (content s)) = None
    \<and> regexp_safe s"
  then have "keypress h ch (Some k) s = executeCommand h (commandBuffer s) s"
    using assms(1) by (simp add: commit_standalone)
  then show "\<exists>s'. keypress h ch (Some k) s = Running s' \<and> content s' = content s
      \<and> modified s' = modified s \<and> disk s' = disk s
      \<and> shown s' = shown s @ [''{red-fg}Error saving file{/red-fg}'', cmdLine s']"
    using failed_save_standalone[OF assms(2), of "commandBuffer s" rest s h] a by auto
next
  fix t :: overlay and rest
  assume a: "mode t = Command \<and> \<not> overlay_blocked k t
    \<and> split (CHR '' '') (trim (commandBuffer t)) = command # rest
    \<and> save_target command rest t \<noteq> []
    \<and> writeFileSync (disk t) (save_target command rest t) (join (CHR 0x0A) (content t)) = None"
  then have "editorKeyHandler h ch (Some k) t = executeEditorCommand h (commandBuffer t) t"
    and "editorOpen t"
    using assms(1) by (simp_all add: commit_overlay overlay_blocked_def)
  then show "\<exists>t'. editorKeyHandler h ch (Some k) t = Running t' \<and> content t' = content t
      \<and> modified t' = modified t \<and> disk t' = disk t \<and> editorOpen t'
      \<and> shown t' = shown t @ [''{red-fg}Error saving{/red-fg}'', cmdLine t']"
    using failed_save_overlay[OF assms(2), of "commandBuffer t" rest t h] a by auto
qed


theorem failed_save_keeps_buffer_witness:
  "name (plain ''enter'') = Some ''enter''
   \<and> mode locked_w = Command \<and> commandBuffer locked_w = ''w f''
   \<and> writeFileSync (disk locked_w) ''f'' (join (CHR 0x0A) (content locked_w)) = None
   \<and> modified locked_w
   \<and> (\<exists>s'. keypress 5 (Some [CHR 0x0D]) (Some (plain ''enter'')) locked_w = Running s'
         \<and> content s' = [''ab'', ''cd''] \<and> modified s' \<and> disk s' = locked_disk
         \<and> shown s' = [''{red-fg}Error saving file{/red-fg}'', cmdLine s'])
   \<and> mode overlay_locked_w = Command \<and> modified overlay_locked_w
   \<and> (\<exists>t'. editorKeyHandler 5 (Some [CHR 0x0D]) (Some (plain ''enter'')) overlay_locked_w
           = Running t'
         \<and> content t' = [''ab'', ''cd''] \<and> modified t' \<and> editorOpen t'
         \<and> shown t' = shown overlay_locked_w @ [''{red-fg}Error saving{/red-fg}'', cmdLine t'])"
proof -
  have k: "name (plain ''enter'') = Some ''enter''" by (simp add: plain_def)
  have c: "''w'' = ''w'' \<or> ''w'' = ''wq''" by simp
  note inst = failed_save_keeps_buffer[OF k c, of 5 "Some [CHR 0x0D]"]
  have parse: "split (CHR '' '') (trim ''w f'') = ''w'' # [''f'']"
    by (simp add: trim_def is_space_def)
  have tg: "save_target ''w'' [''f''] x = ''f''" for x :: "'a session_scheme"
    by (simp add: save_target_def)
  have s: "mode locked_w = Command"
    "split (CHR '' '') (trim (commandBuffer locked_w)) = ''w'' # [''f'']"
    "save_target ''w'' [''f''] locked_w \<noteq> []"
    "writeFileSync (disk locked_w) (save_target ''w'' [''f''] locked_w)
       (join (CHR 0x0A) (content locked_w)) = None"
    "regexp_safe locked_w"
    using parse by (simp_all add: tg locked_w_def two_lines_def locked_disk_def empty_disk_def
        writeFileSync_def regexp_safe_def)
  have s': "commandBuffer locked_w = ''w f''" "modified locked_w" "shown locked_w = []"
    "content locked_w = [''ab'', ''cd'']" "disk locked_w = locked_disk"
    by (simp_all add: locked_w_def two_lines_def)
  have t: "mode overlay_locked_w = Command"
    "\<not> overlay_blocked (plain ''enter'') overlay_locked_w"
    "split (CHR '' '') (trim (commandBuffer overlay_locked_w)) = ''w'' # [''f'']"
    "save_target ''w'' [''f''] overlay_locked_w \<noteq> []"
    "writeFileSync (disk overlay_locked_w) (save_target ''w'' [''f''] overlay_locked_w)
       (join (CHR 0x0A) (content overlay_locked_w)) = None"
    using parse by (simp_all add: tg overlay_locked_w_def overlay_fresh_def ctrl_e_def
        renderEditor_def screen_render_def overlay_blocked_def plain_def locked_disk_def
        empty_disk_def writeFileSync_def)
  have t': "modified overlay_locked_w" "content overlay_locked_w = [''ab'', ''cd'']"
    by (simp_all add: overlay_locked_w_def)
  from inst s obtain s1 where a:
    "keypress 5 (Some [CHR 0x0D]) (Some (plain ''enter'')) locked_w = Running s1"
    "content s1 = content locked_w" "modified s1 = modified locked_w" "disk s1 = disk locked_w"
    "shown s1 = shown locked_w @ [''{red-fg}Error saving file{/red-fg}'', cmdLine s1]"
    by blast
  from inst t obtain t1 where b:
    "editorKeyHandler 5 (Some [CHR 0x0D]) (Some (plain ''enter'')) overlay_locked_w = Running t1"
    "content t1 = content overlay_locked_w" "modified t1 = modified overlay_locked_w"
    "editorOpen t1"
    "shown t1 = shown overlay_locked_w @ [''{red-fg}Error saving{/red-fg}'', cmdLine t1]"
    by blast
  show ?thesis
    using k s(1,4) s' t(1) t' a b by (auto simp: tg)
qed


text \<open>
  Claim C10. When the write of \<open>w p\<close> fails, the file name stays bound to \<open>p\<close> while buffer
  and modified flag are as before. A later \<open>w\<close> with no argument writes to \<open>p\<close>: it fails
  with the same error while the write to \<open>p\<close> fails, and it saves the buffer to \<open>p\<close> once
  the file system lets the write through. So in both editors.
\<close>

theorem failed_write_keeps_new_filename:
  assumes "name k = Some ''enter''" and "p \<noteq> []"
  shows "(\<forall>s rest. mode s = Command
            \<and> split (CHR '' '') (trim (commandBuffer s)) = ''w'' # rest \<and> join (CHR '' '') rest = p
            \<and> writeFileSync (disk s) p (join (CHR 0x0A) (content s)) = None
            \<and> regexp_safe s \<longrightarrow>
            (\<exists>s'. keypress h ch (Some k) s = Running s' \<and> filename s' = p
               \<and> content s' = content s \<and> modified s' = modified s
               \<and> (\<exists>s''. executeCommand h ''w'' s' = Running s'' \<and> filename s'' = p
                     \<and> shown s'' = shown s' @ [''{red-fg}Error saving file{/red-fg}'', cmdLine s''])
               \<and> (\<forall>w2. writable w2 p \<and> files w2 p \<noteq> Some Directory
                     \<and> valid_regexp w2 = valid_regexp (disk s) \<longrightarrow>
                     (\<exists>s''. executeCommand h ''w'' (s'\<lparr>disk := w2\<rparr>) = Running s''
                        \<and> files (disk s'') p = Some (File (join (CHR 0x0A) (content s)))
                        \<and> \<not> modified s''))))
       \<and> (\<forall>t rest. mode t = Command \<and> \<not> overlay_blocked k t
            \<and> split (CHR '' '') (trim (commandBuffer t)) = ''w'' # rest \<and> join (CHR '' '') rest = p
            \<and> writeFileSync (disk t) p (join (CHR 0x0A) (content t)) = None \<longrightarrow>
            (\<exists>t'. editorKeyHandler h ch (Some k) t = Running t' \<and> filename t' = p
               \<and> content t' = content t \<and> modified t' = modified t
               \<and> (\<exists>t''. executeEditorCommand h ''w'' t' = Running t'' \<and> filename t'' = p
                     \<and> shown t'' = shown t' @ [''{red-fg}Error saving{/red-fg}'', cmdLine t''])
               \<and> (\<forall>w2. writable w2 p \<and> files w2 p \<noteq> Some Directory \<longrightarrow>
                     (\<exists>t''. executeEditorCommand h ''w'' (t'\<lparr>disk := w2\<rparr>) = Running t''
                        \<and> files (disk t'') p = Some (File (join (CHR 0x0A) (content t)))
                        \<and> \<not> modified t''))))"
proof (intro conjI allI impI)
  fix s :: session and rest
  assume a: "mode s = Command
    \<and> split (CHR '' '') (trim (commandBuffer s)) = ''w'' # rest \<and> join (CHR '' '') rest = p
    \<and> writeFileSync (disk s) p (join (CHR 0x0A) (content s)) = None \<and> regexp_safe s"
  have tg: "save_target ''w'' rest s = p" using a assms(2) by (simp add: save_target_def)
  have key: "keypress h ch (Some k) s = executeCommand h (commandBuffer s) s"
    using a assms(1) by (simp add: commit_standalone)
  from failed_save_standalone[of "''w''" "commandBuffer s" rest s h] a tg assms(2)
  obtain s' where s': "executeCommand h (commandBuffer s) s = Running s'" "content s' = content s"
    "modified s' = modified s" "disk s' = disk s" "filename s' = p"
    by auto
  have safe: "regexp_safe s'"
  proof -
    have "searchTerm s' = searchTerm s"
      using s'(1) a
      by (auto simp: executeCommand_w after_switch_def dest!: render_Running split: if_splits)
    then show ?thesis using a s'(4) by (simp add: regexp_safe_def)
  qed
  have again: "\<exists>s''. executeCommand h ''w'' s' = Running s'' \<and> filename s'' = p
      \<and> shown s'' = shown s' @ [''{red-fg}Error saving file{/red-fg}'', cmdLine s'']"
    using failed_save_standalone[of "''w''" "''w''" "[]" s' h] parse_w s' a assms(2) safe
    by (auto simp: save_target_def)
  have later: "\<exists>s''. executeCommand h ''w'' (s'\<lparr>disk := w2\<rparr>) = Running s''
      \<and> files (disk s'') p = Some (File (join (CHR 0x0A) (content s))) \<and> \<not> modified s''"
    if "writable w2 p \<and> files w2 p \<noteq> Some Directory \<and> valid_regexp w2 = valid_regexp (disk s)"
    for w2
  proof -
    have "regexp_safe (s'\<lparr>disk := w2\<rparr>)"
      using safe that s'(4) by (simp add: regexp_safe_def)
    then show ?thesis
      using saved_standalone[of "s'\<lparr>disk := w2\<rparr>" h] that s' assms(2) by auto
  qed
  show "\<exists>s'. keypress h ch (Some k) s = Running s' \<and> filename s' = p
      \<and> content s' = content s \<and> modified s' = modified s
      \<and> (\<exists>s''. executeCommand h ''w'' s' = Running s'' \<and> filename s'' = p
            \<and> shown s'' = shown s' @ [''{red-fg}Error saving file{/red-fg}'', cmdLine s''])
      \<and> (\<forall>w2. writable w2 p \<and> files w2 p \<noteq> Some Directory
            \<and> valid_regexp w2 = valid_regexp (disk s) \<longrightarrow>
            (\<exists>s''. executeCommand h ''w'' (s'\<lparr>disk := w2\<rparr>) = Running s''
               \<and> files (disk s'') p = Some (File (join (CHR 0x0A) (content s)))
               \<and> \<not> modified s''))"
    using key s' again later by (intro exI[of _ s']) simp
next
  fix t :: overlay and rest
  assume a: "mode t = Command \<and> \<not> overlay_blocked k t
    \<and> split (CHR '' '') (trim (commandBuffer t)) = ''w'' # rest \<and> join (CHR '' '') rest = p
    \<and> writeFileSync (disk t) p (join (CHR 0x0A) (content t)) = None"
  have tg: "save_target ''w'' rest t = p" using a assms(2) by (simp add: save_target_def)
  have key: "editorKeyHandler h ch (Some k) t = executeEditorCommand h (commandBuffer t) t"
    using a assms(1) by (simp add: commit_overlay)
  from failed_save_overlay[of "''w''" "commandBuffer t" rest t h] a tg assms(2)
  obtain t' where t': "executeEditorCommand h (commandBuffer t) t = Running t'"
    "content t' = content t" "modified t' = modified t" "disk t' = disk t" "filename t' = p"
    by auto
  have again: "\<exists>t''. executeEditorCommand h ''w'' t' = Running t'' \<and> filename t'' = p
      \<and> shown t'' = shown t' @ [''{red-fg}Error saving{/red-fg}'', cmdLine t'']"
    using failed_save_overlay[of "''w''" "''w''" "[]" t' h] parse_w t' a assms(2)
    by (auto simp: save_target_def)
  have later: "\<exists>t''. executeEditorCommand h ''w'' (t'\<lparr>disk := w2\<rparr>) = Running t''
      \<and> files (disk t'') p = Some (File (join (CHR 0x0A) (content t))) \<and> \<not> modified t''"
    if "writable w2 p \<and> files w2 p \<noteq> Some Directory" for w2
    using saved_overlay[of "t'\<lparr>disk := w2\<rparr>" h] that t' assms(2) by auto
  show "\<exists>t'. editorKeyHandler h ch (Some k) t = Running t' \<and> filename t' = p
      \<and> content t' = content t \<and> modified t' = modified t
      \<and> (\<exists>t''. executeEditorCommand h ''w'' t' = Running t'' \<and> filename t'' = p
            \<and> shown t'' = shown t' @ [''{red-fg}Error saving{/red-fg}'', cmdLine t''])
      \<and> (\<forall>w2. writable w2 p \<and> files w2 p \<noteq> Some Directory \<longrightarrow>
            (\<exists>t''. executeEditorCommand h ''w'' (t'\<lparr>disk := w2\<rparr>) = Running t''
               \<and> files (disk t'') p = Some (File (join (CHR 0x0A) (content t)))
               \<and> \<not> modified t''))"
    using key t' again later by (intro exI[of _ t']) simp
qed


theorem failed_write_keeps_new_filename_witness:
  "name (plain ''enter'') = Some ''enter''
   \<and> mode locked_w = Command \<and> commandBuffer locked_w = ''w f'' \<and> filename locked_w = []
   \<and> writeFileSync (disk locked_w) ''f'' (join (CHR 0x0A) (content locked_w)) = None
   \<and> (\<exists>s'. keypress 5 (Some [CHR 0x0D]) (Some (plain ''enter'')) locked_w = Running s'
         \<and> filename s' = ''f'' \<and> content s' = [''ab'', ''cd''] \<and> modified s'
         \<and> (\<exists>s''. executeCommand 5 ''w'' s' = Running s'' \<and> filename s'' = ''f''
               \<and> shown s'' = shown s' @ [''{red-fg}Error saving file{/red-fg}'', cmdLine s''])
         \<and> (\<exists>s''. executeCommand 5 ''w'' (s'\<lparr>disk := empty_disk\<rparr>) = Running s''
               \<and> files (disk s'') ''f'' = Some (File (''ab'' @ [CHR 0x0A] @ ''cd''))
               \<and> \<not> modified s''))
   \<and> mode overlay_locked_w = Command \<and> commandBuffer overlay_locked_w = ''w f''
   \<and> filename overlay_locked_w = []
   \<and> (\<exists>t'. editorKeyHandler 5 (Some [CHR 0x0D]) (Some (plain ''enter'')) overlay_locked_w
           = Running t'
         \<and> filename t' = ''f'' \<and> content t' = [''ab'', ''cd''] \<and> modified t'
         \<and> (\<exists>t''. executeEditorCommand 5 ''w'' t' = Running t'' \<and> filename t'' = ''f''
               \<and> shown t'' = shown t' @ [''{red-fg}Error saving{/red-fg}'', cmdLine t''])
         \<and> (\<exists>t''. executeEditorCommand 5 ''w'' (t'\<lparr>disk := empty_disk\<rparr>) = Running t''
               \<and> files (disk t'') ''f'' = Some (File (''ab'' @ [CHR 0x0A] @ ''cd''))
               \<and> \<not> modified t''))"
proof -
  have k: "name (plain ''enter'') = Some ''enter''" by (simp add: plain_def)
  have p: "''f'' \<noteq> []" by simp
  note inst = failed_write_keeps_new_filename[OF k p, of 5 "Some [CHR 0x0D]"]
  have parse: "split (CHR '' '') (trim ''w f'') = ''w'' # [''f'']"
    by (simp add: trim_def is_space_def)
  have s: "mode locked_w = Command"
    "split (CHR '' '') (trim (commandBuffer locked_w)) = ''w'' # [''f'']"
    "join (CHR '' '') [''f''] = ''f''"
    "writeFileSync (disk locked_w) ''f'' (join (CHR 0x0A) (content locked_w)) = None"
    "regexp_safe locked_w"
    using parse by (simp_all add: locked_w_def two_lines_def locked_disk_def empty_disk_def
        writeFileSync_def regexp_safe_def)
  have s0: "commandBuffer locked_w = ''w f''" "filename locked_w = []" "modified locked_w"
    "content locked_w = [''ab'', ''cd'']"
    "valid_regexp empty_disk = valid_regexp (disk locked_w)"
    by (simp_all add: locked_w_def two_lines_def locked_disk_def)
  have w2: "writable empty_disk ''f''" "files empty_disk ''f'' \<noteq> Some Directory"
    by (simp_all add: empty_disk_def)
  have t: "mode overlay_locked_w = Command"
    "\<not> overlay_blocked (plain ''enter'') overlay_locked_w"
    "split (CHR '' '') (trim (commandBuffer overlay_locked_w)) = ''w'' # [''f'']"
    "writeFileSync (disk overlay_locked_w) ''f'' (join (CHR 0x0A) (content overlay_locked_w)) = None"
    using parse by (simp_all add: overlay_locked_w_def overlay_fresh_def ctrl_e_def
        renderEditor_def screen_render_def overlay_blocked_def plain_def locked_disk_def
        empty_disk_def writeFileSync_def)
  have t0: "commandBuffer overlay_locked_w = ''w f''" "filename overlay_locked_w = []"
    "modified overlay_locked_w" "content overlay_locked_w = [''ab'', ''cd'']"
    by (simp_all add: overlay_locked_w_def overlay_fresh_def ctrl_e_def)
  from inst s obtain s' where a:
    "keypress 5 (Some [CHR 0x0D]) (Some (plain ''enter'')) locked_w = Running s'"
    "filename s' = ''f''" "content s' = content locked_w" "modified s' = modified locked_w"
    "\<exists>s''. executeCommand 5 ''w'' s' = Running s'' \<and> filename s'' = ''f''
       \<and> shown s'' = shown s' @ [''{red-fg}Error saving file{/red-fg}'', cmdLine s'']"
    "\<forall>w2. writable w2 ''f'' \<and> files w2 ''f'' \<noteq> Some Directory
         \<and> valid_regexp w2 = valid_regexp (disk locked_w) \<longrightarrow>
       (\<exists>s''. executeCommand 5 ''w'' (s'\<lparr>disk := w2\<rparr>) = Running s''
          \<and> files (disk s'') ''f'' = Some (File (join (CHR 0x0A) (content locked_w)))
          \<and> \<not> modified s'')"
    by blast
  from a(6) w2 s0(5) have a':
    "\<exists>s''. executeCommand 5 ''w'' (s'\<lparr>disk := empty_disk\<rparr>) = Running s''
       \<and> files (disk s'') ''f'' = Some (File (join (CHR 0x0A) (content locked_w)))
       \<and> \<not> modified s''"
    by blast
  from inst t s(3) obtain t' where b:
    "editorKeyHandler 5 (Some [CHR 0x0D]) (Some (plain ''enter'')) overlay_locked_w = Running t'"
    "filename t' = ''f''" "content t' = content overlay_locked_w"
    "modified t' = modified overlay_locked_w"
    "\<exists>t''. executeEditorCommand 5 ''w'' t' = Running t'' \<and> filename t'' = ''f''
       \<and> shown t'' = shown t' @ [''{red-fg}Error saving{/red-fg}'', cmdLine t'']"
    "\<forall>w2. writable w2 ''f'' \<and> files w2 ''f'' \<noteq> Some Directory \<longrightarrow>
       (\<exists>t''. executeEditorCommand 5 ''w'' (t'\<lparr>disk := w2\<rparr>) = Running t''
          \<and> files (disk t'') ''f'' = Some (File (join (CHR 0x0A) (content overlay_locked_w)))
          \<and> \<not> modified t'')"
    by blast
  from b(6) w2 have b':
    "\<exists>t''. executeEditorCommand 5 ''w'' (t'\<lparr>disk := empty_disk\<rparr>) = Running t''
       \<and> files (disk t'') ''f'' = Some (File (join (CHR 0x0A) (content overlay_locked_w)))
       \<and> \<not> modified t''"
    by blast
  have 1: "\<exists>s'. keypress 5 (Some [CHR 0x0D]) (Some (plain ''enter'')) locked_w = Running s'
         \<and> filename s' = ''f'' \<and> content s' = [''ab'', ''cd''] \<and> modified s'
         \<and> (\<exists>s''. executeCommand 5 ''w'' s' = Running s'' \<and> filename s'' = ''f''
               \<and> shown s'' = shown s' @ [''{red-fg}Error saving file{/red-fg}'', cmdLine s''])
         \<and> (\<exists>s''. executeCommand 5 ''w'' (s'\<lparr>disk := empty_disk\<rparr>) = Running s''
               \<and> files (disk s'') ''f'' = Some (File (''ab'' @ [CHR 0x0A] @ ''cd''))
               \<and> \<not> modified s'')"
    using a(1-5) a' s0 by (intro exI[of _ s']) simp
  have 2: "\<exists>t'. editorKeyHandler 5 (Some [CHR 0x0D]) (Some (plain ''enter'')) overlay_locked_w
           = Running t'
         \<and> filename t' = ''f'' \<and> content t' = [''ab'', ''cd''] \<and> modified t'
         \<and> (\<exists>t''. executeEditorCommand 5 ''w'' t' = Running t'' \<and> filename t'' = ''f''
               \<and> shown t'' = shown t' @ [''{red-fg}Error saving{/red-fg}'', cmdLine t''])
         \<and> (\<exists>t''. executeEditorCommand 5 ''w'' (t'\<lparr>disk := empty_disk\<rparr>) = Running t''
               \<and> files (disk t'') ''f'' = Some (File (''ab'' @ [CHR 0x0A] @ ''cd''))
               \<and> \<not> modified t'')"
    using b(1-5) b' t0 by (intro exI[of _ t']) simp
  show ?thesis
    using k s(1,4) s0(1,2) t(1) t0(1,2) 1 2 by simp
qed

subsection \<open>The column under Escape and the motions\<close>

lemma col_in_line_same:
  "content s' = content s \<Longrightarrow> cursorRow s' = cursorRow s \<Longrightarrow> cursorCol s' = cursorCol s
   \<Longrightarrow> col_in_line s' = col_in_line s"
  by (simp add: col_in_line_def split: option.splits)

lemma line_at_row:
  "0 \<le> r \<Longrightarrow> r < int (length ls) \<Longrightarrow> js_index ls r = Some (ls ! nat r)"
  by (simp add: js_index_def)

lemma rendered:
  assumes "regexp_safe s"
  shows "\<exists>s'. render h s = Running s' \<and> content s' = content s \<and> cursorRow s' = cursorRow s
     \<and> cursorCol s' = cursorCol s \<and> mode s' = mode s \<and> regexp_safe s'"
proof -
  obtain s' where s': "render h s = Running s'" using render_safe[OF assms] by blast
  then show ?thesis using render_Running[OF s'] assms by (auto simp: regexp_safe_def)
qed

lemma stages_keep_cursor:
  assumes "normal_switch h k s = Running s1" and "regexp_safe s1"
    and "\<not> (ctrl k \<and> (name k = Some ''c'' \<or> name k = Some ''s''))"
    and "name k \<noteq> Some ''g''"
  shows "\<exists>s'. normal_mode_key h ch k s = Running s' \<and> content s' = content s1
     \<and> cursorRow s' = cursorRow s1 \<and> cursorCol s' = cursorCol s1"
proof -
  have g: "go_to_end h k s1 = Running s1" using assms(4) by (simp add: go_to_end_def)
  obtain s2 where s2: "colon h ch s1 = Running s2" "content s2 = content s1"
    "cursorRow s2 = cursorRow s1" "cursorCol s2 = cursorCol s1"
  proof (cases "ch = Some '':''")
    case True
    have "regexp_safe (s1\<lparr>mode := Command, commandBuffer := []\<rparr>)"
      using assms(2) by (simp add: regexp_safe_def)
    from rendered[OF this, of h] True show ?thesis using that by (auto simp: colon_def)
  next
    case False
    then show ?thesis using that by (simp add: colon_def)
  qed
  obtain s3 where s3: "slash ch s2 = Running s3" "content s3 = content s2"
    "cursorRow s3 = cursorRow s2" "cursorCol s3 = cursorCol s2"
    by (cases "ch = Some ''/''") (simp_all add: slash_def)
  have "normal_mode_key h ch k s = Running s3"
    using assms(1,3) g s2(1) s3(1) by (auto simp: normal_mode_key_def and_then_def)
  then show ?thesis using s2 s3 by simp
qed

lemma moved:
  assumes "mode s = Normal" and "regexp_safe s"
    and "normal_switch h k s = render h s1" and "searchTerm s1 = searchTerm s" and "disk s1 = disk s"
    and "\<not> (ctrl k \<and> (name k = Some ''c'' \<or> name k = Some ''s''))"
    and "name k \<noteq> Some ''g''"
  shows "\<exists>s'. keypress h ch (Some k) s = Running s' \<and> content s' = content s1
     \<and> cursorRow s' = cursorRow s1 \<and> cursorCol s' = cursorCol s1"
proof -
  have "regexp_safe s1" using assms(2,4,5) by (simp add: regexp_safe_def)
  from rendered[OF this, of h] obtain s2 where s2: "render h s1 = Running s2"
    "content s2 = content s1" "cursorRow s2 = cursorRow s1" "cursorCol s2 = cursorCol s1"
    "regexp_safe s2" by blast
  from stages_keep_cursor[of h k s s2 ch] assms(3,6,7) s2 show ?thesis
    using assms(1) by (auto simp: keypress_def)
qed

declare forward_while.simps [simp del]

lemma forward_while_bounds:
  "pos \<le> forward_while want line pos \<and> forward_while want line pos \<le> max pos (int (length line))"
proof (induction want line pos rule: forward_while.induct)
  case (1 want line pos)
  show ?case
  proof (cases "pos < int (length line) \<and> word_test line pos = want")
    case True
    then show ?thesis using 1 by (subst (1 2) forward_while.simps) auto
  next
    case False
    then show ?thesis by (subst (1 2) forward_while.simps) auto
  qed
qed

lemma split_renderEditor_simps [simp]:
  "content (split_renderEditor bh u) = content u"
  "cursorRow (split_renderEditor bh u) = cursorRow u"
  "cursorCol (split_renderEditor bh u) = cursorCol u"
  "mode (split_renderEditor bh u) = mode u"
  by (simp_all add: split_renderEditor_def Let_def)


subsection \<open>The column stays within the line\<close>

lemma col_in_line_iff:
  "col_in_line s \<longleftrightarrow> 0 \<le> cursorRow s \<and> cursorRow s < int (length (content s))
     \<and> 0 \<le> cursorCol s \<and> cursorCol s \<le> int (length (content s ! nat (cursorRow s)))"
  by (auto simp: col_in_line_def js_index_def)

lemma render_col: "render h s = Running s' \<Longrightarrow> col_in_line s \<Longrightarrow> col_in_line s'"
  using col_in_line_same[of s' s] by (auto dest!: render_Running)

lemma after_switch_col:
  "after_switch h s = Running s' \<Longrightarrow> col_in_line s \<Longrightarrow> col_in_line s'"
  unfolding after_switch_def
  by (erule render_col) (simp add: col_in_line_iff)

lemma executeCommand_col:
  assumes "executeCommand h cmd s = Running s'" "col_in_line s"
  shows "col_in_line s'"
  using assms
  by (auto simp: executeCommand_def Let_def col_in_line_iff[of s]
      split: list.splits if_splits option.splits prod.splits bool.splits
      elim!: after_switch_col dest!: saveFile_eq)
    (auto simp: col_in_line_iff)


lemma find_at_bounds: "find_at t l k = Some i \<Longrightarrow> k \<le> i \<and> i \<le> k + length l"
  by (induction l arbitrary: k) (fastforce split: if_splits)+

lemma indexOf_bounds:
  "indexOf l t pos \<noteq> - 1 \<Longrightarrow> 0 \<le> indexOf l t pos \<and> indexOf l t pos \<le> int (length l)"
  by (auto simp: indexOf_def Let_def split: option.splits dest!: find_at_bounds)

lemma find_forward_col:
  "find_forward ls t row col is = Inr (Some (i, idx)) \<Longrightarrow>
     0 \<le> i \<and> i < int (length ls) \<and> 0 \<le> idx \<and> idx \<le> int (length (ls ! nat i))"
proof (induction "is")
  case Nil
  then show ?case by simp
next
  case (Cons j js)
  then show ?case
    using indexOf_bounds[of "ls ! nat j" t "if j = row then col + 1 else 0"]
    by (auto simp: js_index_def Let_def split: option.splits if_splits)
qed

lemma find_wrapped_col:
  "find_wrapped ls t is = Inr (Some (i, idx)) \<Longrightarrow>
     0 \<le> i \<and> i < int (length ls) \<and> 0 \<le> idx \<and> idx \<le> int (length (ls ! nat i))"
proof (induction "is")
  case Nil
  then show ?case by simp
next
  case (Cons j js)
  then show ?case
    using indexOf_bounds[of "ls ! nat j" t 0]
    by (auto simp: js_index_def Let_def split: option.splits if_splits)
qed

lemma findNext_col:
  assumes "findNext h s = Running s'" "col_in_line s"
  shows "col_in_line s'"
  using assms
  by (auto simp: findNext_def split: if_splits sum.splits option.splits
      dest!: find_forward_col find_wrapped_col elim!: render_col)
    (auto simp: col_in_line_iff)

lemma command_mode_key_col:
  assumes "command_mode_key h ch k s = Running s'" "col_in_line s"
  shows "col_in_line s'"
  using assms
  by (auto simp: command_mode_key_def split: if_splits option.splits list.splits
      elim!: render_col executeCommand_col)
    (auto simp: col_in_line_iff)


lemma splice_insert_at:
  "0 \<le> i \<Longrightarrow> i \<le> int (length ls) \<Longrightarrow> splice_insert ls i x ! nat i = x"
  by (simp add: splice_insert_def rel_index_def nth_append)

lemma splice_remove_before:
  "0 \<le> i \<Longrightarrow> i < j \<Longrightarrow> i < int (length ls) \<Longrightarrow> splice_remove ls j ! nat i = ls ! nat i"
  by (auto simp: splice_remove_def rel_index_def nth_append)

lemma slice_lengths:
  "0 \<le> c \<Longrightarrow> c \<le> int (length l) \<Longrightarrow> length (slice l 0 c) = nat c"
  "0 \<le> c \<Longrightarrow> length (slice_from l c) = length l - nat c"
  by (simp_all add: slice_take slice_from_drop)

lemma insert_mode_key_col:
  assumes "insert_mode_key h ch k s = Running s'" "col_in_line s"
  shows "col_in_line s'"
  using assms
  by (auto simp: insert_mode_key_def Let_def col_in_line_iff[of s]
      split: if_splits option.splits list.splits
      dest!: js_index_Some elim!: render_col)
    (auto simp: col_in_line_iff slice_lengths length_splice_remove rel_index_def
       splice_insert_at splice_remove_before)


lemma delete_line_col:
  assumes "col_in_line s" "\<not> column_slip k s" "mode s = Normal" "name k = Some ''d''"
    "length (content s) > 1"
  shows "col_in_line (s\<lparr>content := splice_remove (content s) (cursorRow s),
     cursorRow := min (cursorRow s) (int (length (splice_remove (content s) (cursorRow s))) - 1),
     modified := True\<rparr>)"
proof -
  note d = col_in_lineD[OF assms(1)]
  let ?lines = "splice_remove (content s) (cursorRow s)"
  let ?row = "min (cursorRow s) (int (length ?lines) - 1)"
  have len: "length ?lines = length (content s) - 1"
    using d(1,2) by (auto simp: length_splice_remove rel_index_def)
  have row: "0 \<le> ?row" "?row < int (length ?lines)" using d(1,2) assms(5) len by auto
  have "\<not> int (length (?lines ! nat ?row)) < cursorCol s"
    using assms(2,3,4,5) row by (simp add: column_slip_def Let_def js_index_def)
  then show ?thesis using row d(4) by (simp add: col_in_line_iff)
qed

lemma normal_switch_col:
  assumes "normal_switch h k s = Running s'" "col_in_line s" "\<not> column_slip k s" "mode s = Normal"
  shows "col_in_line s'"
proof (cases "name k = Some ''d''")
  case True
  show ?thesis
  proof (cases "length (content s) > 1")
    case True
    from delete_line_col[OF assms(2,3,4) \<open>name k = Some ''d''\<close> True] show ?thesis
      using assms(1) \<open>name k = Some ''d''\<close> True
      by (auto simp: normal_switch_def Let_def elim!: render_col)
  next
    case False
    have "col_in_line (s\<lparr>content := [[]], cursorCol := 0, modified := True\<rparr>)"
      using col_in_lineD(1,2)[OF assms(2)] False by (simp add: col_in_line_iff)
    then show ?thesis
      using assms(1) \<open>name k = Some ''d''\<close> False
      by (auto simp: normal_switch_def Let_def elim!: render_col)
  qed
next
  case False
  have line: "content s ! nat (cursorRow s) \<noteq> []"
    if "name k = Some ''l'' \<or> name k = Some ''right''"
    using that assms(3,4) col_in_lineD(3)[OF assms(2)] by (auto simp: column_slip_def)
  show ?thesis
    using assms(1,2) False line
    by (auto simp: normal_switch_def Let_def col_in_line_iff[of s]
        split: if_splits option.splits
        dest!: js_index_Some elim!: render_col findNext_col)
      (auto simp: col_in_line_iff splice_insert_at)
qed

lemma go_to_end_col:
  assumes "go_to_end h k s = Running s'" "col_in_line s"
  shows "col_in_line s'"
  using assms
  by (auto simp: go_to_end_def col_in_line_iff[of s] split: if_splits elim!: render_col)
    (auto simp: col_in_line_iff)

lemma colon_col:
  assumes "colon h ch s = Running s'" "col_in_line s"
  shows "col_in_line s'"
  using assms
  by (auto simp: colon_def col_in_line_iff[of s] split: if_splits elim!: render_col)
    (auto simp: col_in_line_iff)

lemma slash_col:
  assumes "slash ch s = Running s'" "col_in_line s"
  shows "col_in_line s'"
  using assms by (auto simp: slash_def col_in_line_iff split: if_splits)

lemma normal_mode_key_col:
  assumes "normal_mode_key h ch k s = Running s'" "col_in_line s" "\<not> column_slip k s"
    "mode s = Normal"
  shows "col_in_line s'"
proof (cases "ctrl k \<and> (name k = Some ''c'' \<or> name k = Some ''s'')")
  case True
  then show ?thesis using assms(1,2)
    by (auto simp: normal_mode_key_def col_in_line_iff split: if_splits)
next
  case False
  from normal_mode_key_stages[OF assms(1) False] show ?thesis
    using assms(2,3,4) by (blast intro: normal_switch_col go_to_end_col colon_col slash_col)
qed

lemma handle_col:
  assumes "handle h ev s = Running s'" "col_in_line s" "\<not> event_slip ev s"
  shows "col_in_line s'"
proof (cases ev)
  case (KeyPress ch key)
  show ?thesis
  proof (cases key)
    case None
    then show ?thesis using assms KeyPress by (simp add: keypress_def)
  next
    case (Some k)
    then show ?thesis using assms KeyPress
      by (cases "mode s")
        (auto simp: keypress_def column_slip_def
          elim: command_mode_key_col insert_mode_key_col normal_mode_key_col)
  qed
next
  case (SearchSubmit v)
  have "col_in_line (s\<lparr>searchTerm := v, mode := Normal\<rparr>)"
    using assms(2) by (simp add: col_in_line_iff)
  then show ?thesis using SearchSubmit assms(1) by (auto simp: search_submit_def elim: findNext_col)
next
  case SearchCancel
  have "col_in_line (s\<lparr>mode := Normal\<rparr>)" using assms(2) by (simp add: col_in_line_iff)
  then show ?thesis using SearchCancel assms(1) by (auto simp: search_cancel_def elim: render_col)
qed

lemma run_col:
  assumes "run evs s = Running s'" "slip_free evs s" "col_in_line s"
  shows "col_in_line s'"
  using assms
proof (induction evs arbitrary: s)
  case Nil
  then show ?case by simp
next
  case (Cons a evs)
  obtain h ev where a: "a = (h, ev)" by (cases a)
  from Cons.prems(1) obtain s1 where s1: "handle h ev s = Running s1" "run evs s1 = Running s'"
    unfolding a by (auto dest: and_then_Running)
  have "\<not> event_slip ev s" "slip_free evs s1" using Cons.prems(2) s1(1) unfolding a by simp_all
  then show ?case using Cons.IH[OF s1(2)] handle_col[OF s1(1) Cons.prems(3)] by simp
qed

lemma editorCommand_col:
  assumes "editorCommand file w h = Running s0"
  shows "col_in_line s0"
  using assms
  by (auto simp: editorCommand_def Let_def split: if_splits option.splits elim!: render_col)
    (auto simp: col_in_line_iff)

lemma overlay_col_simps [simp]:
  "col_in_line (renderEditor h t) = col_in_line t"
  "col_in_line (closeEditor t) = col_in_line t"
  "col_in_line (tryCloseEditor t) = col_in_line t"
  "col_in_line (snd (saveEditorFile None h t)) = col_in_line t"
  "col_in_line (showFileBrowser t) = col_in_line t"
  by (rule col_in_line_same; simp add: showFileBrowser_def screen_render_def)+

lemma executeEditorCommand_col:
  assumes "executeEditorCommand h cmd t = Running t'" "col_in_line t"
  shows "col_in_line t'"
  using assms
  by (auto simp: executeEditorCommand_def Let_def col_in_line_iff[of t]
      split: list.splits if_splits option.splits prod.splits bool.splits
      dest!: saveEditorFile_eq)
    (auto simp: col_in_line_iff)

lemma overlay_command_key_col:
  assumes "overlay_command_key h ch k t = Running t'" "col_in_line t"
  shows "col_in_line t'"
  using assms
  by (auto simp: overlay_command_key_def split: if_splits option.splits list.splits
      elim!: executeEditorCommand_col)
    (auto simp: col_in_line_iff)

lemma overlay_insert_key_col:
  assumes "overlay_insert_key h ch k t = Running t'" "col_in_line t"
    "\<not> overlay_column_slip k t" "mode t = Insert"
  shows "col_in_line t'"
proof -
  note d = col_in_lineD[OF assms(2)]
  consider (simple) "name k = Some ''escape'' \<or> name k = Some ''home'' \<or> name k = Some ''end''"
    | (enter) "name k = Some ''enter''"
    | (up) "name k = Some ''up''" | (down) "name k = Some ''down''"
    | (left) "name k = Some ''left''" | (right) "name k = Some ''right''"
    | (backspace) "name k = Some ''backspace''"
    | (other) "name k \<noteq> Some ''escape''" "name k \<noteq> Some ''home''" "name k \<noteq> Some ''end''"
        "name k \<noteq> Some ''enter''" "name k \<noteq> Some ''up''" "name k \<noteq> Some ''down''"
        "name k \<noteq> Some ''left''" "name k \<noteq> Some ''right''" "name k \<noteq> Some ''backspace''"
    by blast
  then show ?thesis
  proof cases
    case simple
    then show ?thesis using assms(1) d
      by (auto simp: overlay_insert_key_def col_in_line_iff split: if_splits)
  next
    case enter
    then show ?thesis using assms(1) d
      by (auto simp: overlay_insert_key_def col_in_line_iff splice_insert_at)
  next
    case up
    then show ?thesis using assms(1) d
      by (auto simp: overlay_insert_key_def col_in_line_iff js_index_def slice_lengths
          split: if_splits option.splits list.splits)
  next
    case down
    then show ?thesis using assms(1) d
      by (auto simp: overlay_insert_key_def col_in_line_iff js_index_def slice_lengths
          split: if_splits option.splits list.splits)
  next
    case left
    then show ?thesis using assms(1) d
      by (auto simp: overlay_insert_key_def col_in_line_iff js_index_def split: if_splits)
  next
    case right
    have "cursorCol t < int (length (content t ! nat (cursorRow t)))"
      using assms(3,4) right d(3) by (simp add: overlay_column_slip_def)
    then show ?thesis using assms(1) d right
      by (auto simp: overlay_insert_key_def col_in_line_iff)
  next
    case backspace
    then show ?thesis using assms(1) d
      by (auto simp: overlay_insert_key_def col_in_line_iff js_index_def Let_def slice_lengths
          length_splice_remove rel_index_def splice_remove_before split: if_splits)
  next
    case other
    then show ?thesis using assms(1) d
      by (auto simp: overlay_insert_key_def col_in_line_iff slice_lengths
          split: option.splits list.splits if_splits)
  qed
qed

lemma overlay_normal_switch_col:
  assumes "overlay_normal_switch h k t = Running t'" "col_in_line t" "\<not> column_slip k t"
    "mode t = Normal"
  shows "col_in_line t'"
proof -
  note d = col_in_lineD[OF assms(2)]
  consider (del) "name k = Some ''d''"
    | (right) "name k = Some ''l'' \<or> name k = Some ''right''"
    | (vertical) "name k = Some ''j'' \<or> name k = Some ''down'' \<or> name k = Some ''k''
        \<or> name k = Some ''up''"
    | (other) "name k \<noteq> Some ''d''" "name k \<noteq> Some ''l''" "name k \<noteq> Some ''right''"
        "name k \<noteq> Some ''j''" "name k \<noteq> Some ''down''" "name k \<noteq> Some ''k''"
        "name k \<noteq> Some ''up''"
    by blast
  then show ?thesis
  proof cases
    case del
    show ?thesis
    proof (cases "length (content t) > 1")
      case True
      from delete_line_col[OF assms(2,3,4) del True] show ?thesis
        using assms(1) del True by (auto simp: overlay_normal_switch_def Let_def)
    next
      case False
      have "col_in_line (t\<lparr>content := [[]], cursorCol := 0, modified := True\<rparr>)"
        using d(1,2) False by (simp add: col_in_line_iff)
      then show ?thesis
        using assms(1) del False by (auto simp: overlay_normal_switch_def Let_def)
    qed
  next
    case right
    have "content t ! nat (cursorRow t) \<noteq> []"
      using right assms(3,4) d(3) by (auto simp: column_slip_def)
    then show ?thesis using assms(1) d right
      by (auto simp: overlay_normal_switch_def col_in_line_iff)
  next
    case vertical
    then show ?thesis using assms(1) d
      by (auto simp: overlay_normal_switch_def Let_def col_in_line_iff js_index_def
          split: if_splits)
  next
    case other
    then show ?thesis using assms(1) d
      by (auto simp: overlay_normal_switch_def col_in_line_iff splice_insert_at
          split: if_splits)
  qed
qed

lemma editorKeyHandler_blocked:
  "overlay_blocked k t \<Longrightarrow> editorKeyHandler h ch (Some k) t = Running t"
  by (auto simp: editorKeyHandler_def overlay_blocked_def)

lemma editorKeyHandler_active:
  assumes "\<not> overlay_blocked k t"
  shows "editorKeyHandler h ch (Some k) t =
     (if mode t = Command then overlay_command_key h ch k t
      else if mode t = Insert then overlay_insert_key h ch k t
      else if ctrl k \<and> name k = Some ''s'' then Running (snd (saveEditorFile None h t))
      else if ctrl k \<and> name k = Some ''f'' then Running (showFileBrowser t)
      else and_then (and_then (overlay_normal_switch h k t) (overlay_go_to_end h k))
             (overlay_colon h ch))"
  using assms by (auto simp: editorKeyHandler_def overlay_blocked_def)

lemma overlay_tail_col:
  assumes "overlay_go_to_end h k s1 = Running s2" "overlay_colon h ch s2 = Running t'"
    "col_in_line s1"
  shows "col_in_line t'"
proof -
  have "col_in_line s2"
    using assms(1,3) col_in_lineD(1,2)[OF assms(3)]
    by (auto simp: overlay_go_to_end_def col_in_line_iff split: if_splits)
  then show ?thesis
    using assms(2) by (auto simp: overlay_colon_def col_in_line_iff split: if_splits)
qed

lemma editorKeyHandler_col:
  assumes "editorKeyHandler h ch key t = Running t'" "col_in_line t"
    "case key of None \<Rightarrow> True | Some k \<Rightarrow> \<not> overlay_column_slip k t"
  shows "col_in_line t'"
proof (cases key)
  case None
  then show ?thesis using assms(1,2) by (simp add: editorKeyHandler_def)
next
  case (Some k)
  have slip: "\<not> overlay_column_slip k t" using assms(3) Some by simp
  then have nslip: "\<not> column_slip k t" by (simp add: overlay_column_slip_def)
  show ?thesis
  proof (cases "overlay_blocked k t")
    case True
    then show ?thesis using assms(1,2) Some by (simp add: editorKeyHandler_blocked)
  next
    case False
    note run = assms(1)[unfolded Some editorKeyHandler_active[OF False]]
    show ?thesis
    proof (cases "mode t")
      case Command
      then show ?thesis using run assms(2) overlay_command_key_col by simp
    next
      case Insert
      then show ?thesis using run assms(2) slip overlay_insert_key_col by simp
    next
      case Normal
      show ?thesis
      proof (cases "ctrl k \<and> (name k = Some ''s'' \<or> name k = Some ''f'')")
        case True
        then show ?thesis using run Normal assms(2) by (auto split: if_splits)
      next
        case False
        then have "and_then (and_then (overlay_normal_switch h k t) (overlay_go_to_end h k))
            (overlay_colon h ch) = Running t'"
          using run Normal by (auto split: if_splits)
        then obtain s1 s2 where st: "overlay_normal_switch h k t = Running s1"
          "overlay_go_to_end h k s1 = Running s2" "overlay_colon h ch s2 = Running t'"
          by (blast dest: and_then_Running)
        from overlay_normal_switch_col[OF st(1) assms(2) nslip Normal] show ?thesis
          using overlay_tail_col[OF st(2,3)] by simp
      qed
    qed
  qed
qed

lemma overlay_run_col:
  assumes "overlay_run evs t = Running t'" "overlay_slip_free evs t" "col_in_line t"
  shows "col_in_line t'"
  using assms
proof (induction evs arbitrary: t)
  case Nil
  then show ?case by simp
next
  case (Cons a evs)
  obtain h ch key where a: "a = (h, ch, key)" by (cases a)
  from Cons.prems(1) obtain t1 where t1: "editorKeyHandler h ch key t = Running t1"
    "overlay_run evs t1 = Running t'"
    unfolding a by (auto dest: and_then_Running)
  have "case key of None \<Rightarrow> True | Some k \<Rightarrow> \<not> overlay_column_slip k t" "overlay_slip_free evs t1"
    using Cons.prems(2) t1(1) unfolding a by simp_all
  then show ?case using Cons.IH[OF t1(2)] editorKeyHandler_col[OF t1(1) Cons.prems(3)] by simp
qed

lemma ctrl_e_col: "col_in_line (ctrl_e w h)"
  by (simp add: ctrl_e_def col_in_line_iff)

subsection \<open>Escape and the horizontal motions\<close>

lemma col_below_endI:
  assumes "0 \<le> cursorRow s" "cursorRow s < int (length (content s))"
    "0 \<le> cursorCol s" "cursorCol s < max 1 (int (length (content s ! nat (cursorRow s))))"
  shows "col_below_end s"
  using assms by (simp add: col_below_end_def js_index_def)

lemma escape_standalone:
  fixes s :: session
  assumes "mode s = Insert" "regexp_safe s" "name k = Some ''escape''"
  shows "\<exists>s'. keypress h ch (Some k) s = Running s' \<and> mode s' = Normal
      \<and> content s' = content s \<and> cursorRow s' = cursorRow s \<and> cursorCol s' = cursorCol s"
proof -
  have "regexp_safe (s\<lparr>mode := Normal\<rparr>)" using assms(2) by (simp add: regexp_safe_def)
  from rendered[OF this, of h] obtain s' where s':
    "render h (s\<lparr>mode := Normal\<rparr>) = Running s'" "content s' = content s"
    "cursorRow s' = cursorRow s" "cursorCol s' = cursorCol s" "mode s' = Normal"
    by auto
  have "keypress h ch (Some k) s = Running s'"
    using assms(1,3) s'(1) by (simp add: keypress_def insert_mode_key_def)
  then show ?thesis using s' by blast
qed

lemma escape_overlay:
  fixes t :: overlay
  assumes "mode t = Insert" "\<not> overlay_blocked k t" "name k = Some ''escape''"
  shows "\<exists>t'. editorKeyHandler h ch (Some k) t = Running t' \<and> mode t' = Normal
      \<and> content t' = content t \<and> cursorRow t' = cursorRow t \<and> cursorCol t' = cursorCol t"
  using assms by (simp add: editorKeyHandler_active overlay_insert_key_def)

lemma horizontal_standalone:
  fixes s :: session
  assumes "mode s = Normal" "col_in_line s" "regexp_safe s"
    and "name k = Some ''h'' \<or> name k = Some ''left''
       \<or> ((name k = Some ''l'' \<or> name k = Some ''right'') \<and> content s ! nat (cursorRow s) \<noteq> [])"
  shows "\<exists>s'. keypress h ch (Some k) s = Running s' \<and> content s' = content s
      \<and> cursorRow s' = cursorRow s \<and> col_below_end s'"
proof -
  note d = col_in_lineD[OF assms(2)]
  let ?line = "content s ! nat (cursorRow s)"
  define c where "c = (if name k = Some ''h'' \<or> name k = Some ''left''
     then max 0 (cursorCol s - 1) else min (int (length ?line) - 1) (cursorCol s + 1))"
  have sw: "normal_switch h k s = render h (s\<lparr>cursorCol := c\<rparr>)"
    using assms(4) d(3) by (auto simp: normal_switch_def c_def)
  have "\<not> (ctrl k \<and> (name k = Some ''c'' \<or> name k = Some ''s''))" "name k \<noteq> Some ''g''"
    using assms(4) by auto
  from moved[OF assms(1,3) sw _ _ this, of ch] obtain s' where
    s': "keypress h ch (Some k) s = Running s'" "content s' = content s"
    "cursorRow s' = cursorRow s" "cursorCol s' = c" by auto
  have "0 \<le> c" "c < max 1 (int (length ?line))"
    using assms(4) d(4,5) by (auto simp: c_def)
  then have "col_below_end s'" using s'(2,3,4) d(1,2) by (intro col_below_endI) simp_all
  then show ?thesis using s' by blast
qed

lemma overlay_tail_same:
  assumes "name k \<noteq> Some ''g''"
  shows "\<exists>t'. and_then (and_then (Running t1) (overlay_go_to_end h k)) (overlay_colon h ch) = Running t'
      \<and> content t' = content t1 \<and> cursorRow t' = cursorRow t1 \<and> cursorCol t' = cursorCol t1"
  using assms by (simp add: and_then_def overlay_go_to_end_def overlay_colon_def)

lemma horizontal_overlay:
  fixes t :: overlay
  assumes "mode t = Normal" "col_in_line t" "\<not> overlay_blocked k t"
    and "name k = Some ''h'' \<or> name k = Some ''left''
       \<or> ((name k = Some ''l'' \<or> name k = Some ''right'') \<and> content t ! nat (cursorRow t) \<noteq> [])"
  shows "\<exists>t'. editorKeyHandler h ch (Some k) t = Running t' \<and> content t' = content t
      \<and> cursorRow t' = cursorRow t \<and> col_below_end t'"
proof -
  note d = col_in_lineD[OF assms(2)]
  let ?line = "content t ! nat (cursorRow t)"
  define c where "c = (if name k = Some ''h'' \<or> name k = Some ''left''
     then max 0 (cursorCol t - 1) else min (int (length ?line) - 1) (cursorCol t + 1))"
  have sw: "overlay_normal_switch h k t = Running (renderEditor h (t\<lparr>cursorCol := c\<rparr>))"
    using assms(4) d(3) by (auto simp: overlay_normal_switch_def c_def)
  have k: "\<not> (ctrl k \<and> name k = Some ''s'')" "\<not> (ctrl k \<and> name k = Some ''f'')" "name k \<noteq> Some ''g''"
    using assms(4) by auto
  from overlay_tail_same[OF k(3), of "renderEditor h (t\<lparr>cursorCol := c\<rparr>)" h ch]
  obtain t' where t': "editorKeyHandler h ch (Some k) t = Running t'" "content t' = content t"
    "cursorRow t' = cursorRow t" "cursorCol t' = c"
    using assms(1) k(1,2) sw by (auto simp: editorKeyHandler_active[OF assms(3)])
  have "0 \<le> c" "c < max 1 (int (length ?line))"
    using assms(4) d(4,5) by (auto simp: c_def)
  then have "col_below_end t'" using t'(2,3,4) d(1,2) by (intro col_below_endI) simp_all
  then show ?thesis using t' by blast
qed

lemma dollar_split:
  fixes u :: split_editor
  assumes "mode u = Normal" "activePanel u = Editor"
    and "js_index (content u) (cursorRow u) = Some line"
    and "name k \<noteq> Some ''a''" "ch = Some ''$''"
  shows "\<exists>u'. split_normal_key bh ch (Some k) u = Running u' \<and> mode u' = Normal
      \<and> content u' = content u \<and> cursorRow u' = cursorRow u \<and> cursorCol u' = int (length line)"
  using assms by (simp add: split_normal_key_def)

lemma w_split:
  fixes u :: split_editor
  assumes "mode u = Normal" "activePanel u = Editor"
    and "js_index (content u) (cursorRow u) = Some line"
    and "name k \<noteq> Some ''a''" "ch = Some ''w''"
  shows "\<exists>u'. split_normal_key bh ch (Some k) u = Running u' \<and> mode u' = Normal
      \<and> content u' = content u \<and> cursorRow u' = cursorRow u
      \<and> cursorCol u \<le> cursorCol u' \<and> cursorCol u' \<le> max (cursorCol u) (int (length line))"
proof -
  let ?mid = "forward_while True line (cursorCol u)"
  let ?pos = "forward_while False line ?mid"
  have run: "split_normal_key bh ch (Some k) u = Running (split_renderEditor bh (u\<lparr>cursorCol := ?pos\<rparr>))"
    using assms(2-5) by (simp add: split_normal_key_def)
  have "cursorCol u \<le> ?pos" "?pos \<le> max (cursorCol u) (int (length line))"
    using forward_while_bounds[of "cursorCol u" True line] forward_while_bounds[of ?mid False line]
    by auto
  then show ?thesis using run assms(1) by simp
qed

text \<open>
  Claim C6, as stated: in the normal mode \<open>0 \<le> col < max(1, lines[row].length)\<close>, also
  after Escape. It fails in the standalone editor after \<open>i\<close>, \<open>a\<close>, Escape: the line is \<open>a\<close>,
  the mode is normal and the column is 1, the length of the line.
\<close>

theorem escape_leaves_column_at_line_end:
  "fails_after normal_col_bound
     (and_then (editorCommand None empty_disk 5)
        (run [(5, press ''i''), (5, press ''a''), (5, escape_key)]))"
  by code_simp

text \<open>
  Claim C6, amended. In the normal mode the column is bounded by the length of the line,
  \<open>0 \<le> col \<le> lines[row].length\<close>, not by the index of its last character. Escape out of
  the insert mode leaves the cursor where it is, in the standalone and in the overlay
  editor, so the normal mode starts with the column of the insert mode, which can be the
  length of the line; in the split chat \<open>$\<close> puts the column at the length of the line and
  \<open>w\<close> moves it forward, never past the end of the line. Along every run of the standalone
  editor from its start, and of the overlay editor from the state in which it opens, the
  cursor row is in the buffer and \<open>0 \<le> col \<le> lines[row].length\<close>, as long as no event of
  the run is one of these: \<open>l\<close> or the right arrow in the normal mode on an empty line;
  \<open>d\<close> when the line that comes under the cursor is shorter than the column; in the
  overlay editor, the right arrow in the insert mode at the end of the line. What the
  editors do at those events is left open here. From a state within the bound, \<open>h\<close> and
  the left arrow in the normal mode end with \<open>0 \<le> col < max(1, lines[row].length)\<close>, and
  so do \<open>l\<close> and the right arrow on a line that is not empty.
\<close>

theorem normal_mode_column:
  shows "(\<forall>file w h0 s0 evs s. editorCommand file w h0 = Running s0 \<and> slip_free evs s0
            \<and> run evs s0 = Running s \<longrightarrow> col_in_line s)
       \<and> (\<forall>w h0 evs t. overlay_slip_free evs (ctrl_e w h0)
            \<and> overlay_run evs (ctrl_e w h0) = Running t \<longrightarrow> col_in_line t)
       \<and> (\<forall>s. mode s = Insert \<and> regexp_safe s \<and> name k = Some ''escape'' \<longrightarrow>
            (\<exists>s'. keypress h ch (Some k) s = Running s' \<and> mode s' = Normal
               \<and> content s' = content s \<and> cursorRow s' = cursorRow s
               \<and> cursorCol s' = cursorCol s))
       \<and> (\<forall>t. mode t = Insert \<and> \<not> overlay_blocked k t \<and> name k = Some ''escape'' \<longrightarrow>
            (\<exists>t'. editorKeyHandler h ch (Some k) t = Running t' \<and> mode t' = Normal
               \<and> content t' = content t \<and> cursorRow t' = cursorRow t
               \<and> cursorCol t' = cursorCol t))
       \<and> (\<forall>s. mode s = Normal \<and> col_in_line s \<and> regexp_safe s
            \<and> (name k = Some ''h'' \<or> name k = Some ''left''
               \<or> ((name k = Some ''l'' \<or> name k = Some ''right'')
                   \<and> content s ! nat (cursorRow s) \<noteq> [])) \<longrightarrow>
            (\<exists>s'. keypress h ch (Some k) s = Running s' \<and> content s' = content s
               \<and> cursorRow s' = cursorRow s \<and> col_below_end s'))
       \<and> (\<forall>t. mode t = Normal \<and> col_in_line t \<and> \<not> overlay_blocked k t
            \<and> (name k = Some ''h'' \<or> name k = Some ''left''
               \<or> ((name k = Some ''l'' \<or> name k = Some ''right'')
                   \<and> content t ! nat (cursorRow t) \<noteq> [])) \<longrightarrow>
            (\<exists>t'. editorKeyHandler h ch (Some k) t = Running t' \<and> content t' = content t
               \<and> cursorRow t' = cursorRow t \<and> col_below_end t'))
       \<and> (\<forall>u line. mode u = Normal \<and> activePanel u = Editor
            \<and> js_index (content u) (cursorRow u) = Some line
            \<and> name k \<noteq> Some ''a'' \<and> ch = Some ''$'' \<longrightarrow>
            (\<exists>u'. split_normal_key bh ch (Some k) u = Running u' \<and> mode u' = Normal
               \<and> content u' = content u \<and> cursorRow u' = cursorRow u
               \<and> cursorCol u' = int (length line)))
       \<and> (\<forall>u line. mode u = Normal \<and> activePanel u = Editor
            \<and> js_index (content u) (cursorRow u) = Some line
            \<and> name k \<noteq> Some ''a'' \<and> ch = Some ''w'' \<longrightarrow>
            (\<exists>u'. split_normal_key bh ch (Some k) u = Running u' \<and> mode u' = Normal
               \<and> content u' = content u \<and> cursorRow u' = cursorRow u
               \<and> cursorCol u \<le> cursorCol u'
               \<and> cursorCol u' \<le> max (cursorCol u) (int (length line))))"
proof (intro conjI allI impI)
  fix f w h0 s0 evs s
  assume "editorCommand f w h0 = Running s0 \<and> slip_free evs s0 \<and> run evs s0 = Running s"
  then show "col_in_line s" using run_col editorCommand_col by blast
next
  fix w h0 evs t
  assume "overlay_slip_free evs (ctrl_e w h0) \<and> overlay_run evs (ctrl_e w h0) = Running t"
  then show "col_in_line t" using overlay_run_col ctrl_e_col by blast
next
  fix s :: session
  assume "mode s = Insert \<and> regexp_safe s \<and> name k = Some ''escape''"
  then show "\<exists>s'. keypress h ch (Some k) s = Running s' \<and> mode s' = Normal
      \<and> content s' = content s \<and> cursorRow s' = cursorRow s \<and> cursorCol s' = cursorCol s"
    using escape_standalone[of s k h ch] by blast
next
  fix t :: overlay
  assume "mode t = Insert \<and> \<not> overlay_blocked k t \<and> name k = Some ''escape''"
  then show "\<exists>t'. editorKeyHandler h ch (Some k) t = Running t' \<and> mode t' = Normal
      \<and> content t' = content t \<and> cursorRow t' = cursorRow t \<and> cursorCol t' = cursorCol t"
    using escape_overlay[of t k h ch] by blast
next
  fix s :: session
  assume "mode s = Normal \<and> col_in_line s \<and> regexp_safe s
    \<and> (name k = Some ''h'' \<or> name k = Some ''left''
       \<or> ((name k = Some ''l'' \<or> name k = Some ''right'') \<and> content s ! nat (cursorRow s) \<noteq> []))"
  then show "\<exists>s'. keypress h ch (Some k) s = Running s' \<and> content s' = content s
      \<and> cursorRow s' = cursorRow s \<and> col_below_end s'"
    using horizontal_standalone[of s k h ch] by blast
next
  fix t :: overlay
  assume "mode t = Normal \<and> col_in_line t \<and> \<not> overlay_blocked k t
    \<and> (name k = Some ''h'' \<or> name k = Some ''left''
       \<or> ((name k = Some ''l'' \<or> name k = Some ''right'') \<and> content t ! nat (cursorRow t) \<noteq> []))"
  then show "\<exists>t'. editorKeyHandler h ch (Some k) t = Running t' \<and> content t' = content t
      \<and> cursorRow t' = cursorRow t \<and> col_below_end t'"
    using horizontal_overlay[of t k h ch] by blast
next
  fix u :: split_editor and line
  assume "mode u = Normal \<and> activePanel u = Editor
    \<and> js_index (content u) (cursorRow u) = Some line \<and> name k \<noteq> Some ''a'' \<and> ch = Some ''$''"
  then show "\<exists>u'. split_normal_key bh ch (Some k) u = Running u' \<and> mode u' = Normal
      \<and> content u' = content u \<and> cursorRow u' = cursorRow u \<and> cursorCol u' = int (length line)"
    using dollar_split[of u line k ch bh] by blast
next
  fix u :: split_editor and line
  assume "mode u = Normal \<and> activePanel u = Editor
    \<and> js_index (content u) (cursorRow u) = Some line \<and> name k \<noteq> Some ''a'' \<and> ch = Some ''w''"
  then show "\<exists>u'. split_normal_key bh ch (Some k) u = Running u' \<and> mode u' = Normal
      \<and> content u' = content u \<and> cursorRow u' = cursorRow u
      \<and> cursorCol u \<le> cursorCol u' \<and> cursorCol u' \<le> max (cursorCol u) (int (length line))"
    using w_split[of u line k ch bh] by blast
qed

theorem normal_mode_column_witness:
  "editorCommand None empty_disk 2 = Running fresh \<and> slip_free escape_then_left fresh
   \<and> (\<exists>s. run escape_then_left fresh = Running s \<and> col_in_line s)
   \<and> overlay_slip_free overlay_escape_then_left (ctrl_e empty_disk 5)
   \<and> (\<exists>t. overlay_run overlay_escape_then_left (ctrl_e empty_disk 5) = Running t \<and> col_in_line t)
   \<and> mode typed_a = Insert \<and> regexp_safe typed_a \<and> content typed_a = [''a'']
   \<and> cursorCol typed_a = 1
   \<and> (\<exists>s'. keypress 5 (Some [CHR 0x1B]) (Some (plain ''escape'')) typed_a = Running s'
         \<and> mode s' = Normal \<and> content s' = [''a''] \<and> cursorCol s' = 1)
   \<and> mode overlay_typed_a = Insert \<and> \<not> overlay_blocked (plain ''escape'') overlay_typed_a
   \<and> (\<exists>t'. editorKeyHandler 5 (Some [CHR 0x1B]) (Some (plain ''escape'')) overlay_typed_a
           = Running t'
         \<and> mode t' = Normal \<and> content t' = [''a''] \<and> cursorCol t' = 1)
   \<and> col_in_line (typed_a\<lparr>mode := Normal\<rparr>)
   \<and> (\<exists>s'. keypress 5 (Some ''h'') (Some (plain ''h'')) (typed_a\<lparr>mode := Normal\<rparr>) = Running s'
         \<and> col_below_end s')
   \<and> (\<exists>s'. keypress 5 (Some ''l'') (Some (plain ''l''))
           (typed_a\<lparr>mode := Normal, content := [''ab'']\<rparr>) = Running s'
         \<and> col_below_end s')
   \<and> col_in_line (overlay_typed_a\<lparr>mode := Normal\<rparr>)
   \<and> (\<exists>t'. editorKeyHandler 5 (Some ''h'') (Some (plain ''h'')) (overlay_typed_a\<lparr>mode := Normal\<rparr>)
           = Running t'
         \<and> col_below_end t')
   \<and> mode split_word = Normal \<and> activePanel split_word = Editor
   \<and> content split_word = [''ab cd''] \<and> cursorCol split_word = 3
   \<and> (\<exists>u'. split_normal_key 5 (Some ''$'') (Some no_name) split_word = Running u'
         \<and> cursorCol u' = 5)
   \<and> (\<exists>u'. split_normal_key 5 (Some ''w'') (Some (plain ''w'')) split_word = Running u'
         \<and> 3 \<le> cursorCol u' \<and> cursorCol u' \<le> 5)"
proof -
  have start: "editorCommand None empty_disk 2 = Running fresh" by (rule fresh_start)
  have free: "slip_free escape_then_left fresh" by code_simp
  obtain s where s: "run escape_then_left fresh = Running s"
    by (simp add: escape_then_left_def fresh_def run_eval)
  have ofree: "overlay_slip_free overlay_escape_then_left (ctrl_e empty_disk 5)" by code_simp
  obtain t where t: "overlay_run overlay_escape_then_left (ctrl_e empty_disk 5) = Running t"
    by (simp add: overlay_escape_then_left_def ctrl_e_def editorKeyHandler_def
        overlay_normal_switch_def overlay_insert_key_def overlay_go_to_end_def overlay_colon_def
        renderEditor_def run_eval)
  have a: "mode typed_a = Insert" "regexp_safe typed_a" "content typed_a = [''a'']"
    "cursorCol typed_a = 1"
    by (simp_all add: typed_a_def regexp_safe_def)
  have b: "mode overlay_typed_a = Insert" "\<not> overlay_blocked (plain ''escape'') overlay_typed_a"
    "content overlay_typed_a = [''a'']" "cursorCol overlay_typed_a = 1"
    by (simp_all add: overlay_typed_a_def overlay_fresh_def ctrl_e_def renderEditor_def
        screen_render_def overlay_blocked_def plain_def)
  let ?n = "typed_a\<lparr>mode := Normal\<rparr>"
  have n: "mode ?n = Normal" "col_in_line ?n" "regexp_safe ?n"
    by (simp_all add: typed_a_def col_in_line_def js_index_def regexp_safe_def)
  let ?ab = "typed_a\<lparr>mode := Normal, content := [''ab'']\<rparr>"
  have ab: "mode ?ab = Normal" "col_in_line ?ab" "regexp_safe ?ab"
    "content ?ab ! nat (cursorRow ?ab) \<noteq> []"
    by (simp_all add: typed_a_def col_in_line_def js_index_def regexp_safe_def)
  let ?on = "overlay_typed_a\<lparr>mode := Normal\<rparr>"
  have on: "mode ?on = Normal" "col_in_line ?on" "\<not> overlay_blocked (plain ''h'') ?on"
    by (simp_all add: overlay_typed_a_def overlay_fresh_def ctrl_e_def renderEditor_def
        screen_render_def overlay_blocked_def plain_def col_in_line_def js_index_def)
  have u: "mode split_word = Normal" "activePanel split_word = Editor"
    "js_index (content split_word) (cursorRow split_word) = Some ''ab cd''"
    "content split_word = [''ab cd'']" "cursorCol split_word = 3"
    by (simp_all add: split_word_def js_index_def)
  have names: "name (plain ''escape'') = Some ''escape''" "name (plain ''h'') = Some ''h''"
    "name (plain ''l'') = Some ''l''" "name no_name \<noteq> Some ''a''" "name (plain ''w'') \<noteq> Some ''a''"
    by (simp_all add: plain_def no_name_def)
  from normal_mode_column[of "plain ''h''" 5 "Some ''h''" 5, THEN conjunct1] start free s
  have 1: "col_in_line s" by blast
  from normal_mode_column[of "plain ''h''" 5 "Some ''h''" 5, THEN conjunct2, THEN conjunct1] ofree t
  have 2: "col_in_line t" by blast
  from normal_mode_column[of "plain ''escape''" 5 "Some [CHR 0x1B]" 5, THEN conjunct2, THEN conjunct2, THEN conjunct1] a(1,2) names(1)
  obtain s1 where 3: "keypress 5 (Some [CHR 0x1B]) (Some (plain ''escape'')) typed_a = Running s1"
    "mode s1 = Normal" "content s1 = content typed_a" "cursorCol s1 = cursorCol typed_a"
    by blast
  from normal_mode_column[of "plain ''escape''" 5 "Some [CHR 0x1B]" 5, THEN conjunct2, THEN conjunct2, THEN conjunct2, THEN conjunct1] b(1,2) names(1)
  obtain t1 where 4:
    "editorKeyHandler 5 (Some [CHR 0x1B]) (Some (plain ''escape'')) overlay_typed_a = Running t1"
    "mode t1 = Normal" "content t1 = content overlay_typed_a"
    "cursorCol t1 = cursorCol overlay_typed_a"
    by blast
  from normal_mode_column[of "plain ''h''" 5 "Some ''h''" 5, THEN conjunct2, THEN conjunct2, THEN conjunct2, THEN conjunct2, THEN conjunct1] n names(2)
  obtain s2 where 5: "keypress 5 (Some ''h'') (Some (plain ''h'')) ?n = Running s2"
    "col_below_end s2"
    by blast
  from normal_mode_column[of "plain ''l''" 5 "Some ''l''" 5, THEN conjunct2, THEN conjunct2, THEN conjunct2, THEN conjunct2, THEN conjunct1] ab names(3)
  obtain s3 where 6: "keypress 5 (Some ''l'') (Some (plain ''l'')) ?ab = Running s3"
    "col_below_end s3"
    by blast
  from normal_mode_column[of "plain ''h''" 5 "Some ''h''" 5, THEN conjunct2, THEN conjunct2, THEN conjunct2, THEN conjunct2, THEN conjunct2, THEN conjunct1] on names(2)
  obtain t2 where 7: "editorKeyHandler 5 (Some ''h'') (Some (plain ''h'')) ?on = Running t2"
    "col_below_end t2"
    by blast
  from normal_mode_column[of no_name 5 "Some ''$''" 5, THEN conjunct2, THEN conjunct2, THEN conjunct2, THEN conjunct2, THEN conjunct2, THEN conjunct2, THEN conjunct1] u(1,2,3) names(4)
  obtain u1 where 8: "split_normal_key 5 (Some ''$'') (Some no_name) split_word = Running u1"
    "cursorCol u1 = int (length ''ab cd'')"
    by blast
  from normal_mode_column[of "plain ''w''" 5 "Some ''w''" 5, THEN conjunct2, THEN conjunct2, THEN conjunct2, THEN conjunct2, THEN conjunct2, THEN conjunct2, THEN conjunct2] u(1,2,3) names(5)
  obtain u2 where 9: "split_normal_key 5 (Some ''w'') (Some (plain ''w'')) split_word = Running u2"
    "cursorCol split_word \<le> cursorCol u2"
    "cursorCol u2 \<le> max (cursorCol split_word) (int (length ''ab cd''))"
    by blast
  have c1: "\<exists>s. run escape_then_left fresh = Running s \<and> col_in_line s" using s 1 by blast
  have c2: "\<exists>t. overlay_run overlay_escape_then_left (ctrl_e empty_disk 5) = Running t
      \<and> col_in_line t" using t 2 by blast
  have c3: "\<exists>s'. keypress 5 (Some [CHR 0x1B]) (Some (plain ''escape'')) typed_a = Running s'
         \<and> mode s' = Normal \<and> content s' = [''a''] \<and> cursorCol s' = 1"
    using 3 a by auto
  have c4: "\<exists>t'. editorKeyHandler 5 (Some [CHR 0x1B]) (Some (plain ''escape'')) overlay_typed_a
           = Running t' \<and> mode t' = Normal \<and> content t' = [''a''] \<and> cursorCol t' = 1"
    using 4 b by auto
  have c5: "\<exists>s'. keypress 5 (Some ''h'') (Some (plain ''h'')) ?n = Running s' \<and> col_below_end s'"
    using 5 by blast
  have c6: "\<exists>s'. keypress 5 (Some ''l'') (Some (plain ''l'')) ?ab = Running s' \<and> col_below_end s'"
    using 6 by blast
  have c7: "\<exists>t'. editorKeyHandler 5 (Some ''h'') (Some (plain ''h'')) ?on = Running t'
      \<and> col_below_end t'"
    using 7 by blast
  have c8: "\<exists>u'. split_normal_key 5 (Some ''$'') (Some no_name) split_word = Running u'
         \<and> cursorCol u' = 5"
    using 8 by auto
  have c9: "\<exists>u'. split_normal_key 5 (Some ''w'') (Some (plain ''w'')) split_word = Running u'
         \<and> 3 \<le> cursorCol u' \<and> cursorCol u' \<le> 5"
    using 9 u(5) by auto
  show ?thesis
    using start free ofree a b(1,2) n(2) on(2) u(1,2,4,5) c1 c2 c3 c4 c5 c6 c7 c8 c9 by simp
qed


end
